(* ===== verification/PyValue.thy ===== *)
theory PyValue
  imports PyPrelude
begin

text \<open>
  The Python values that travel between the components as parsed JSON documents and
  keyword dictionaries, with the conversions the code applies to them (\<open>str\<close>, \<open>int\<close>,
  truth, type tests).  Floats and values outside JSON are not in the model; a \<open>dict\<close> has
  string keys.  Lists and tuples are both \<open>PList\<close>.
\<close>

datatype pyval =
    PNone
  | PBool bool
  | PInt int
  | PStr string
  | PList "pyval list"
  | PDict "(string \<times> pyval) list"

section \<open>Decimal numerals\<close>

definition digit_char :: "nat \<Rightarrow> char" where
  "digit_char d = char_of (48 + d)"

definition digit_val :: "char \<Rightarrow> nat" where
  "digit_val c = of_char c - 48"

definition is_digit :: "char \<Rightarrow> bool" where
  "is_digit c = (48 \<le> (of_char c :: nat) \<and> (of_char c :: nat) \<le> 57)"

fun nat_str :: "nat \<Rightarrow> string" where
  "nat_str n = (if n < 10 then [digit_char n] else nat_str (n div 10) @ [digit_char (n mod 10)])"

declare nat_str.simps [simp del]

definition nat_val :: "string \<Rightarrow> nat" where
  "nat_val s = foldl (\<lambda>n c. 10 * n + digit_val c) 0 s"

definition int_str :: "int \<Rightarrow> string" where
  "int_str i = (if i < 0 then CHR ''-'' # nat_str (nat (- i)) else nat_str (nat i))"

lemma of_digit_char [simp]: "d < 10 \<Longrightarrow> (of_char (digit_char d) :: nat) = 48 + d"
  by (simp add: digit_char_def)

lemma digit_char_simps [simp]:
  "d < 10 \<Longrightarrow> is_digit (digit_char d)" "d < 10 \<Longrightarrow> digit_val (digit_char d) = d"
  by (simp_all add: is_digit_def digit_val_def)

lemma nat_str_digits: "list_all is_digit (nat_str n)"
  by (induction n rule: nat_str.induct) (subst nat_str.simps, simp)

lemma nat_str_nonempty [simp]: "nat_str n \<noteq> []"
  by (subst nat_str.simps) simp

lemma nat_val_nat_str [simp]: "nat_val (nat_str n) = n"
proof (induction n rule: nat_str.induct)
  case (1 n)
  then show ?case
    by (subst nat_str.simps) (simp add: nat_val_def)
qed

lemma nat_str_inject [simp]: "nat_str m = nat_str n \<longleftrightarrow> m = n"
  by (metis nat_val_nat_str)

lemma hd_nat_str: "hd (nat_str n) = digit_char 0 \<Longrightarrow> n = 0"
proof (induction n rule: nat_str.induct)
  case (1 n)
  show ?case
  proof (cases "n < 10")
    case True
    with "1.prems" have "digit_char n = digit_char 0"
      by (subst (asm) nat_str.simps) simp
    with True show ?thesis by (metis digit_char_simps(2) zero_less_numeral)
  next
    case False
    with "1.prems" have "hd (nat_str (n div 10)) = digit_char 0"
      by (subst (asm) nat_str.simps) simp
    with 1 False have "n div 10 = 0" by simp
    with False show ?thesis by simp
  qed
qed

text \<open>\<open>int(s)\<close> on a string: surrounding white space, an optional sign, and digits that may be
  grouped by single underscores; anything else is a \<open>ValueError\<close> (\<open>None\<close>).\<close>

definition parse_digits :: "string \<Rightarrow> nat option" where
  "parse_digits s = (let ps = split_on (CHR ''_'') s in
     if list_all (\<lambda>p. p \<noteq> [] \<and> list_all is_digit p) ps then Some (nat_val (concat ps)) else None)"

definition parse_int :: "string \<Rightarrow> int option" where
  "parse_int s = (case strip s of
       [] \<Rightarrow> None
     | c # r \<Rightarrow>
         if c = CHR ''-'' then map_option (\<lambda>n. - int n) (parse_digits r)
         else if c = CHR ''+'' then map_option int (parse_digits r)
         else map_option int (parse_digits (c # r)))"

section \<open>Conversions\<close>

definition hex_digit :: "nat \<Rightarrow> char" where
  "hex_digit d = (if d < 10 then char_of (48 + d) else char_of (87 + d))"

definition hex2 :: "nat \<Rightarrow> string" where
  "hex2 n = [hex_digit (n div 16), hex_digit (n mod 16)]"

text \<open>\<open>repr\<close> of a string: single quotes unless the text holds a single quote and no double
  quote; escapes for the backslash, the quote in use and non-printable characters.\<close>

definition repr_char :: "char \<Rightarrow> char \<Rightarrow> string" where
  "repr_char q c = (let n = of_char c :: nat in
     if c = q \<or> n = 92 then [CHR 92, c]
     else if n = 10 then [CHR 92, CHR ''n'']
     else if n = 13 then [CHR 92, CHR ''r'']
     else if n = 9 then [CHR 92, CHR ''t'']
     else if n < 32 \<or> 127 \<le> n \<and> n \<le> 160 \<or> n = 173 then [CHR 92, CHR ''x''] @ hex2 n
     else [c])"

definition repr_str :: "string \<Rightarrow> string" where
  "repr_str s = (let q = (if CHR 39 \<in> set s \<and> CHR 34 \<notin> set s then CHR 34 else CHR 39)
     in [q] @ concat (map (repr_char q) s) @ [q])"

fun py_repr :: "pyval \<Rightarrow> string" and
    repr_items :: "pyval list \<Rightarrow> string" and
    repr_entries :: "(string \<times> pyval) list \<Rightarrow> string" where
  "py_repr PNone = ''None''"
| "py_repr (PBool b) = (if b then ''True'' else ''False'')"
| "py_repr (PInt i) = int_str i"
| "py_repr (PStr s) = repr_str s"
| "py_repr (PList vs) = ''['' @ repr_items vs @ '']''"
| "py_repr (PDict kvs) = ''{'' @ repr_entries kvs @ ''}''"
| "repr_items [] = []"
| "repr_items [v] = py_repr v"
| "repr_items (v # w # vs) = py_repr v @ '', '' @ repr_items (w # vs)"
| "repr_entries [] = []"
| "repr_entries [(k, v)] = repr_str k @ '': '' @ py_repr v"
| "repr_entries ((k, v) # e # es) = repr_str k @ '': '' @ py_repr v @ '', '' @ repr_entries (e # es)"

definition py_str :: "pyval \<Rightarrow> string" where
  "py_str v = (case v of PStr s \<Rightarrow> s | _ \<Rightarrow> py_repr v)"

datatype conv_error = ConvTypeError | ConvValueError

definition py_int :: "pyval \<Rightarrow> conv_error + int" where
  "py_int v = (case v of
       PInt i \<Rightarrow> Inr i
     | PBool b \<Rightarrow> Inr (if b then 1 else 0)
     | PStr s \<Rightarrow> (case parse_int s of None \<Rightarrow> Inl ConvValueError | Some i \<Rightarrow> Inr i)
     | _ \<Rightarrow> Inl ConvTypeError)"

definition py_truth :: "pyval \<Rightarrow> bool" where
  "py_truth v = (case v of
       PNone \<Rightarrow> False
     | PBool b \<Rightarrow> b
     | PInt i \<Rightarrow> i \<noteq> 0
     | PStr s \<Rightarrow> s \<noteq> []
     | PList vs \<Rightarrow> vs \<noteq> []
     | PDict kvs \<Rightarrow> kvs \<noteq> [])"

section \<open>Type tests and dictionary reads\<close>

definition is_str :: "pyval \<Rightarrow> bool" where
  "is_str v = (case v of PStr _ \<Rightarrow> True | _ \<Rightarrow> False)"

definition is_list :: "pyval \<Rightarrow> bool" where
  "is_list v = (case v of PList _ \<Rightarrow> True | _ \<Rightarrow> False)"

definition is_dict :: "pyval \<Rightarrow> bool" where
  "is_dict v = (case v of PDict _ \<Rightarrow> True | _ \<Rightarrow> False)"

text \<open>\<open>d.get(k)\<close> is \<open>None\<close> when the key is absent; \<open>d.get(k, x)\<close> gives the default.\<close>

definition dget :: "pyval dict \<Rightarrow> string \<Rightarrow> pyval" where
  "dget d k = (case map_of d k of None \<Rightarrow> PNone | Some v \<Rightarrow> v)"

definition dget_or :: "pyval dict \<Rightarrow> string \<Rightarrow> pyval \<Rightarrow> pyval" where
  "dget_or d k x = (case map_of d k of None \<Rightarrow> x | Some v \<Rightarrow> v)"

lemma py_int_simps [simp]:
  "py_int (PInt i) = Inr i" "py_int (PBool b) = Inr (if b then 1 else 0)"
  "py_int PNone = Inl ConvTypeError" "py_int (PList vs) = Inl ConvTypeError"
  "py_int (PDict kvs) = Inl ConvTypeError"
  by (simp_all add: py_int_def)

lemma py_str_PStr [simp]: "py_str (PStr s) = s"
  by (simp add: py_str_def)

lemma is_str_simps [simp]:
  "is_str (PStr s)" "\<not> is_str PNone" "\<not> is_str (PBool b)" "\<not> is_str (PInt i)"
  "\<not> is_str (PList vs)" "\<not> is_str (PDict kvs)"
  by (simp_all add: is_str_def)

lemma is_list_simps [simp]:
  "is_list (PList vs)" "\<not> is_list PNone" "\<not> is_list (PBool b)" "\<not> is_list (PInt i)"
  "\<not> is_list (PStr s)" "\<not> is_list (PDict kvs)"
  by (simp_all add: is_list_def)

lemma is_dict_simps [simp]:
  "is_dict (PDict kvs)" "\<not> is_dict PNone" "\<not> is_dict (PBool b)" "\<not> is_dict (PInt i)"
  "\<not> is_dict (PStr s)" "\<not> is_dict (PList vs)"
  by (simp_all add: is_dict_def)

lemma is_str_iff: "is_str v \<longleftrightarrow> (\<exists>s. v = PStr s)"
  by (cases v) auto

lemma is_dict_iff: "is_dict v \<longleftrightarrow> (\<exists>d. v = PDict d)"
  by (cases v) auto

lemma is_list_iff: "is_list v \<longleftrightarrow> (\<exists>vs. v = PList vs)"
  by (cases v) auto

lemma dget_update [simp]: "dget (AList.update k v d) k' = (if k' = k then v else dget d k')"
  and dget_or_update [simp]: "dget_or (AList.update k v d) k' x = (if k' = k then v else dget_or d k' x)"
  by (simp_all add: dget_def dget_or_def map_of_update)

lemma dget_Cons [simp]: "dget ((k, v) # d) k' = (if k' = k then v else dget d k')"
  and dget_or_Cons [simp]: "dget_or ((k, v) # d) k' x = (if k' = k then v else dget_or d k' x)"
  by (simp_all add: dget_def dget_or_def)

text \<open>A match that raises on every other kind of value succeeds on that kind only.\<close>

lemma case_PList_Inr: "(case v of PList vs \<Rightarrow> f vs | _ \<Rightarrow> Inl e) = Inr y \<longleftrightarrow> (\<exists>vs. v = PList vs \<and> f vs = Inr y)"
  and case_PDict_Inr: "(case v of PDict d \<Rightarrow> g d | _ \<Rightarrow> Inl e) = Inr y \<longleftrightarrow> (\<exists>d. v = PDict d \<and> g d = Inr y)"
  and case_PInt_Inr: "(case v of PInt i \<Rightarrow> n i | _ \<Rightarrow> Inl e) = Inr y \<longleftrightarrow> (\<exists>i. v = PInt i \<and> n i = Inr y)"
  and case_PStr_Inr: "(case v of PStr s \<Rightarrow> h s | _ \<Rightarrow> Inl e) = Inr y \<longleftrightarrow> (\<exists>s. v = PStr s \<and> h s = Inr y)"
  by (cases v; simp)+

lemma if_Inl_Inr: "(if b then Inl e else m) = Inr y \<longleftrightarrow> \<not> b \<and> m = Inr y"
  and if_Inr_Inl: "(if b then m else Inl e) = Inr y \<longleftrightarrow> b \<and> m = Inr y"
  by simp_all

lemmas shape_simps = case_PList_Inr case_PDict_Inr case_PInt_Inr case_PStr_Inr if_Inl_Inr if_Inr_Inl

end
