(* ===== verification/PyJson.thy ===== *)
theory PyJson
  imports PyValue
begin

text \<open>
  The text form of documents: what \<open>json.dumps\<close> writes with \<open>sort_keys=True\<close> and the compact
  separators, and what \<open>json.loads\<close> reads back.  Every store of the agent persists through
  this pair.  Number literals with a fraction or an exponent, and escapes above U+00FF, are
  outside the value model and read as an error.  The reader is a recursive descent with a
  fuel argument; \<open>json_loads\<close> starts it with one unit more than the length of the text, and
  the round trip below shows that this is enough for everything the writer produces.
\<close>

section \<open>Writing\<close>

text \<open>\<open>sort_keys=True\<close> orders the entries of every dictionary by key.\<close>

fun json_sort :: "pyval \<Rightarrow> pyval" where
  "json_sort (PList vs) = PList (map json_sort vs)"
| "json_sort (PDict kvs) = PDict (sort_key fst (map (\<lambda>(k, v). (k, json_sort v)) kvs))"
| "json_sort v = v"

definition json_char :: "bool \<Rightarrow> char \<Rightarrow> string" where
  "json_char ascii c = (let n = of_char c :: nat in
     if n = 34 \<or> n = 92 then [CHR 92, c]
     else if n = 10 then [CHR 92, CHR ''n'']
     else if n = 13 then [CHR 92, CHR ''r'']
     else if n = 9 then [CHR 92, CHR ''t'']
     else if n = 12 then [CHR 92, CHR ''f'']
     else if n = 8 then [CHR 92, CHR ''b'']
     else if n < 32 \<or> ascii \<and> 127 \<le> n then [CHR 92, CHR ''u'', CHR ''0'', CHR ''0''] @ hex2 n
     else [c])"

definition json_string :: "bool \<Rightarrow> string \<Rightarrow> string" where
  "json_string ascii s = CHR 34 # concat (map (json_char ascii) s) @ [CHR 34]"

fun json_text :: "bool \<Rightarrow> pyval \<Rightarrow> string" and
    json_items :: "bool \<Rightarrow> pyval list \<Rightarrow> string" and
    json_entries :: "bool \<Rightarrow> (string \<times> pyval) list \<Rightarrow> string" where
  "json_text a PNone = ''null''"
| "json_text a (PBool b) = (if b then ''true'' else ''false'')"
| "json_text a (PInt i) = int_str i"
| "json_text a (PStr s) = json_string a s"
| "json_text a (PList vs) =
     (case vs of [] \<Rightarrow> ''[]'' | _ \<Rightarrow> CHR ''['' # json_items a vs)"
| "json_text a (PDict kvs) =
     (case kvs of [] \<Rightarrow> ''{}'' | _ \<Rightarrow> CHR ''{'' # json_entries a kvs)"
| "json_items a [] = '']''"
| "json_items a (v # vs) = json_text a v @ (if vs = [] then '']'' else CHR '','' # json_items a vs)"
| "json_entries a [] = ''}''"
| "json_entries a (e # es) = json_string a (fst e) @ CHR '':'' # json_text a (snd e)
     @ (if es = [] then ''}'' else CHR '','' # json_entries a es)"

definition json_dumps :: "bool \<Rightarrow> pyval \<Rightarrow> string" where
  "json_dumps ascii v = json_text ascii (json_sort v)"

section \<open>Reading\<close>

definition json_ws :: "char \<Rightarrow> bool" where
  "json_ws c = (c = CHR '' '' \<or> c = CHR 9 \<or> c = CHR 10 \<or> c = CHR 13)"

definition skip_ws :: "string \<Rightarrow> string" where
  "skip_ws s = dropWhile json_ws s"

definition hex_val :: "char \<Rightarrow> nat option" where
  "hex_val c = (let n = of_char c :: nat in
     if 48 \<le> n \<and> n \<le> 57 then Some (n - 48)
     else if 97 \<le> n \<and> n \<le> 102 then Some (n - 87)
     else if 65 \<le> n \<and> n \<le> 70 then Some (n - 55)
     else None)"

fun hex4 :: "string \<Rightarrow> (char \<times> string) option" where
  "hex4 (a # b # c # d # s) =
     (case (hex_val a, hex_val b, hex_val c, hex_val d) of
        (Some w, Some x, Some y, Some z) \<Rightarrow>
          (let n = ((w * 16 + x) * 16 + y) * 16 + z in
           if n < 256 then Some (char_of n, s) else None)
      | _ \<Rightarrow> None)"
| "hex4 _ = None"

definition simple_escape :: "char \<Rightarrow> char option" where
  "simple_escape c =
     (if c = CHR 34 \<or> c = CHR 92 \<or> c = CHR ''/'' then Some c
      else if c = CHR ''n'' then Some (CHR 10)
      else if c = CHR ''r'' then Some (CHR 13)
      else if c = CHR ''t'' then Some (CHR 9)
      else if c = CHR ''f'' then Some (CHR 12)
      else if c = CHR ''b'' then Some (CHR 8)
      else None)"

text \<open>One character of a string body: \<open>None\<close> is an error, the pair the character and the rest.\<close>

definition json_unit :: "string \<Rightarrow> (char \<times> string) option" where
  "json_unit s = (case s of
       [] \<Rightarrow> None
     | c # r \<Rightarrow>
         if c = CHR 92 then
           (case r of
              [] \<Rightarrow> None
            | e # r' \<Rightarrow> if e = CHR ''u'' then hex4 r'
                        else map_option (\<lambda>x. (x, r')) (simple_escape e))
         else if (of_char c :: nat) < 32 then None
         else Some (c, r))"

fun json_str :: "nat \<Rightarrow> string \<Rightarrow> (string \<times> string) option" where
  "json_str 0 s = None"
| "json_str (Suc n) s = (case s of
       [] \<Rightarrow> None
     | c # r \<Rightarrow>
         if c = CHR 34 then Some ([], r)
         else (case json_unit s of
                 None \<Rightarrow> None
               | Some (x, r') \<Rightarrow>
                   map_option (\<lambda>(t, r''). (x # t, r'')) (json_str n r')))"

text \<open>An integer literal: \<open>-?(0|[1-9][0-9]*)\<close>, not followed by a fraction or an exponent.\<close>

definition json_nat :: "string \<Rightarrow> (nat \<times> string) option" where
  "json_nat s = (let ds = takeWhile is_digit s; r = dropWhile is_digit s in
     if ds = [] then None
     else if hd ds = CHR ''0'' \<and> length ds > 1 then None
     else if r \<noteq> [] \<and> (hd r = CHR ''.'' \<or> hd r = CHR ''e'' \<or> hd r = CHR ''E'') then None
     else Some (nat_val ds, r))"

definition json_number :: "string \<Rightarrow> (pyval \<times> string) option" where
  "json_number s =
     (if s \<noteq> [] \<and> hd s = CHR ''-''
      then map_option (\<lambda>(n, r). (PInt (- int n), r)) (json_nat (tl s))
      else map_option (\<lambda>(n, r). (PInt (int n), r)) (json_nat s))"

definition json_word :: "string \<Rightarrow> (pyval \<times> string) option" where
  "json_word s =
     (if starts_with s ''null'' then Some (PNone, drop 4 s)
      else if starts_with s ''true'' then Some (PBool True, drop 4 s)
      else if starts_with s ''false'' then Some (PBool False, drop 5 s)
      else json_number s)"

text \<open>A repeated key keeps its first position and its last value.\<close>

definition dict_of :: "(string \<times> pyval) list \<Rightarrow> pyval dict" where
  "dict_of es = foldl (\<lambda>d (k, v). AList.update k v d) [] es"

fun json_value :: "nat \<Rightarrow> string \<Rightarrow> (pyval \<times> string) option" and
    json_elems :: "nat \<Rightarrow> string \<Rightarrow> (pyval list \<times> string) option" and
    json_members :: "nat \<Rightarrow> string \<Rightarrow> ((string \<times> pyval) list \<times> string) option" where
  "json_value 0 s = None"
| "json_value (Suc n) s = (case s of
       [] \<Rightarrow> None
     | c # r \<Rightarrow>
         if c = CHR 34 then map_option (\<lambda>(t, r'). (PStr t, r')) (json_str (length s) r)
         else if c = CHR ''['' then
           (if skip_ws r \<noteq> [] \<and> hd (skip_ws r) = CHR '']'' then Some (PList [], tl (skip_ws r))
            else map_option (\<lambda>(vs, r'). (PList vs, r')) (json_elems n (skip_ws r)))
         else if c = CHR ''{'' then
           (if skip_ws r \<noteq> [] \<and> hd (skip_ws r) = CHR ''}'' then Some (PDict [], tl (skip_ws r))
            else map_option (\<lambda>(es, r'). (PDict (dict_of es), r')) (json_members n (skip_ws r)))
         else json_word s)"
| "json_elems 0 s = None"
| "json_elems (Suc n) s = (case json_value n s of
       None \<Rightarrow> None
     | Some (v, r) \<Rightarrow> (case skip_ws r of
           [] \<Rightarrow> None
         | c # r' \<Rightarrow>
             if c = CHR '']'' then Some ([v], r')
             else if c = CHR '','' then
               map_option (\<lambda>(vs, r''). (v # vs, r'')) (json_elems n (skip_ws r'))
             else None))"
| "json_members 0 s = None"
| "json_members (Suc n) s = (case s of
       [] \<Rightarrow> None
     | q # s' \<Rightarrow>
         if q \<noteq> CHR 34 then None
         else (case json_str (length s) s' of
             None \<Rightarrow> None
           | Some (k, r) \<Rightarrow> (case skip_ws r of
                 [] \<Rightarrow> None
               | c # r1 \<Rightarrow>
                   if c \<noteq> CHR '':'' then None
                   else (case json_value n (skip_ws r1) of
                       None \<Rightarrow> None
                     | Some (v, r2) \<Rightarrow> (case skip_ws r2 of
                           [] \<Rightarrow> None
                         | d # r3 \<Rightarrow>
                             if d = CHR ''}'' then Some ([(k, v)], r3)
                             else if d = CHR '','' then
                               map_option (\<lambda>(es, r4). ((k, v) # es, r4))
                                 (json_members n (skip_ws r3))
                             else None)))))"

definition json_loads :: "string \<Rightarrow> pyval option" where
  "json_loads s = (case json_value (Suc (length s)) (skip_ws s) of
       None \<Rightarrow> None
     | Some (v, r) \<Rightarrow> if skip_ws r = [] then Some v else None)"

section \<open>Reading back what was written\<close>

text \<open>Dictionaries have distinct keys at every level: the only values Python can hold.\<close>

fun json_wf :: "pyval \<Rightarrow> bool" where
  "json_wf (PList vs) = list_all json_wf vs"
| "json_wf (PDict kvs) = (distinct (map fst kvs) \<and> list_all (\<lambda>(k, v). json_wf v) kvs)"
| "json_wf v = True"

lemma hex_val_digit: "d < 16 \<Longrightarrow> hex_val (hex_digit d) = Some d"
  by (auto simp: hex_val_def hex_digit_def Let_def)

lemma of_char_lt: "(of_char c :: nat) < 256"
  by (metis mod_less_divisor of_char_mod_256 zero_less_numeral)

lemma hex4_hex2: "hex4 (CHR ''0'' # CHR ''0'' # hex2 (of_char c) @ r) = Some (c, r)"
proof -
  let ?n = "of_char c :: nat"
  have "?n div 16 < 16" using of_char_lt [of c] by (simp add: div_less_iff_less_mult)
  moreover have "?n mod 16 < 16" by simp
  ultimately have hv: "hex_val (hex_digit (?n div 16)) = Some (?n div 16)"
      "hex_val (hex_digit (?n mod 16)) = Some (?n mod 16)"
    by (simp_all add: hex_val_digit)
  have h0: "hex_val (CHR ''0'') = Some 0" by (simp add: hex_val_def)
  show ?thesis using of_char_lt [of c] by (simp add: hex2_def hv h0 Let_def)
qed

lemma char_eq_iff_nat: "c = d \<longleftrightarrow> (of_char c :: nat) = of_char d"
  by simp

lemma json_unit_char: "json_unit (json_char a c @ r) = Some (c, r)"
proof -
  consider (esc) "c \<in> {CHR 34, CHR 92, CHR 10, CHR 13, CHR 9, CHR 12, CHR 8}"
    | (other) "c \<notin> {CHR 34, CHR 92, CHR 10, CHR 13, CHR 9, CHR 12, CHR 8}" by blast
  then show ?thesis
  proof cases
    case esc
    then show ?thesis
      by (auto simp: json_char_def json_unit_def simple_escape_def)
  next
    case other
    then have "(of_char c :: nat) \<notin> {34, 92, 10, 13, 9, 12, 8}"
      by (auto simp: char_eq_iff_nat [of c])
    then show ?thesis
      using other by (auto simp: json_char_def json_unit_def Let_def hex4_hex2)
  qed
qed

lemma json_char_start: "\<exists>x y. json_char a c = x # y \<and> x \<noteq> CHR 34"
proof (cases "(of_char c :: nat) = 34")
  case True
  then show ?thesis by (simp add: json_char_def)
next
  case False
  then have "c \<noteq> CHR 34" by auto
  then show ?thesis by (simp add: json_char_def Let_def)
qed

lemma json_str_text:
  "length s < n \<Longrightarrow> json_str n (concat (map (json_char a) s) @ CHR 34 # r) = Some (s, r)"
proof (induction s arbitrary: n)
  case Nil
  then show ?case by (cases n) auto
next
  case (Cons c s)
  obtain m where n: "n = Suc m" and m: "length s < m" using Cons.prems by (cases n) auto
  obtain x y where xy: "json_char a c = x # y" "x \<noteq> CHR 34" using json_char_start by blast
  have "json_unit (x # y @ concat (map (json_char a) s) @ CHR 34 # r)
      = Some (c, concat (map (json_char a) s) @ CHR 34 # r)"
    using json_unit_char [of a c "concat (map (json_char a) s) @ CHR 34 # r"] xy by simp
  then show ?case using xy Cons.IH [OF m] by (simp add: n)
qed

lemma json_string_length: "length s < length (json_string a s)"
proof -
  have "length s \<le> length (concat (map (json_char a) s))"
  proof (induction s)
    case (Cons c s)
    then show ?case using json_char_start [of a c] by auto
  qed simp
  then show ?thesis by (simp add: json_string_def)
qed

lemma json_str_string:
  assumes "length (json_string a s) \<le> n" and "json_string a s @ r = q # t"
  shows "q = CHR 34" and "json_str n t = Some (s, r)"
proof -
  show "q = CHR 34" using assms(2) by (simp add: json_string_def)
  have "t = concat (map (json_char a) s) @ CHR 34 # r"
    using assms(2) unfolding json_string_def by (metis append_Cons append_assoc append_Nil list.sel(3))
  then show "json_str n t = Some (s, r)"
    using json_str_text [of s n a r] json_string_length [of s a] assms(1) by simp
qed

text \<open>What may follow an integer literal without changing how it is read.\<close>

definition closes :: "string \<Rightarrow> bool" where
  "closes r = (r = [] \<or> hd r = CHR '','' \<or> hd r = CHR '']'' \<or> hd r = CHR ''}'' \<or> hd r = CHR 10)"

lemma closes_simps [simp]:
  "closes []" "closes (CHR '','' # r)" "closes (CHR '']'' # r)" "closes (CHR ''}'' # r)" "closes (CHR 10 # r)"
  by (simp_all add: closes_def)

lemma json_nat_str:
  assumes "closes r"
  shows "json_nat (nat_str n @ r) = Some (n, r)"
proof -
  let ?d = "nat_str n"
  have all: "list_all is_digit ?d" by (rule nat_str_digits)
  have stop: "r = [] \<or> \<not> is_digit (hd r)" using assms by (auto simp: closes_def is_digit_def)
  have tw: "takeWhile is_digit (?d @ r) = ?d" "dropWhile is_digit (?d @ r) = r"
    using all stop by (auto simp: list_all_iff takeWhile_append dropWhile_append takeWhile_eq_Nil_iff
        dropWhile_eq_self_iff)
  have "length ?d \<le> 1" if "hd ?d = CHR ''0''"
  proof -
    have "digit_char 0 = CHR ''0''" by code_simp
    with that have "n = 0" by (metis hd_nat_str)
    then show ?thesis by (subst nat_str.simps) simp
  qed
  then have zero: "\<not> (hd ?d = CHR ''0'' \<and> length ?d > 1)" by auto
  have "\<not> (r \<noteq> [] \<and> (hd r = CHR ''.'' \<or> hd r = CHR ''e'' \<or> hd r = CHR ''E''))"
    using assms by (auto simp: closes_def)
  then show ?thesis unfolding json_nat_def tw Let_def using zero by simp
qed

lemma nat_str_hd_digit: "is_digit (hd (nat_str n))"
  by (metis nat_str_digits nat_str_nonempty list.set_sel(1) list_all_iff)

lemma json_number_str: "closes r \<Longrightarrow> json_number (int_str i @ r) = Some (PInt i, r)"
proof -
  assume r: "closes r"
  have "hd (nat_str n) \<noteq> CHR ''-''" for n using nat_str_hd_digit [of n] by (auto simp: is_digit_def)
  then show ?thesis
    using r by (auto simp: json_number_def int_str_def json_nat_str hd_append)
qed

text \<open>The first character of a value's text decides how it is read.\<close>

lemma int_str_start: "\<exists>c s. int_str i = c # s \<and> (c = CHR ''-'' \<or> is_digit c)"
proof -
  have start: "\<exists>c s. nat_str n = c # s \<and> is_digit c" for n
    using nat_str_hd_digit [of n] by (cases "nat_str n") auto
  show ?thesis
  proof (cases "i < 0")
    case True
    then show ?thesis by (simp add: int_str_def)
  next
    case False
    then show ?thesis using start [of "nat i"] by (auto simp: int_str_def)
  qed
qed

lemma digit_not_special:
  "is_digit c \<Longrightarrow> c \<noteq> CHR 34 \<and> c \<noteq> CHR ''['' \<and> c \<noteq> CHR ''{'' \<and> c \<noteq> CHR ''n'' \<and> c \<noteq> CHR ''t''
     \<and> c \<noteq> CHR ''f'' \<and> c \<noteq> CHR '']'' \<and> c \<noteq> CHR ''}'' \<and> \<not> json_ws c"
  by (auto simp: is_digit_def json_ws_def)

lemma json_text_start:
  "\<exists>c s. json_text a v = c # s \<and> \<not> json_ws c \<and> c \<noteq> CHR '']'' \<and> c \<noteq> CHR ''}''"
proof (cases v)
  case (PInt i)
  obtain c s where c: "int_str i = c # s" "c = CHR ''-'' \<or> is_digit c"
    using int_str_start [of i] by blast
  from c(2) have "\<not> json_ws c \<and> c \<noteq> CHR '']'' \<and> c \<noteq> CHR ''}''"
  proof
    assume "c = CHR ''-''"
    then show ?thesis by (simp add: json_ws_def)
  next
    assume "is_digit c"
    then show ?thesis using digit_not_special [of c] by blast
  qed
  with PInt c show ?thesis by simp
next
  case (PList vs)
  then show ?thesis by (cases vs) (simp_all add: json_ws_def)
next
  case (PDict kvs)
  then show ?thesis by (cases kvs) (simp_all add: json_ws_def)
next
  case (PBool b)
  then show ?thesis by (cases b) (simp_all add: json_ws_def)
qed (simp_all add: json_ws_def json_string_def)

lemma skip_ws_text [simp]: "skip_ws (json_text a v @ r) = json_text a v @ r"
  using json_text_start [of a v] by (auto simp: skip_ws_def)

lemma skip_ws_items: "vs \<noteq> [] \<Longrightarrow> skip_ws (json_items a vs @ r) = json_items a vs @ r"
  by (cases vs) simp_all

lemma json_string_start: "\<exists>s'. json_string a k = CHR 34 # s'"
  by (simp add: json_string_def)

lemma skip_ws_entries: "es \<noteq> [] \<Longrightarrow> skip_ws (json_entries a es @ r) = json_entries a es @ r"
  by (cases es) (auto simp: skip_ws_def json_ws_def json_string_def)

lemma skip_ws_punct [simp]:
  "skip_ws (CHR '','' # r) = CHR '','' # r" "skip_ws (CHR '']'' # r) = CHR '']'' # r"
  "skip_ws (CHR ''}'' # r) = CHR ''}'' # r" "skip_ws (CHR '':'' # r) = CHR '':'' # r"
  "skip_ws [] = []"
  by (simp_all add: skip_ws_def json_ws_def)

lemma json_items_start:
  "vs \<noteq> [] \<Longrightarrow> \<exists>c s. json_items a vs = c # s \<and> c \<noteq> CHR '']''"
  using json_text_start [of a "hd vs"] by (cases vs) auto

lemma json_entries_start:
  "es \<noteq> [] \<Longrightarrow> \<exists>c s. json_entries a es = c # s \<and> c \<noteq> CHR ''}''"
  by (cases es) (auto simp: json_string_def)

lemma dict_of_distinct: "distinct (map fst es) \<Longrightarrow> dict_of es = es"
proof -
  have "distinct (map fst d @ map fst es) \<Longrightarrow> foldl (\<lambda>d (k, v). AList.update k v d) d es = d @ es" for d
  proof (induction es arbitrary: d)
    case (Cons e es)
    obtain k v where e: "e = (k, v)" by (cases e)
    have "k \<notin> fst ` set d" using Cons.prems by (auto simp: e)
    then have upd: "AList.update k v d = d @ [(k, v)]" by (induction d) auto
    have "distinct (map fst (d @ [(k, v)]) @ map fst es)" using Cons.prems by (auto simp: e)
    from Cons.IH [OF this] show ?case by (simp add: e upd)
  qed simp
  then show "distinct (map fst es) \<Longrightarrow> dict_of es = es" by (simp add: dict_of_def)
qed

lemma json_word_int: "closes r \<Longrightarrow> json_word (int_str i @ r) = Some (PInt i, r)"
proof -
  assume r: "closes r"
  obtain c s where c: "int_str i = c # s" "c = CHR ''-'' \<or> is_digit c"
    using int_str_start [of i] by blast
  then have "c \<noteq> CHR ''n'' \<and> c \<noteq> CHR ''t'' \<and> c \<noteq> CHR ''f''"
    using digit_not_special [of c] by auto
  with c have "json_word (int_str i @ r) = json_number (int_str i @ r)"
    by (simp add: json_word_def starts_with_def)
  then show ?thesis using r by (simp add: json_number_str)
qed

lemma json_text_length: "json_text a v \<noteq> []"
  using json_text_start [of a v] by auto

theorem json_value_text:
  "json_wf v \<Longrightarrow> closes r \<Longrightarrow> length (json_text a v) \<le> n \<Longrightarrow>
     json_value n (json_text a v @ r) = Some (v, r)"
  "list_all json_wf vs \<Longrightarrow> vs \<noteq> [] \<Longrightarrow> length (json_items a vs) \<le> n \<Longrightarrow>
     json_elems n (json_items a vs @ r) = Some (vs, r)"
  "list_all (\<lambda>(k, v). json_wf v) es \<Longrightarrow> es \<noteq> [] \<Longrightarrow> length (json_entries a es) \<le> n \<Longrightarrow>
     json_members n (json_entries a es @ r) = Some (es, r)"
proof (induction a v and a vs and a es arbitrary: n r and n r and n r
    rule: json_text_json_items_json_entries.induct)
  case (1 a)
  then show ?case by (cases n) (simp_all add: json_word_def starts_with_def)
next
  case (2 a b)
  then show ?case by (cases n; cases b) (simp_all add: json_word_def starts_with_def)
next
  case (3 a i)
  obtain m where n: "n = Suc m" using 3 json_text_length [of a "PInt i"] by (cases n) auto
  obtain c s where c: "int_str i = c # s" "c = CHR ''-'' \<or> is_digit c"
    using int_str_start [of i] by blast
  then have "c \<noteq> CHR 34 \<and> c \<noteq> CHR ''['' \<and> c \<noteq> CHR ''{''"
    using digit_not_special [of c] by auto
  then show ?case using json_word_int [OF "3.prems"(2), of i] c by (simp add: n)
next
  case (4 a s)
  obtain m where n: "n = Suc m" using 4 json_text_length [of a "PStr s"] by (cases n) auto
  obtain t where t: "json_string a s = CHR 34 # t" using json_string_start by blast
  have "json_str (length (CHR 34 # t @ r)) (t @ r) = Some (s, r)"
    using json_str_string(2) [of a s "length (CHR 34 # t @ r)" r "CHR 34" "t @ r"] t by simp
  then show ?case by (simp add: n t)
next
  case (5 a vs)
  obtain m where n: "n = Suc m" using 5 json_text_length [of a "PList vs"] by (cases n) auto
  show ?case
  proof (cases vs)
    case Nil
    then show ?thesis by (simp add: n)
  next
    case (Cons w ws)
    then have ne: "vs \<noteq> []" by simp
    obtain c s where c: "json_items a vs = c # s" "c \<noteq> CHR '']''"
      using json_items_start [OF ne] by blast
    have jt: "json_text a (PList vs) = CHR ''['' # json_items a vs" using Cons by simp
    have "json_elems m (json_items a vs @ r) = Some (vs, r)"
      using 5 ne Cons by (simp add: n)
    then show ?thesis using c skip_ws_items [OF ne, of a r]
      by (simp add: n jt del: json_text.simps json_items.simps)
  qed
next
  case (6 a es)
  obtain m where n: "n = Suc m" using 6 json_text_length [of a "PDict es"] by (cases n) auto
  show ?case
  proof (cases es)
    case Nil
    then show ?thesis by (simp add: n)
  next
    case (Cons e es')
    then have ne: "es \<noteq> []" by simp
    obtain c s where c: "json_entries a es = c # s" "c \<noteq> CHR ''}''"
      using json_entries_start [OF ne] by blast
    have jt: "json_text a (PDict es) = CHR ''{'' # json_entries a es" using Cons by simp
    have "json_members m (json_entries a es @ r) = Some (es, r)"
      using 6 ne Cons by (simp add: n)
    then show ?thesis using c skip_ws_entries [OF ne, of a r] "6.prems"(1)
      by (simp add: n jt dict_of_distinct del: json_text.simps json_entries.simps)
  qed
next
  case (7 a)
  then show ?case by simp
next
  case (8 a v vs)
  obtain m where n: "n = Suc m" using 8 json_text_length [of a v] by (cases n) auto
  show ?case
  proof (cases "vs = []")
    case True
    have "json_value m (json_text a v @ CHR '']'' # r) = Some (v, CHR '']'' # r)"
      using 8 True by (simp add: n)
    then show ?thesis using True by (simp add: n)
  next
    case False
    have v: "json_value m (json_text a v @ CHR '','' # json_items a vs @ r)
        = Some (v, CHR '','' # json_items a vs @ r)"
      using 8 False by (simp add: n)
    have vs: "json_elems m (json_items a vs @ r) = Some (vs, r)"
      using 8 False by (simp add: n)
    show ?thesis using False v vs skip_ws_items [OF False, of a r] by (simp add: n)
  qed
next
  case (9 a)
  then show ?case by simp
next
  case (10 a e es)
  obtain m where n: "n = Suc m" using 10 by (cases n) (auto simp: json_string_def)
  obtain k v where e: "e = (k, v)" by (cases e)
  obtain t where t: "json_string a k = CHR 34 # t" using json_string_start by blast
  have key: "length t < N \<Longrightarrow> json_str N (t @ x) = Some (k, x)" for N x
    using json_str_string(2) [of a k N x "CHR 34" "t @ x"] t by simp
  show ?case
  proof (cases "es = []")
    case True
    have "json_value m (json_text a v @ CHR ''}'' # r) = Some (v, CHR ''}'' # r)"
      using 10 True by (simp add: n e)
    then show ?thesis using True key by (simp add: n e t del: json_str.simps)
  next
    case False
    have v: "json_value m (json_text a v @ CHR '','' # json_entries a es @ r)
        = Some (v, CHR '','' # json_entries a es @ r)"
      using 10 False by (simp add: n e)
    have es: "json_members m (json_entries a es @ r) = Some (es, r)"
      using 10 False by (simp add: n e)
    show ?thesis using False v es key skip_ws_entries [OF False, of a r]
      by (simp add: n e t del: json_str.simps)
  qed
qed

text \<open>Sorting the keys does not change well-formedness, and only permutes the entries.\<close>

lemma map_fst_json_sort: "map fst (map (\<lambda>(k, v). (k, json_sort v)) kvs) = map fst kvs"
  by (induction kvs) auto

lemma json_wf_sort [simp]: "json_wf v \<Longrightarrow> json_wf (json_sort v)"
proof (induction v rule: json_sort.induct)
  case (1 vs)
  then show ?case by (auto simp: list_all_iff)
next
  case (2 kvs)
  let ?es = "map (\<lambda>(k, v). (k, json_sort v)) kvs"
  have "distinct (map fst ?es)" using "2.prems" by (simp only: map_fst_json_sort json_wf.simps)
  then have "distinct (map fst (sort_key fst ?es))"
    by (simp add: distinct_map del: map_map)
  moreover have "\<forall>e \<in> set kvs. json_wf (json_sort (snd e))"
  proof
    fix e assume e: "e \<in> set kvs"
    then have "json_wf (snd e)" using "2.prems" by (auto simp: list_all_iff)
    then show "json_wf (json_sort (snd e))"
      by (rule "2.IH" [OF e prod.collapse [of e]])
  qed
  then have "\<forall>e \<in> set ?es. json_wf (snd e)" by (simp add: split_beta)
  then have "list_all (\<lambda>(k, v). json_wf v) (sort_key fst ?es)"
    by (simp add: list_all_iff split_beta del: set_map)
  ultimately show ?case by (simp only: json_sort.simps json_wf.simps simp_thms)
qed simp_all

theorem json_loads_dumps: "json_wf v \<Longrightarrow> json_loads (json_dumps a v) = Some (json_sort v)"
proof -
  assume "json_wf v"
  then have wf: "json_wf (json_sort v)" by simp
  let ?t = "json_text a (json_sort v)"
  have "json_value (Suc (length ?t)) (?t @ []) = Some (json_sort v, [])"
    by (rule json_value_text(1)) (use wf in simp_all)
  moreover have "skip_ws ?t = ?t" using skip_ws_text [of a "json_sort v" "[]"] by simp
  ultimately show ?thesis by (simp add: json_loads_def json_dumps_def)
qed

lemma json_loads_line: "json_wf v \<Longrightarrow> json_loads (json_dumps a v @ [CHR 10]) = Some (json_sort v)"
proof -
  assume "json_wf v"
  then have wf: "json_wf (json_sort v)" by simp
  let ?t = "json_text a (json_sort v)"
  have "json_value (Suc (length (?t @ [CHR 10]))) (?t @ [CHR 10]) = Some (json_sort v, [CHR 10])"
    by (rule json_value_text(1)) (use wf in simp_all)
  moreover have "skip_ws (?t @ [CHR 10]) = ?t @ [CHR 10]" by (rule skip_ws_text)
  moreover have "skip_ws [CHR 10] = []" by (simp add: skip_ws_def json_ws_def)
  ultimately show ?thesis by (simp add: json_loads_def json_dumps_def del: json_value.simps)
qed

lemma json_sort_list [simp]: "json_sort (PList (map f xs)) = PList (map (json_sort \<circ> f) xs)"
  by simp

text \<open>Sorting twice is sorting once, so the text of a sorted value is the text of the value.\<close>

lemma json_sort_idem [simp]: "json_sort (json_sort v) = json_sort v"
proof (induction v rule: json_sort.induct)
  case (1 vs)
  then show ?case by simp
next
  case (2 kvs)
  let ?g = "\<lambda>(k, v). (k, json_sort v)"
  have ih: "?g (?g e) = ?g e" if "e \<in> set kvs" for e
    using "2.IH" [OF that prod.collapse] by (simp add: case_prod_unfold)
  have g: "fst \<circ> ?g = fst" by (simp add: fun_eq_iff split_beta)
  have "sort_key fst (map ?g (sort_key fst (map ?g kvs))) = map ?g (sort_key fst (map ?g kvs))"
    by (simp only: sort_key_map [of fst ?g "sort_key fst (map ?g kvs)"] g
      sort_key_id_if_sorted [OF sorted_sort_key])
  also have "\<dots> = map (?g \<circ> ?g) (sort_key fst kvs)" by (simp add: sort_key_map g)
  also have "\<dots> = map ?g (sort_key fst kvs)" by (rule map_cong) (use ih in auto)
  also have "\<dots> = sort_key fst (map ?g kvs)" by (simp add: sort_key_map g)
  finally show ?case by (simp only: json_sort.simps)
qed simp_all

lemma json_dumps_sorted: "json_sort v = json_sort w \<Longrightarrow> json_dumps a v = json_dumps a w"
  by (simp add: json_dumps_def)

section \<open>Fields of what is read back\<close>

lemma map_of_map_snd: "map_of (map (\<lambda>(k, v). (k, f v)) xs) k = map_option f (map_of xs k)"
  by (induction xs) auto

lemma map_of_json_sort:
  assumes "distinct (map fst d)" and "json_sort (PDict d) = PDict d'"
  shows "map_of d' k = map_option json_sort (map_of d k)"
proof -
  let ?e = "map (\<lambda>(k, v). (k, json_sort v)) d"
  have "d' = sort_key fst ?e" using assms(2) by simp
  moreover have "distinct (map fst ?e)" using assms(1) by (simp only: map_fst_json_sort)
  ultimately show ?thesis by (simp only: map_of_sort_key map_of_map_snd)
qed

definition sorted_dict :: "pyval dict \<Rightarrow> pyval dict" where
  "sorted_dict d = sort_key fst (map (\<lambda>(k, v). (k, json_sort v)) d)"

lemma json_sort_PDict: "json_sort (PDict d) = PDict (sorted_dict d)"
  by (simp add: sorted_dict_def)

lemma sorted_dict_lookup: "distinct (map fst d) \<Longrightarrow> map_of (sorted_dict d) k = map_option json_sort (map_of d k)"
  by (rule map_of_json_sort [OF _ json_sort_PDict])

lemma sorted_dict_dget: "distinct (map fst d) \<Longrightarrow> dget (sorted_dict d) k = json_sort (dget d k)"
  and sorted_dict_dget_or: "distinct (map fst d) \<Longrightarrow>
    dget_or (sorted_dict d) k x = (if map_of d k = None then x else json_sort (dget d k))"
  by (auto simp: dget_def dget_or_def sorted_dict_lookup split: option.splits)

lemma sorted_dict_keys: "fst ` set (sorted_dict d) = fst ` set d"
  by (force simp: sorted_dict_def)

lemma json_sort_dict:
  assumes "json_wf (PDict d)"
  obtains d' where "json_sort (PDict d) = PDict d'" and "json_wf (PDict d')"
    and "\<And>k. map_of d' k = map_option json_sort (map_of d k)"
proof -
  obtain d' where d': "json_sort (PDict d) = PDict d'" by simp
  have "json_wf (PDict d')" using json_wf_sort [OF assms] d' by simp
  then show ?thesis using that [OF d'] map_of_json_sort [OF _ d'] assms by auto
qed

lemma json_wf_lookup: "json_wf (PDict d) \<Longrightarrow> map_of d k = Some v \<Longrightarrow> json_wf v"
  by (auto simp: list_all_iff dest!: map_of_SomeD)

lemma json_wf_dget: "json_wf (PDict d) \<Longrightarrow> json_wf (dget d k)"
  using json_wf_lookup by (auto simp: dget_def split: option.split)

lemma json_wf_update: "json_wf (PDict d) \<Longrightarrow> json_wf v \<Longrightarrow> json_wf (PDict (AList.update k v d))"
proof -
  have "list_all (\<lambda>(k, v). json_wf v) d \<Longrightarrow> json_wf v \<Longrightarrow>
      list_all (\<lambda>(k, v). json_wf v) (AList.update k v d)" for d :: "pyval dict"
    by (induction d) auto
  then show "json_wf (PDict d) \<Longrightarrow> json_wf v \<Longrightarrow> json_wf (PDict (AList.update k v d))" by simp
qed

text \<open>Whatever the text, what is read from it has distinct keys at every level.\<close>

lemma json_wf_dict_of: "list_all (\<lambda>(k, v). json_wf v) es \<Longrightarrow> json_wf (PDict (dict_of es))"
proof -
  have "json_wf (PDict d) \<Longrightarrow> list_all (\<lambda>(k, v). json_wf v) es \<Longrightarrow>
      json_wf (PDict (foldl (\<lambda>d (k, v). AList.update k v d) d es))" for d
  proof (induction es arbitrary: d)
    case (Cons e es)
    obtain k v where e: "e = (k, v)" by (cases e)
    have upd: "list_all (\<lambda>(k, v). json_wf v) (AList.update k v d)"
      if "list_all (\<lambda>(k, v). json_wf v) d" "json_wf v" for d :: "pyval dict"
      using that by (induction d) auto
    have "json_wf (PDict (AList.update k v d))"
      using Cons.prems upd [of d] by (simp add: e)
    then show ?case using Cons.IH [of "AList.update k v d"] Cons.prems(2) by (simp add: e)
  qed simp
  from this [of "[]"] show "list_all (\<lambda>(k, v). json_wf v) es \<Longrightarrow> json_wf (PDict (dict_of es))"
    by (simp add: dict_of_def)
qed

lemma json_number_wf: "json_number s = Some (v, r) \<Longrightarrow> json_wf v"
  by (auto simp: json_number_def split: if_splits option.splits list.splits)

lemma json_word_wf: "json_word s = Some (v, r) \<Longrightarrow> json_wf v"
  using json_number_wf [of s v r] by (auto simp: json_word_def split: if_splits)

lemma json_value_wf:
  "json_value n s = Some (v, r) \<Longrightarrow> json_wf v"
  "json_elems n s = Some (vs, r) \<Longrightarrow> list_all json_wf vs"
  "json_members n s = Some (es, r) \<Longrightarrow> list_all (\<lambda>(k, v). json_wf v) es"
proof (induction n s and n s and n s arbitrary: v r and vs r and es r
    rule: json_value_json_elems_json_members.induct)
  case (2 n s)
  show ?case
    using "2.prems" "2.IH" json_word_wf [of s v r] json_wf_dict_of
    by (auto split: list.splits if_splits simp del: json_wf.simps(2)) auto
next
  case (4 n s)
  then show ?case by (auto split: option.splits list.splits if_splits)
next
  case (6 n s)
  then show ?case by (auto split: option.splits list.splits if_splits)
qed simp_all

lemma json_loads_wf:
  assumes "json_loads s = Some v"
  shows "json_wf v"
proof -
  obtain r where "json_value (Suc (length s)) (skip_ws s) = Some (v, r)"
    using assms unfolding json_loads_def by (auto simp del: json_value.simps split: option.splits if_splits)
  then show ?thesis by (rule json_value_wf(1))
qed

end
