(* ===== verification/DependencyCheck.thy ===== *)
theory DependencyCheck
  imports PyPrelude
begin

text \<open>
  The depth-first search with three colours that \<^verbatim>\<open>agent/runtime/mission_queue.py\<close>
  (\<open>_validate_no_cycles\<close>) runs over the missions before every save, and its correctness: it
  always finishes, it accepts exactly the acyclic graphs, and what it reports is a cycle.
\<close>

section \<open>The search\<close>

datatype colour = White | Gray | Black

text \<open>
  The depth-first search of \<open>_validate_no_cycles\<close>, with the colours passed explicitly.
  \<open>Inl p\<close> is the cycle the code reports (the stack and the gray node it met), \<open>Inr\<close> the
  colours at the end; \<open>None\<close> is fuel exhausted, which \<open>dfs_fuel_enough\<close> excludes.
\<close>

fun dfs :: "nat \<Rightarrow> (string \<Rightarrow> string list) \<Rightarrow> string \<Rightarrow> string list \<Rightarrow> (string \<Rightarrow> colour)
      \<Rightarrow> (string list + (string \<Rightarrow> colour)) option" and
    dfs_succs :: "nat \<Rightarrow> (string \<Rightarrow> string list) \<Rightarrow> string list \<Rightarrow> string list
      \<Rightarrow> (string \<Rightarrow> colour) \<Rightarrow> (string list + (string \<Rightarrow> colour)) option" where
  "dfs 0 g u st col = None"
| "dfs (Suc n) g u st col =
     (case dfs_succs n g (g u) st (col(u := Gray)) of
        Some (Inr col') \<Rightarrow> Some (Inr (col'(u := Black)))
      | r \<Rightarrow> r)"
| "dfs_succs n g [] st col = Some (Inr col)"
| "dfs_succs n g (v # vs) st col =
     (case col v of
        White \<Rightarrow> (case dfs n g v (st @ [v]) col of
                     Some (Inr col') \<Rightarrow> dfs_succs n g vs st col'
                   | r \<Rightarrow> r)
      | Gray \<Rightarrow> Some (Inl (st @ [v]))
      | Black \<Rightarrow> dfs_succs n g vs st col)"

fun dfs_roots :: "nat \<Rightarrow> (string \<Rightarrow> string list) \<Rightarrow> string list \<Rightarrow> (string \<Rightarrow> colour)
      \<Rightarrow> (string list + (string \<Rightarrow> colour)) option" where
  "dfs_roots n g [] col = Some (Inr col)"
| "dfs_roots n g (u # us) col =
     (if col u = White then
        (case dfs n g u [u] col of
           Some (Inr col') \<Rightarrow> dfs_roots n g us col'
         | r \<Rightarrow> r)
      else dfs_roots n g us col)"


section \<open>What the search keeps\<close>

definition edges :: "(string \<Rightarrow> string list) \<Rightarrow> (string \<times> string) set" where
  "edges g = {(u, v). v \<in> set (g u)}"

text \<open>Gray nodes are left gray, black nodes black: the search only paints white nodes.\<close>

definition keeps :: "(string \<Rightarrow> colour) \<Rightarrow> (string \<Rightarrow> colour) \<Rightarrow> bool" where
  "keeps col col' \<longleftrightarrow> (\<forall>x. (col' x = Gray) = (col x = Gray)) \<and> (\<forall>x. col x = Black \<longrightarrow> col' x = Black)"

lemma keeps_refl [simp]: "keeps col col"
  by (simp add: keeps_def)

lemma keeps_trans: "keeps a b \<Longrightarrow> keeps b c \<Longrightarrow> keeps a c"
  by (auto simp: keeps_def)

lemma keeps_gray: "keeps a b \<Longrightarrow> (b x = Gray) = (a x = Gray)"
  and keeps_black: "keeps a b \<Longrightarrow> a x = Black \<Longrightarrow> b x = Black"
  by (auto simp: keeps_def)

lemma keeps_white: "keeps a b \<Longrightarrow> b x = White \<Longrightarrow> a x = White"
  using keeps_gray [of a b x] keeps_black [of a b x] by (cases "a x") auto

lemma keeps_paint:
  "col u = White \<Longrightarrow> keeps (col(u := Gray)) col' \<Longrightarrow> keeps col (col'(u := Black))"
  by (auto simp: keeps_def split: if_splits)

lemma dfs_keeps:
  "dfs n g u st col = Some (Inr col') \<Longrightarrow> col u = White \<Longrightarrow> keeps col col' \<and> col' u = Black"
  "dfs_succs n g vs st col = Some (Inr col') \<Longrightarrow> keeps col col'"
proof (induction n g u st col and n g vs st col arbitrary: col' and col' rule: dfs_dfs_succs.induct)
  case (2 n g u st col)
  then obtain c where c: "dfs_succs n g (g u) st (col(u := Gray)) = Some (Inr c)"
      "col' = c(u := Black)"
    by (auto split: option.splits sum.splits)
  have "keeps (col(u := Gray)) c" by (rule "2.IH" [OF c(1)])
  then show ?case using "2.prems"(2) unfolding c(2) by (intro conjI keeps_paint) simp_all
next
  case (4 n g v vs st col)
  then show ?case
    by (cases "col v") (auto split: option.splits sum.splits intro: keeps_trans)
qed auto

text \<open>The successors of a black node are black, and no cycle runs through black nodes.\<close>

definition black_closed :: "(string \<Rightarrow> string list) \<Rightarrow> (string \<Rightarrow> colour) \<Rightarrow> bool" where
  "black_closed g col \<longleftrightarrow> (\<forall>x. col x = Black \<longrightarrow> (\<forall>y \<in> set (g x). col y = Black))"

definition black_edges :: "(string \<Rightarrow> string list) \<Rightarrow> (string \<Rightarrow> colour) \<Rightarrow> (string \<times> string) set" where
  "black_edges g col = {(x, y). col x = Black \<and> y \<in> set (g x)}"

lemma acyclic_add_source:
  assumes "acyclic R" and "\<And>x. (x, u) \<notin> R" and "u \<notin> S"
  shows "acyclic (R \<union> {u} \<times> S)"
proof -
  let ?R' = "R \<union> {u} \<times> S"
  have step: "(x, y) \<in> ?R'\<^sup>+ \<Longrightarrow> y \<noteq> u \<and> (x = u \<or> (x, y) \<in> R\<^sup>+)" for x y
  proof (induction rule: trancl_induct)
    case (base y)
    then show ?case using assms(2,3) by auto
  next
    case (step y z)
    then show ?case using assms(2,3) by (auto intro: trancl_into_trancl)
  qed
  show ?thesis
    unfolding acyclic_def
  proof
    fix x
    show "(x, x) \<notin> ?R'\<^sup>+" using step [of x x] assms(1) by (auto simp: acyclic_def)
  qed
qed

definition safe_black :: "(string \<Rightarrow> string list) \<Rightarrow> (string \<Rightarrow> colour) \<Rightarrow> bool" where
  "safe_black g col \<longleftrightarrow> black_closed g col \<and> acyclic (black_edges g col)"

lemma safe_black_gray: "col u = White \<Longrightarrow> safe_black g (col(u := Gray)) = safe_black g col"
proof -
  assume "col u = White"
  then have "((col(u := Gray)) x = Black) = (col x = Black)" for x by auto
  then show ?thesis unfolding safe_black_def black_closed_def black_edges_def by presburger
qed

lemma safe_black_paint:
  assumes "safe_black g col" and "col u = Gray" and "\<forall>v \<in> set (g u). col v = Black"
  shows "safe_black g (col(u := Black))"
proof -
  have no_in: "(x, u) \<notin> black_edges g col" for x
    using assms by (auto simp: safe_black_def black_closed_def black_edges_def)
  have "u \<notin> set (g u)" using assms(2,3) by auto
  moreover have "black_edges g (col(u := Black)) = black_edges g col \<union> {u} \<times> set (g u)"
    using assms(2) by (auto simp: black_edges_def split: if_splits)
  ultimately have "acyclic (black_edges g (col(u := Black)))"
    using acyclic_add_source [OF _ no_in] assms(1) by (simp add: safe_black_def)
  moreover have "black_closed g (col(u := Black))"
    using assms by (auto simp: safe_black_def black_closed_def split: if_splits)
  ultimately show ?thesis by (simp add: safe_black_def)
qed

lemma dfs_safe:
  "dfs n g u st col = Some (Inr col') \<Longrightarrow> col u = White \<Longrightarrow> safe_black g col \<Longrightarrow> safe_black g col'"
  "dfs_succs n g vs st col = Some (Inr col') \<Longrightarrow> safe_black g col \<Longrightarrow>
     safe_black g col' \<and> (\<forall>v \<in> set vs. col' v = Black)"
proof (induction n g u st col and n g vs st col arbitrary: col' and col' rule: dfs_dfs_succs.induct)
  case (2 n g u st col)
  then obtain c where c: "dfs_succs n g (g u) st (col(u := Gray)) = Some (Inr c)"
      "col' = c(u := Black)"
    by (auto split: option.splits sum.splits)
  have "c u = Gray" using dfs_keeps(2) [OF c(1)] by (simp add: keeps_def)
  moreover have "safe_black g c \<and> (\<forall>v \<in> set (g u). c v = Black)"
    by (rule "2.IH" [OF c(1)]) (use "2.prems" safe_black_gray in blast)
  ultimately show ?case unfolding c(2) by (intro safe_black_paint) auto
next
  case (4 n g v vs st col)
  show ?case
  proof (cases "col v")
    case White
    then obtain c where c: "dfs n g v (st @ [v]) col = Some (Inr c)"
        "dfs_succs n g vs st c = Some (Inr col')"
      using "4.prems" by (auto split: option.splits sum.splits)
    have "c v = Black" using dfs_keeps(1) [OF c(1) White] by simp
    then have "col' v = Black" using dfs_keeps(2) [OF c(2)] by (simp add: keeps_def)
    moreover have "safe_black g c" using 4 White c by simp
    ultimately show ?thesis using 4 White c by auto
  next
    case Gray
    then show ?thesis using "4.prems" by simp
  next
    case Black
    then have r: "dfs_succs n g vs st col = Some (Inr col')" using "4.prems" by simp
    then have "col' v = Black" using dfs_keeps(2) [OF r] Black by (simp add: keeps_def)
    then show ?thesis using 4 Black r by auto
  qed
qed auto

section \<open>A reported path is a cycle\<close>

definition walk :: "(string \<Rightarrow> string list) \<Rightarrow> string list \<Rightarrow> bool" where
  "walk g p \<longleftrightarrow> successively (\<lambda>x y. y \<in> set (g x)) p"

definition closes_cycle :: "(string \<Rightarrow> string list) \<Rightarrow> string list \<Rightarrow> bool" where
  "closes_cycle g p \<longleftrightarrow> walk g p \<and> p \<noteq> [] \<and> last p \<in> set (butlast p)"

lemma walk_snoc: "p \<noteq> [] \<Longrightarrow> walk g (p @ [v]) \<longleftrightarrow> walk g p \<and> v \<in> set (g (last p))"
  by (auto simp: walk_def successively_append_iff)

lemma walk_rtrancl: "walk g (x # p) \<Longrightarrow> (x, last (x # p)) \<in> (edges g)\<^sup>*"
proof (induction p arbitrary: x)
  case (Cons y p)
  then have "(x, y) \<in> edges g" "walk g (y # p)" by (auto simp: walk_def edges_def)
  with Cons.IH [of y] show ?case by (auto intro: converse_rtrancl_into_rtrancl)
qed simp

lemma closes_cycle_not_acyclic:
  assumes "closes_cycle g p"
  shows "\<not> acyclic (edges g)"
proof -
  obtain q v where p: "p = q @ [v]" and v: "v \<in> set q"
    using assms by (cases p rule: rev_cases) (auto simp: closes_cycle_def)
  obtain a b where q: "q = a @ v # b" using v by (auto dest: split_list)
  have "walk g (q @ [v])" using assms by (simp add: closes_cycle_def p)
  then have "walk g q \<and> v \<in> set (g (last q))" by (rule walk_snoc [THEN iffD1, rotated]) (simp add: q)
  then have w: "walk g (v # b)" and e: "(last q, v) \<in> edges g"
    by (auto simp: q walk_def successively_append_iff edges_def)
  have "(v, last q) \<in> (edges g)\<^sup>*" using walk_rtrancl [OF w] by (simp add: q)
  then have "(v, v) \<in> (edges g)\<^sup>+" using e by (rule rtrancl_into_trancl1)
  then show ?thesis by (auto simp: acyclic_def)
qed

lemma dfs_reports:
  "dfs n g u st col = Some (Inl p) \<Longrightarrow> st \<noteq> [] \<Longrightarrow> last st = u \<Longrightarrow> walk g st \<Longrightarrow> col u = White \<Longrightarrow>
     (\<forall>x. (col x = Gray) = (x \<in> set (butlast st))) \<Longrightarrow> closes_cycle g p"
  "dfs_succs n g vs st col = Some (Inl p) \<Longrightarrow> st \<noteq> [] \<Longrightarrow> walk g st \<Longrightarrow>
     set vs \<subseteq> set (g (last st)) \<Longrightarrow> (\<forall>x. (col x = Gray) = (x \<in> set st)) \<Longrightarrow> closes_cycle g p"
proof (induction n g u st col and n g vs st col rule: dfs_dfs_succs.induct)
  case (2 n g u st col)
  then have r: "dfs_succs n g (g u) st (col(u := Gray)) = Some (Inl p)"
    by (auto split: option.splits sum.splits)
  have "set st = insert u (set (butlast st))"
    using "2.prems"(2,3) by (metis append_butlast_last_id list.simps(15) rotate1.simps(2) set_rotate1)
  then have g: "\<forall>x. ((col(u := Gray)) x = Gray) = (x \<in> set st)" using "2.prems"(6) by auto
  show ?case by (rule "2.IH" [OF r _ _ _ g]) (use "2.prems" in auto)
next
  case (4 n g v vs st col)
  show ?case
  proof (cases "col v")
    case White
    then consider (down) "dfs n g v (st @ [v]) col = Some (Inl p)"
      | (on) c where "dfs n g v (st @ [v]) col = Some (Inr c)" "dfs_succs n g vs st c = Some (Inl p)"
      using "4.prems"(1) by (auto split: option.splits sum.splits)
    then show ?thesis
    proof cases
      case down
      then show ?thesis using 4 White by (simp add: walk_snoc)
    next
      case on
      have "keeps col c" using dfs_keeps(1) [OF on(1) White] by simp
      then have "\<forall>x. (c x = Gray) = (x \<in> set st)" using "4.prems"(5) by (simp add: keeps_def)
      then show ?thesis using 4 White on by simp
    qed
  next
    case Gray
    then have "p = st @ [v]" using "4.prems"(1) by simp
    moreover have "v \<in> set st" using Gray "4.prems"(5) by blast
    ultimately show ?thesis using "4.prems" by (simp add: closes_cycle_def walk_snoc)
  next
    case Black
    then show ?thesis using 4 by simp
  qed
qed auto

section \<open>The fuel is enough\<close>

definition whites :: "string set \<Rightarrow> (string \<Rightarrow> colour) \<Rightarrow> nat" where
  "whites N col = card {x \<in> N. col x = White}"

lemma whites_gray:
  assumes "finite N" "u \<in> N" "col u = White" "whites N col \<le> Suc n"
  shows "whites N (col(u := Gray)) \<le> n"
proof -
  have "{x \<in> N. (col(u := Gray)) x = White} = {x \<in> N. col x = White} - {u}" by auto
  then show ?thesis using assms by (simp add: whites_def)
qed

lemma whites_keeps: "finite N \<Longrightarrow> keeps col col' \<Longrightarrow> whites N col' \<le> whites N col"
  unfolding whites_def
proof (rule card_mono)
  assume k: "keeps col col'"
  show "{x \<in> N. col' x = White} \<subseteq> {x \<in> N. col x = White}" using keeps_white [OF k] by auto
qed simp

lemma dfs_fuel_enough:
  "finite N \<Longrightarrow> (\<forall>x \<in> N. set (g x) \<subseteq> N) \<Longrightarrow> u \<in> N \<Longrightarrow> col u = White \<Longrightarrow> whites N col \<le> n \<Longrightarrow>
     dfs n g u st col \<noteq> None"
  "finite N \<Longrightarrow> (\<forall>x \<in> N. set (g x) \<subseteq> N) \<Longrightarrow> set vs \<subseteq> N \<Longrightarrow> whites N col \<le> n \<Longrightarrow>
     dfs_succs n g vs st col \<noteq> None"
proof (induction n g u st col and n g vs st col rule: dfs_dfs_succs.induct)
  case (1 g u st col)
  then have "{x \<in> N. col x = White} \<noteq> {}" "finite {x \<in> N. col x = White}" by auto
  then have "whites N col \<noteq> 0" unfolding whites_def by simp
  then show ?case using "1.prems" by simp
next
  case (2 n g u st col)
  then have w: "whites N (col(u := Gray)) \<le> n" by (intro whites_gray) auto
  have "dfs_succs n g (g u) st (col(u := Gray)) \<noteq> None"
    by (rule "2.IH" [OF _ _ _ w]) (use "2.prems" in auto)
  then show ?case by (auto split: option.splits sum.splits)
next
  case (3 n g st col)
  then show ?case by simp
next
  case (4 n g v vs st col)
  show ?case
  proof (cases "col v")
    case White
    have ok: "dfs n g v (st @ [v]) col \<noteq> None" using 4 White by simp
    have "dfs_succs n g vs st c \<noteq> None" if c: "dfs n g v (st @ [v]) col = Some (Inr c)" for c
      using 4 White c whites_keeps [of N col c] dfs_keeps(1) [OF c White] by simp
    then show ?thesis using ok White by (auto split: option.splits sum.splits)
  qed (use 4 in simp_all)
qed

section \<open>The whole check\<close>

lemma dfs_roots_Inr:
  "dfs_roots n g us col = Some (Inr col') \<Longrightarrow> safe_black g col \<Longrightarrow> (\<forall>x. col x \<noteq> Gray) \<Longrightarrow>
     safe_black g col' \<and> keeps col col' \<and> (\<forall>u \<in> set us. col' u = Black)"
proof (induction us arbitrary: col)
  case (Cons u us)
  show ?case
  proof (cases "col u = White")
    case True
    then obtain c where c: "dfs n g u [u] col = Some (Inr c)" "dfs_roots n g us c = Some (Inr col')"
      using Cons.prems(1) by (auto split: option.splits sum.splits)
    have k: "keeps col c" "c u = Black" using dfs_keeps(1) [OF c(1) True] by auto
    have s: "safe_black g c" using dfs_safe(1) [OF c(1) True] Cons.prems(2) by simp
    have ng: "\<forall>x. c x \<noteq> Gray" using keeps_gray [OF k(1)] Cons.prems(3) by simp
    have r: "safe_black g col'" "keeps c col'" "\<forall>u \<in> set us. col' u = Black"
      using Cons.IH [OF c(2) s ng] by auto
    show ?thesis using r keeps_trans [OF k(1) r(2)] keeps_black [OF r(2) k(2)] by simp
  next
    case False
    then have b: "col u = Black" using Cons.prems(3) by (cases "col u") auto
    have r: "safe_black g col'" "keeps col col'" "\<forall>u \<in> set us. col' u = Black"
      using Cons False by auto
    show ?thesis using r keeps_black [OF r(2) b] by simp
  qed
qed simp

lemma dfs_roots_Inl:
  "dfs_roots n g us col = Some (Inl p) \<Longrightarrow> (\<forall>x. col x \<noteq> Gray) \<Longrightarrow> closes_cycle g p"
proof (induction us arbitrary: col)
  case (Cons u us)
  show ?case
  proof (cases "col u = White")
    case True
    then consider (down) "dfs n g u [u] col = Some (Inl p)"
      | (on) c where "dfs n g u [u] col = Some (Inr c)" "dfs_roots n g us c = Some (Inl p)"
      using Cons.prems(1) by (auto split: option.splits sum.splits)
    then show ?thesis
    proof cases
      case down
      then show ?thesis using dfs_reports(1) [OF down] True Cons.prems(2) by (simp add: walk_def)
    next
      case on
      then show ?thesis
        using Cons.IH [OF on(2)] dfs_keeps(1) [OF on(1) True] Cons.prems(2) by (simp add: keeps_def)
    qed
  qed (use Cons in simp)
qed simp

lemma dfs_roots_fuel:
  "finite N \<Longrightarrow> (\<forall>x \<in> N. set (g x) \<subseteq> N) \<Longrightarrow> set us \<subseteq> N \<Longrightarrow> whites N col \<le> n \<Longrightarrow>
     dfs_roots n g us col \<noteq> None"
proof (induction us arbitrary: col)
  case (Cons u us)
  show ?case
  proof (cases "col u = White")
    case True
    have ok: "dfs n g u [u] col \<noteq> None" using Cons.prems True by (intro dfs_fuel_enough(1)) auto
    have "dfs_roots n g us c \<noteq> None" if c: "dfs n g u [u] col = Some (Inr c)" for c
      using Cons.IH [of c] Cons.prems whites_keeps [of N col c] dfs_keeps(1) [OF c True] by simp
    then show ?thesis using ok True by (auto split: option.splits sum.splits)
  qed (use Cons in simp)
qed simp

lemma dfs_roots_accepts:
  assumes "dfs_roots n g us (\<lambda>_. White) = Some (Inr col')" and "\<And>x. x \<notin> set us \<Longrightarrow> g x = []"
  shows "acyclic (edges g)"
proof -
  have "safe_black g (\<lambda>_. White)"
    by (simp add: safe_black_def black_closed_def black_edges_def acyclic_def)
  then have s: "safe_black g col'" "\<forall>u \<in> set us. col' u = Black"
    using dfs_roots_Inr [OF assms(1)] by auto
  have "edges g \<subseteq> black_edges g col'"
    using s(2) assms(2) by (fastforce simp: edges_def black_edges_def)
  then show ?thesis using s(1) by (auto simp: safe_black_def intro: acyclic_subset)
qed

end
