(* ===== verification/MissionQueue.thy ===== *)
theory MissionQueue
  imports PyJson DependencyCheck
begin

text \<open>
  \<^verbatim>\<open>agent/runtime/mission_queue.py\<close>: the persistent mission queue.  A queue value is what
  \<open>_load\<close> builds in memory; the file holds its JSON text.  Every public method takes the file
  lock, reloads, changes the missions, validates the dependency graph and saves, so one
  method call is one atomic step from file to file: the functions \<open>mq_*\<close> are the bodies on
  the loaded queue, \<open>locked\<close> and \<open>claim_file\<close> wrap them in load and save.
\<close>

section \<open>Data\<close>

datatype mission_state =
  Pending | Running | Retrying | Completed | Failed | Blocked | Cancelled

record mission =
  m_id :: string
  m_priority :: int
  m_deps :: "string list"
  m_state :: mission_state
  m_seq :: int
  m_attempts :: int
  m_retries :: int

record queue =
  missions :: "mission dict"
  next_seq :: int

datatype queue_error =
    DuplicateId string
  | UnknownMission string
  | DequeueRunning
  | DequeueDependency
  | CompleteNotRunning
  | FailNotRunning
  | RetryNotFailed
  | NoRetryLeft
  | BlockBadState
  | CancelTerminal
  | ResumeBadState
  | SelfDependency string
  | CircularDependency "string list"
  | NotJson
  | RootNotObject
  | UnsupportedVersion
  | MissionsNotMapping
  | InvalidEntry
  | IdMismatch
  | DuplicateEntry
  | InvalidMissionState
  | BadDependencies
  | MissingField string
  | BadNumber conv_error

fun state_value :: "mission_state \<Rightarrow> string" where
  "state_value Pending = ''pending''"
| "state_value Running = ''running''"
| "state_value Retrying = ''retrying''"
| "state_value Completed = ''completed''"
| "state_value Failed = ''failed''"
| "state_value Blocked = ''blocked''"
| "state_value Cancelled = ''cancelled''"

definition state_of_value :: "string \<Rightarrow> mission_state option" where
  "state_of_value s = List.find (\<lambda>st. state_value st = s)
     [Pending, Running, Retrying, Completed, Failed, Blocked, Cancelled]"

definition to_dict :: "mission \<Rightarrow> pyval dict" where
  "to_dict m =
     [(''id'', PStr (m_id m)),
      (''priority'', PInt (m_priority m)),
      (''dependencies'', PList (map PStr (sort (m_deps m)))),
      (''state'', PStr (state_value (m_state m))),
      (''created_seq'', PInt (m_seq m)),
      (''attempts_done'', PInt (m_attempts m)),
      (''max_retries'', PInt (m_retries m))]"

definition required :: "pyval dict \<Rightarrow> string \<Rightarrow> queue_error + pyval" where
  "required d k = (case map_of d k of None \<Rightarrow> Inl (MissingField k) | Some v \<Rightarrow> Inr v)"

definition number :: "pyval \<Rightarrow> queue_error + int" where
  "number v = (case py_int v of Inl e \<Rightarrow> Inl (BadNumber e) | Inr i \<Rightarrow> Inr i)"

definition str_of :: "pyval \<Rightarrow> string" where
  "str_of v = (case v of PStr s \<Rightarrow> s | _ \<Rightarrow> [])"

definition from_dict :: "pyval dict \<Rightarrow> queue_error + mission" where
  "from_dict d =
     (case map_option (\<lambda>v. state_of_value (py_str v)) (map_of d ''state'') of
        Some (Some st) \<Rightarrow>
          (case dget_or d ''dependencies'' (PList []) of
             PList vs \<Rightarrow>
               if list_all is_str vs then
                 ebind (required d ''id'') (\<lambda>i.
                 ebind (ebind (required d ''priority'') number) (\<lambda>p.
                 ebind (number (dget_or d ''created_seq'' (PInt 0))) (\<lambda>c.
                 ebind (number (dget_or d ''attempts_done'' (PInt 0))) (\<lambda>a.
                 ebind (number (dget_or d ''max_retries'' (PInt 0))) (\<lambda>r.
                   Inr \<lparr>m_id = py_str i, m_priority = p, m_deps = map str_of vs,
                        m_state = st, m_seq = c, m_attempts = a, m_retries = r\<rparr>)))))
               else Inl BadDependencies
           | _ \<Rightarrow> Inl BadDependencies)
      | _ \<Rightarrow> Inl InvalidMissionState)"

section \<open>The dependency check\<close>

definition known_deps :: "mission dict \<Rightarrow> string \<Rightarrow> string list" where
  "known_deps ms u = (case map_of ms u of
       None \<Rightarrow> []
     | Some m \<Rightarrow> sort (filter (\<lambda>d. d \<in> fst ` set ms) (m_deps m)))"

definition validate_no_cycles :: "mission dict \<Rightarrow> queue_error + unit" where
  "validate_no_cycles ms =
     (case List.find (\<lambda>(k, m). k \<in> set (m_deps m)) ms of
        Some (k, m) \<Rightarrow> Inl (SelfDependency k)
      | None \<Rightarrow>
          (case dfs_roots (length ms) (known_deps ms) (sort (map fst ms)) (\<lambda>_. White) of
             Some (Inr _) \<Rightarrow> Inr ()
           | Some (Inl p) \<Rightarrow> Inl (CircularDependency p)
           | None \<Rightarrow> Inl (CircularDependency [])))"

section \<open>Persistence\<close>

type_synonym disk = "string option"

definition serialize_state :: "queue \<Rightarrow> pyval" where
  "serialize_state q = PDict
     [(''version'', PInt 1),
      (''next_seq'', PInt (next_seq q)),
      (''missions'', PDict (map (\<lambda>(k, m). (k, PDict (to_dict m))) (sort_key fst (missions q))))]"

definition save_queue :: "queue \<Rightarrow> disk" where
  "save_queue q = Some (json_dumps True (serialize_state q))"

definition load_entry :: "mission dict \<Rightarrow> string \<times> pyval \<Rightarrow> queue_error + mission dict" where
  "load_entry ms e = (case snd e of
       PDict md \<Rightarrow>
         ebind (from_dict md) (\<lambda>m.
           if m_id m \<noteq> fst e then Inl IdMismatch
           else if fst e \<in> fst ` set ms then Inl DuplicateEntry
           else Inr (AList.update (fst e) m ms))
     | _ \<Rightarrow> Inl InvalidEntry)"

fun load_entries :: "mission dict \<Rightarrow> (string \<times> pyval) list \<Rightarrow> queue_error + mission dict" where
  "load_entries ms [] = Inr ms"
| "load_entries ms (e # es) = ebind (load_entry ms e) (\<lambda>ms'. load_entries ms' es)"

definition load_raw :: "pyval \<Rightarrow> queue_error + queue" where
  "load_raw raw = (case raw of
       PDict d \<Rightarrow>
         ebind (number (dget_or d ''version'' (PInt 1))) (\<lambda>version.
         if version \<noteq> 1 then Inl UnsupportedVersion
         else ebind (number (dget_or d ''next_seq'' (PInt 1))) (\<lambda>ns.
           (case dget_or d ''missions'' (PDict []) of
              PDict es \<Rightarrow>
                ebind (load_entries [] es) (\<lambda>ms.
                ebind (validate_no_cycles ms) (\<lambda>_.
                  Inr \<lparr>missions = ms, next_seq = max 1 ns\<rparr>))
            | _ \<Rightarrow> Inl MissionsNotMapping)))
     | _ \<Rightarrow> Inl RootNotObject)"

definition load_queue :: "disk \<Rightarrow> queue_error + queue" where
  "load_queue d = (case d of
       None \<Rightarrow> Inr \<lparr>missions = [], next_seq = 1\<rparr>
     | Some txt \<Rightarrow> (case json_loads txt of
           None \<Rightarrow> Inl NotJson
         | Some raw \<Rightarrow> load_raw raw))"

section \<open>Operations on the loaded queue\<close>

definition get_mission :: "string \<Rightarrow> queue \<Rightarrow> queue_error + mission" where
  "get_mission i q = (case map_of (missions q) i of
       None \<Rightarrow> Inl (UnknownMission i) | Some m \<Rightarrow> Inr m)"

definition put_mission :: "string \<Rightarrow> mission \<Rightarrow> queue \<Rightarrow> queue" where
  "put_mission i m q = q\<lparr>missions := AList.update i m (missions q)\<rparr>"

definition validated :: "queue \<Rightarrow> queue_error + queue" where
  "validated q = ebind (validate_no_cycles (missions q)) (\<lambda>_. Inr q)"

definition mq_enqueue ::
    "int \<Rightarrow> string \<Rightarrow> int \<Rightarrow> string list \<Rightarrow> int option \<Rightarrow> queue \<Rightarrow> queue_error + queue" where
  "mq_enqueue dflt i prio deps retries q =
     (if i \<in> fst ` set (missions q) then Inl (DuplicateId i)
      else validated (put_mission i
        \<lparr>m_id = i, m_priority = prio, m_deps = sort (dedup deps), m_state = Pending,
         m_seq = next_seq q, m_attempts = 0,
         m_retries = (case retries of None \<Rightarrow> dflt | Some r \<Rightarrow> r)\<rparr>
        (q\<lparr>next_seq := next_seq q + 1\<rparr>)))"

definition mq_dequeue :: "string \<Rightarrow> queue \<Rightarrow> queue_error + queue" where
  "mq_dequeue i q = ebind (get_mission i q) (\<lambda>m.
     if m_state m = Running then Inl DequeueRunning
     else if list_ex (\<lambda>(k, other). m_id other \<noteq> i \<and> i \<in> set (m_deps other)) (missions q)
       then Inl DequeueDependency
     else validated (q\<lparr>missions := AList.delete i (missions q)\<rparr>))"

definition deps_completed :: "queue \<Rightarrow> mission \<Rightarrow> bool" where
  "deps_completed q m = list_all (\<lambda>d. case map_of (missions q) d of
       None \<Rightarrow> False | Some dep \<Rightarrow> m_state dep = Completed) (m_deps m)"

definition rank :: "mission \<Rightarrow> int \<times> int \<times> string" where
  "rank m = (- m_priority m, m_seq m, m_id m)"

definition eligible :: "queue \<Rightarrow> mission list" where
  "eligible q = filter (\<lambda>m. (m_state m = Pending \<or> m_state m = Retrying) \<and> deps_completed q m)
     (map snd (missions q))"

definition mq_claim :: "queue \<Rightarrow> mission option \<times> queue" where
  "mq_claim q = (case sort_key rank (eligible q) of
       [] \<Rightarrow> (None, q)
     | chosen # _ \<Rightarrow>
         let m = chosen\<lparr>m_state := Running\<rparr> in (Some m, put_mission (m_id m) m q))"

definition mq_recover_stale :: "queue \<Rightarrow> queue_error + string list \<times> queue" where
  "mq_recover_stale q =
     (let recovered = sort_key rank (filter (\<lambda>m. m_state m = Running) (map snd (missions q)))
      in if recovered = [] then Inr ([], q)
         else ebind (validated (q\<lparr>missions := map (\<lambda>(k, m).
                 (k, if m_state m = Running then m\<lparr>m_state := Retrying\<rparr> else m)) (missions q)\<rparr>))
               (\<lambda>q'. Inr (map m_id recovered, q')))"

definition mq_complete :: "string \<Rightarrow> queue \<Rightarrow> queue_error + queue" where
  "mq_complete i q = ebind (get_mission i q) (\<lambda>m.
     if m_state m \<noteq> Running then Inl CompleteNotRunning
     else validated (put_mission i (m\<lparr>m_state := Completed\<rparr>) q))"

definition mq_fail :: "string \<Rightarrow> queue \<Rightarrow> queue_error + queue" where
  "mq_fail i q = ebind (get_mission i q) (\<lambda>m.
     if m_state m \<noteq> Running then Inl FailNotRunning
     else let m' = m\<lparr>m_attempts := m_attempts m + 1\<rparr> in
       validated (put_mission i
         (if m_attempts m' \<le> m_retries m' then m'\<lparr>m_state := Retrying\<rparr>
          else m'\<lparr>m_state := Failed\<rparr>) q))"

definition mq_retry :: "string \<Rightarrow> queue \<Rightarrow> queue_error + queue" where
  "mq_retry i q = ebind (get_mission i q) (\<lambda>m.
     if m_state m \<noteq> Failed then Inl RetryNotFailed
     else if m_attempts m \<ge> m_retries m then Inl NoRetryLeft
     else validated (put_mission i (m\<lparr>m_state := Retrying\<rparr>) q))"

definition mq_block :: "string \<Rightarrow> queue \<Rightarrow> queue_error + queue" where
  "mq_block i q = ebind (get_mission i q) (\<lambda>m.
     if m_state m \<notin> {Pending, Retrying, Running} then Inl BlockBadState
     else validated (put_mission i (m\<lparr>m_state := Blocked\<rparr>) q))"

definition mq_cancel :: "string \<Rightarrow> queue \<Rightarrow> queue_error + queue" where
  "mq_cancel i q = ebind (get_mission i q) (\<lambda>m.
     if m_state m \<in> {Completed, Failed, Cancelled} then Inl CancelTerminal
     else validated (put_mission i (m\<lparr>m_state := Cancelled\<rparr>) q))"

definition mq_resume :: "string \<Rightarrow> queue \<Rightarrow> queue_error + queue" where
  "mq_resume i q = ebind (get_mission i q) (\<lambda>m.
     if m_state m \<notin> {Blocked, Cancelled} then Inl ResumeBadState
     else validated (put_mission i (m\<lparr>m_state := Pending\<rparr>) q))"

definition mq_list :: "queue \<Rightarrow> pyval dict list" where
  "mq_list q = map to_dict (sort_key rank (map snd (missions q)))"

definition mq_get :: "string \<Rightarrow> queue \<Rightarrow> queue_error + pyval dict" where
  "mq_get i q = ebind (get_mission i q) (\<lambda>m. Inr (to_dict m))"

section \<open>Operations on the file\<close>

definition locked :: "(queue \<Rightarrow> queue_error + queue) \<Rightarrow> disk \<Rightarrow> queue_error + disk" where
  "locked f d = ebind (load_queue d) (\<lambda>q. ebind (f q) (\<lambda>q'. Inr (save_queue q')))"

definition claim_file :: "disk \<Rightarrow> queue_error + (pyval dict option \<times> disk)" where
  "claim_file d = ebind (load_queue d) (\<lambda>q.
     case mq_claim q of
       (None, _) \<Rightarrow> Inr (None, d)
     | (Some m, q') \<Rightarrow> Inr (Some (to_dict m), save_queue q'))"

definition recover_stale_file :: "disk \<Rightarrow> queue_error + (string list \<times> disk)" where
  "recover_stale_file d = ebind (load_queue d) (\<lambda>q. ebind (mq_recover_stale q) (\<lambda>(ids, q').
     Inr (ids, if ids = [] then d else save_queue q')))"

definition to_json :: "disk \<Rightarrow> queue_error + string" where
  "to_json d = ebind (load_queue d) (\<lambda>q. Inr (json_dumps True (serialize_state q)))"

text \<open>\<open>enqueue_from_planner\<close>: items are enqueued one by one; the first bad item stops the
  batch, and what was enqueued before stays.\<close>

definition planner_item ::
    "int \<Rightarrow> pyval dict \<Rightarrow> queue_error + (string \<times> int \<times> string list \<times> int)" where
  "planner_item dflt item =
     ebind (required item ''id'') (\<lambda>i.
     ebind (ebind (required item ''priority'') number) (\<lambda>p.
     (case dget_or item ''dependencies'' (PList []) of
        PList vs \<Rightarrow>
          ebind (number (dget_or item ''max_retries'' (PInt dflt))) (\<lambda>r.
            Inr (py_str i, p, map str_of vs, r))
      | _ \<Rightarrow> Inl BadDependencies)))"

fun enqueue_from_planner ::
    "int \<Rightarrow> pyval dict list \<Rightarrow> disk \<Rightarrow> queue_error option \<times> disk" where
  "enqueue_from_planner dflt [] d = (None, d)"
| "enqueue_from_planner dflt (item # items) d =
     (case ebind (planner_item dflt item) (\<lambda>(i, p, deps, r).
          locked (mq_enqueue dflt i p deps (Some r)) d) of
        Inl e \<Rightarrow> (Some e, d)
      | Inr d' \<Rightarrow> enqueue_from_planner dflt items d')"

end
