(* ===== verification/MissionStore.thy ===== *)
theory MissionStore
  imports MissionQueue
begin

text \<open>
  The mission queue's representation invariant, the meaning of its dependency check and the
  round trip through the queue file: what \<open>save_queue\<close> writes, \<open>load_queue\<close> reads back with
  the same missions.
\<close>

section \<open>The dependency check decides acyclicity\<close>

definition dep_graph :: "mission dict \<Rightarrow> (string \<times> string) set" where
  "dep_graph ms = {(u, d). \<exists>m. map_of ms u = Some m \<and> d \<in> set (m_deps m) \<and> d \<in> fst ` set ms}"

lemma edges_known_deps: "edges (known_deps ms) = dep_graph ms"
  by (force simp: edges_def dep_graph_def known_deps_def split: option.splits)

lemma self_dependency_none:
  "distinct (map fst ms) \<Longrightarrow> acyclic (dep_graph ms) \<Longrightarrow>
     List.find (\<lambda>(k, m). k \<in> set (m_deps m)) ms = None"
proof (rule find_None_iff [THEN iffD2], rule)
  assume d: "distinct (map fst ms)" and a: "acyclic (dep_graph ms)"
    and "\<exists>x. x \<in> set ms \<and> (case x of (k, m) \<Rightarrow> k \<in> set (m_deps m))"
  then obtain k m where km: "(k, m) \<in> set ms" "k \<in> set (m_deps m)" by auto
  then have "map_of ms k = Some m" using d by simp
  moreover have "k \<in> fst ` set ms" using km(1) by force
  ultimately have "(k, k) \<in> dep_graph ms" using km(2) by (auto simp: dep_graph_def)
  then show False using a by (auto simp: acyclic_def)
qed

lemma dfs_roots_mission:
  "dfs_roots (length ms) (known_deps ms) (sort (map fst ms)) (\<lambda>_. White) \<noteq> None"
proof (rule dfs_roots_fuel [where N = "fst ` set ms"])
  show "\<forall>x \<in> fst ` set ms. set (known_deps ms x) \<subseteq> fst ` set ms"
    by (auto simp: known_deps_def split: option.splits)
  have "whites (fst ` set ms) (\<lambda>_. White) = card (fst ` set ms)" by (simp add: whites_def)
  also have "\<dots> \<le> length ms"
    using card_image_le [of "set ms" fst] card_length [of ms] by simp
  finally show "whites (fst ` set ms) (\<lambda>_. White) \<le> length ms" .
qed simp_all

lemma validate_no_cycles_acyclic:
  assumes "validate_no_cycles ms = Inr ()"
  shows "acyclic (dep_graph ms)"
proof -
  obtain col where r:
      "dfs_roots (length ms) (known_deps ms) (sort (map fst ms)) (\<lambda>_. White) = Some (Inr col)"
    using assms by (auto simp: validate_no_cycles_def split: option.splits sum.splits)
  have "known_deps ms x = []" if "x \<notin> set (sort (map fst ms))" for x
    using that map_of_eq_None_iff [of ms x] by (simp add: known_deps_def)
  then show ?thesis using dfs_roots_accepts [OF r] by (simp add: edges_known_deps)
qed

lemma validate_no_cycles_iff:
  assumes "distinct (map fst ms)"
  shows "validate_no_cycles ms = Inr () \<longleftrightarrow> acyclic (dep_graph ms)"
proof
  assume a: "acyclic (dep_graph ms)"
  have "dfs_roots (length ms) (known_deps ms) (sort (map fst ms)) (\<lambda>_. White) \<noteq> Some (Inl p)" for p
    using dfs_roots_Inl closes_cycle_not_acyclic [of "known_deps ms" p] a
    by (auto simp: edges_known_deps)
  then show "validate_no_cycles ms = Inr ()"
    using self_dependency_none [OF assms a] dfs_roots_mission [of ms]
    by (auto simp: validate_no_cycles_def split: option.splits sum.splits)
qed (rule validate_no_cycles_acyclic)

lemma validate_reports_cycle:
  assumes "validate_no_cycles ms = Inl (CircularDependency p)"
  shows "closes_cycle (known_deps ms) p"
  using assms dfs_roots_mission [of ms] dfs_roots_Inl [of "length ms" "known_deps ms"]
  by (auto simp: validate_no_cycles_def split: option.splits sum.splits)

section \<open>Well-formed queues\<close>

text \<open>What every loaded queue satisfies (\<open>queue_ok\<close>), and what the queue's own operations
  keep beyond it: dependency lists in the sorted order in which they are stored.\<close>

definition queue_ok :: "queue \<Rightarrow> bool" where
  "queue_ok q \<longleftrightarrow> distinct (map fst (missions q)) \<and> (\<forall>(k, m) \<in> set (missions q). m_id m = k) \<and>
     acyclic (dep_graph (missions q)) \<and> 1 \<le> next_seq q"

definition queue_wf :: "queue \<Rightarrow> bool" where
  "queue_wf q \<longleftrightarrow> queue_ok q \<and> (\<forall>(k, m) \<in> set (missions q). sorted (m_deps m))"

lemma queue_wfD:
  assumes "queue_wf q" and "map_of (missions q) i = Some m"
  shows "m_id m = i" and "sorted (m_deps m)"
  using assms map_of_SomeD [OF assms(2)] by (auto simp: queue_wf_def queue_ok_def)

lemma queue_wf_distinct: "queue_wf q \<Longrightarrow> distinct (map fst (missions q))"
  by (simp add: queue_wf_def queue_ok_def)

lemma queue_wf_acyclic: "queue_wf q \<Longrightarrow> acyclic (dep_graph (missions q))"
  by (simp add: queue_wf_def queue_ok_def)

lemma queue_wf_empty [simp]: "queue_wf \<lparr>missions = [], next_seq = 1\<rparr>"
  by (simp add: queue_wf_def queue_ok_def dep_graph_def acyclic_def)

section \<open>Round trip through the file\<close>

lemma state_of_value_inverse [simp]: "state_of_value (state_value st) = Some st"
  by (cases st) (simp_all add: state_of_value_def)

lemma json_sort_strings [simp]: "map (json_sort \<circ> PStr) xs = map PStr xs"
  by simp

definition sort_deps :: "mission \<Rightarrow> mission" where
  "sort_deps m = m\<lparr>m_deps := sort (m_deps m)\<rparr>"

lemma to_dict_keys: "distinct (map fst (to_dict m))"
  by (simp add: to_dict_def)

lemma from_dict_to_dict:
  assumes "json_sort (PDict (to_dict m)) = PDict d"
  shows "from_dict d = Inr (sort_deps m)"
proof -
  note get = map_of_json_sort [OF to_dict_keys assms]
  have fields: "map_of d ''state'' = Some (PStr (state_value (m_state m)))"
    "map_of d ''id'' = Some (PStr (m_id m))"
    "map_of d ''priority'' = Some (PInt (m_priority m))"
    "map_of d ''dependencies'' = Some (PList (map PStr (sort (m_deps m))))"
    "map_of d ''created_seq'' = Some (PInt (m_seq m))"
    "map_of d ''attempts_done'' = Some (PInt (m_attempts m))"
    "map_of d ''max_retries'' = Some (PInt (m_retries m))"
    by (simp_all add: get to_dict_def)
  have "list_all is_str (map PStr xs)" for xs by (simp add: list_all_iff)
  moreover have "map str_of (map PStr xs) = xs" for xs by (induction xs) (simp_all add: str_of_def)
  ultimately show ?thesis
    by (simp add: from_dict_def fields dget_or_def required_def number_def sort_deps_def
        del: map_map)
qed

lemma load_entries_saved:
  assumes "distinct (map fst ms @ map fst es)" and "\<forall>(k, m) \<in> set es. m_id m = k"
  shows "load_entries ms (map (\<lambda>(k, m). (k, json_sort (PDict (to_dict m)))) es)
    = Inr (ms @ map (\<lambda>(k, m). (k, sort_deps m)) es)"
  using assms
proof (induction es arbitrary: ms)
  case (Cons e es)
  obtain k m where e: "e = (k, m)" by (cases e)
  obtain d where d: "json_sort (PDict (to_dict m)) = PDict d" by simp
  have k: "k \<notin> fst ` set ms" "m_id m = k" using Cons.prems by (auto simp: e)
  have app: "AList.update k v ms = ms @ [(k, v)]" for v using k(1) by (induction ms) auto
  have "load_entry ms (k, PDict d) = Inr (ms @ [(k, sort_deps m)])"
    using from_dict_to_dict [OF d] k app by (simp add: load_entry_def sort_deps_def)
  moreover have "load_entries (ms @ [(k, sort_deps m)])
      (map (\<lambda>(k, m). (k, json_sort (PDict (to_dict m)))) es)
      = Inr ((ms @ [(k, sort_deps m)]) @ map (\<lambda>(k, m). (k, sort_deps m)) es)"
    using Cons.prems by (intro Cons.IH) (auto simp: e)
  ultimately show ?case by (simp add: e d del: json_sort.simps)
qed simp

text \<open>The queue as the next load sees it: keys in sorted order, dependency lists sorted.\<close>

definition stored :: "queue \<Rightarrow> queue" where
  "stored q = q\<lparr>missions := map (\<lambda>(k, m). (k, sort_deps m)) (sort_key fst (missions q))\<rparr>"

lemma map_of_stored:
  "distinct (map fst (missions q)) \<Longrightarrow>
     map_of (missions (stored q)) k = map_option sort_deps (map_of (missions q) k)"
  by (simp add: stored_def map_of_map_snd map_of_sort_key)

lemma keys_stored: "fst ` set (missions (stored q)) = fst ` set (missions q)"
  by (force simp: stored_def)

lemma dep_graph_stored:
  "distinct (map fst (missions q)) \<Longrightarrow> dep_graph (missions (stored q)) = dep_graph (missions q)"
  by (auto simp: dep_graph_def map_of_stored keys_stored sort_deps_def)

lemma distinct_stored:
  "distinct (map fst (missions q)) \<Longrightarrow> distinct (map fst (missions (stored q)))"
proof -
  assume "distinct (map fst (missions q))"
  then have "distinct (map fst (sort_key fst (missions q)))" by (simp add: distinct_map)
  then show ?thesis by (simp add: stored_def comp_def case_prod_unfold)
qed

lemma json_wf_serialize:
  assumes "distinct (map fst (missions q))"
  shows "json_wf (serialize_state q)"
proof -
  let ?es = "map (\<lambda>(k, m). (k, PDict (to_dict m))) (sort_key fst (missions q))"
  have "distinct (map fst (sort_key fst (missions q)))" using assms by (simp add: distinct_map)
  then have "distinct (map fst ?es)" by (simp add: comp_def case_prod_unfold)
  moreover have "json_wf (PDict (to_dict m))" for m by (simp add: to_dict_def list_all_iff)
  ultimately have "json_wf (PDict ?es)" by (auto simp: list_all_iff)
  then show ?thesis by (simp add: serialize_state_def)
qed

lemma sort_key_sorted_map:
  fixes xs :: "('a::linorder \<times> 'b) list"
  shows "sort_key fst (map (\<lambda>(k, v). (k, f v)) (sort_key fst xs)) = map (\<lambda>(k, v). (k, f v)) (sort_key fst xs)"
proof (rule sort_key_id_if_sorted)
  have keys: "map fst (map (\<lambda>(k, v). (k, f v)) ys) = map fst ys" for ys :: "('a \<times> 'b) list"
    by (induction ys) auto
  show "sorted (map fst (map (\<lambda>(k, v). (k, f v)) (sort_key fst xs)))"
    unfolding keys by (rule sorted_sort_key)
qed

lemma load_entries_serialized:
  assumes "distinct (map fst ms)" and "\<forall>(k, m) \<in> set ms. m_id m = k"
  shows "load_entries [] (map (\<lambda>(k, m). (k, json_sort (PDict (to_dict m)))) (sort_key fst ms))
    = Inr (map (\<lambda>(k, m). (k, sort_deps m)) (sort_key fst ms))"
  using load_entries_saved [of "[]" "sort_key fst ms"] assms by (simp add: distinct_map)

lemma json_sort_missions:
  "json_sort (PDict (map (\<lambda>(k, m). (k, PDict (to_dict m))) (sort_key fst ms)))
    = PDict (map (\<lambda>(k, m). (k, json_sort (PDict (to_dict m)))) (sort_key fst ms))"
proof -
  let ?f = "\<lambda>(k, m). (k, json_sort (PDict (to_dict m)))"
  have one: "map (\<lambda>(k, v). (k, json_sort v)) (map (\<lambda>(k, m). (k, PDict (to_dict m))) xs) = map ?f xs"
    for xs :: "mission dict"
    by (induction xs) auto
  show ?thesis
    unfolding json_sort.simps(2) [of "map (\<lambda>(k, m). (k, PDict (to_dict m))) (sort_key fst ms)"] one
    by (simp only: sort_key_sorted_map)
qed

lemma load_raw_serialized:
  assumes ok: "queue_ok q"
  shows "load_raw (json_sort (serialize_state q)) = Inr (stored q)"
proof -
  let ?ms = "sort_key fst (missions q)"
  let ?d = "[(''version'', PInt 1), (''next_seq'', PInt (next_seq q)),
      (''missions'', PDict (map (\<lambda>(k, m). (k, PDict (to_dict m))) ?ms))]"
  obtain d where d: "json_sort (PDict ?d) = PDict d" by simp
  have dist: "distinct (map fst ?d)" by simp
  have get: "map_of d ''version'' = Some (PInt 1)" "map_of d ''next_seq'' = Some (PInt (next_seq q))"
    "map_of d ''missions'' =
       Some (PDict (map (\<lambda>(k, m). (k, json_sort (PDict (to_dict m)))) ?ms))"
    by (simp_all add: map_of_json_sort [OF dist d] json_sort_missions del: json_sort.simps(2))
  have "load_entries [] (map (\<lambda>(k, m). (k, json_sort (PDict (to_dict m)))) ?ms)
      = Inr (missions (stored q))"
    using ok load_entries_serialized [of "missions q"] by (simp add: queue_ok_def stored_def)
  moreover have "validate_no_cycles (missions (stored q)) = Inr ()"
    using ok by (simp add: validate_no_cycles_iff distinct_stored dep_graph_stored queue_ok_def)
  moreover have "max 1 (next_seq q) = next_seq q" using ok by (simp add: queue_ok_def)
  ultimately have "load_raw (PDict d) = Inr \<lparr>missions = missions (stored q), next_seq = next_seq q\<rparr>"
    by (simp add: load_raw_def dget_or_def get number_def del: json_sort.simps)
  then show ?thesis using d by (simp add: serialize_state_def stored_def del: json_sort.simps)
qed

theorem load_queue_save: "queue_ok q \<Longrightarrow> load_queue (save_queue q) = Inr (stored q)"
  by (simp add: load_queue_def save_queue_def json_loads_dumps json_wf_serialize queue_ok_def
      load_raw_serialized)

text \<open>Conversely, whatever text a load accepts is a queue with the representation invariant.\<close>

lemma load_entries_ok:
  "load_entries ms es = Inr ms' \<Longrightarrow> distinct (map fst ms) \<Longrightarrow> (\<forall>(k, m) \<in> set ms. m_id m = k) \<Longrightarrow>
     distinct (map fst ms') \<and> (\<forall>(k, m) \<in> set ms'. m_id m = k)"
proof (induction es arbitrary: ms)
  case (Cons e es)
  then obtain ms1 where l: "load_entry ms e = Inr ms1" "load_entries ms1 es = Inr ms'"
    by (auto simp: err_simps)
  then obtain m where m: "m_id m = fst e" "fst e \<notin> fst ` set ms" "ms1 = AList.update (fst e) m ms"
    by (auto simp: load_entry_def err_simps split: pyval.splits if_splits)
  have "AList.update (fst e) m ms = ms @ [(fst e, m)]" using m(2) by (induction ms) auto
  then have "\<forall>(k, m) \<in> set ms1. m_id m = k" using Cons.prems(3) m by auto
  moreover have "distinct (map fst ms1)" using Cons.prems(2) m by simp
  ultimately show ?case using Cons.IH [OF l(2)] by simp
qed simp

theorem load_queue_ok:
  assumes l: "load_queue d = Inr q"
  shows "queue_ok q"
proof (cases d)
  case None
  then show ?thesis
    using l queue_wf_empty by (auto simp: load_queue_def queue_wf_def)
next
  case (Some t)
  then obtain raw where "load_raw raw = Inr q"
    using l by (auto simp: load_queue_def split: option.splits)
  moreover from this obtain x where "raw = PDict x" by (cases raw) (auto simp: load_raw_def)
  ultimately have r: "load_raw (PDict x) = Inr q" by simp
  then obtain es where "dget_or x ''missions'' (PDict []) = PDict es"
    by (cases "dget_or x ''missions'' (PDict [])") (auto simp: load_raw_def err_simps split: if_splits)
  then obtain ms ns where q: "load_entries [] es = Inr ms" "validate_no_cycles ms = Inr ()"
      "q = \<lparr>missions = ms, next_seq = max 1 ns\<rparr>"
    using r by (auto simp: load_raw_def err_simps split: if_splits)
  then show ?thesis
    using load_entries_ok [OF q(1)] validate_no_cycles_acyclic [OF q(2)] by (simp add: queue_ok_def)
qed

text \<open>On a queue the operations have built, saving and loading changes nothing but the order in
  which the missions are kept.\<close>

lemma sort_deps_sorted [simp]: "sorted (m_deps m) \<Longrightarrow> sort_deps m = m"
  by (simp add: sort_deps_def sorted_sort_id)

lemma map_of_stored_wf: "queue_wf q \<Longrightarrow> map_of (missions (stored q)) = map_of (missions q)"
proof
  fix k assume wf: "queue_wf q"
  show "map_of (missions (stored q)) k = map_of (missions q) k"
    using queue_wfD [OF wf, of k] map_of_stored [OF queue_wf_distinct [OF wf], of k]
    by (cases "map_of (missions q) k") simp_all
qed

lemma queue_wf_stored: "queue_wf q \<Longrightarrow> queue_wf (stored q)"
  unfolding queue_wf_def queue_ok_def
  by (auto simp: distinct_stored dep_graph_stored) (auto simp: stored_def sort_deps_def)

end
