(* ===== verification/MissionLifecycle.thy ===== *)
theory MissionLifecycle
  imports MissionStore
begin

text \<open>
  The life cycle of missions: the invariant that ties states, dependencies, attempt counters
  and sequence numbers together, its preservation by every operation of the queue, and the
  files reachable through the operations.
\<close>

section \<open>The invariant\<close>

definition mission_inv :: "queue \<Rightarrow> mission \<Rightarrow> bool" where
  "mission_inv q m \<longleftrightarrow>
     (m_state m \<in> {Running, Retrying, Completed, Failed} \<longrightarrow> deps_completed q m) \<and>
     0 \<le> m_attempts m \<and> m_attempts m \<le> max 0 (m_retries m) + 1 \<and>
     (m_state m = Failed \<longrightarrow> m_retries m < m_attempts m) \<and>
     (m_state m \<noteq> Failed \<longrightarrow> m_attempts m = 0 \<or> m_attempts m \<le> m_retries m) \<and>
     1 \<le> m_seq m \<and> m_seq m < next_seq q"

definition seqs_distinct :: "queue \<Rightarrow> bool" where
  "seqs_distinct q \<longleftrightarrow> (\<forall>i j m n. map_of (missions q) i = Some m \<longrightarrow>
     map_of (missions q) j = Some n \<longrightarrow> m_seq m = m_seq n \<longrightarrow> i = j)"

definition lifecycle :: "queue \<Rightarrow> bool" where
  "lifecycle q \<longleftrightarrow> queue_wf q \<and> seqs_distinct q \<and>
     (\<forall>i m. map_of (missions q) i = Some m \<longrightarrow> mission_inv q m)"

lemma lifecycleD:
  assumes "lifecycle q"
  shows lifecycle_wf: "queue_wf q" and lifecycle_seqs: "seqs_distinct q"
    and lifecycle_inv: "map_of (missions q) i = Some m \<Longrightarrow> mission_inv q m"
  using assms by (auto simp: lifecycle_def)

lemma deps_completed_iff:
  "deps_completed q m \<longleftrightarrow>
     (\<forall>d \<in> set (m_deps m). \<exists>x. map_of (missions q) d = Some x \<and> m_state x = Completed)"
  by (auto simp: deps_completed_def list_all_iff split: option.splits)

lemma lifecycle_empty: "lifecycle \<lparr>missions = [], next_seq = 1\<rparr>"
  by (simp add: lifecycle_def seqs_distinct_def)

text \<open>The invariant looks at a queue only through its lookups.\<close>

lemma lifecycle_same_lookups:
  assumes "lifecycle q" and "queue_wf q'" and "map_of (missions q') = map_of (missions q)"
    and "next_seq q' = next_seq q"
  shows "lifecycle q'"
  using assms by (simp add: lifecycle_def seqs_distinct_def mission_inv_def deps_completed_iff)

lemma stored_next_seq [simp]: "next_seq (stored q) = next_seq q"
  by (simp add: stored_def)

lemma lifecycle_stored: "lifecycle q \<Longrightarrow> lifecycle (stored q)"
  by (rule lifecycle_same_lookups [of q])
     (simp_all add: lifecycle_wf queue_wf_stored map_of_stored_wf stored_next_seq)

section \<open>Replacing one mission\<close>

lemma missions_put [simp]: "missions (put_mission i m q) = AList.update i m (missions q)"
  and next_seq_put [simp]: "next_seq (put_mission i m q) = next_seq q"
  by (simp_all add: put_mission_def)

lemma set_update_alist:
  "distinct (map fst xs) \<Longrightarrow> e \<in> set (AList.update k v xs) \<Longrightarrow> e = (k, v) \<or> e \<in> set xs"
  by (induction xs) (auto split: if_splits)

lemma dep_graph_update:
  assumes "map_of ms i = Some m" and "m_deps m' = m_deps m"
  shows "dep_graph (AList.update i m' ms) = dep_graph ms"
proof -
  have "i \<in> fst ` set ms" using assms(1) by (metis domI dom_map_of_conv_image_fst)
  then have ins: "insert i (fst ` set ms) = fst ` set ms" by blast
  have "{(u, d). \<exists>x. ((map_of ms)(i \<mapsto> m')) u = Some x \<and> d \<in> set (m_deps x) \<and> d \<in> N}
      = {(u, d). \<exists>x. map_of ms u = Some x \<and> d \<in> set (m_deps x) \<and> d \<in> N}" for N
    using assms by (auto split: if_splits)
  then show ?thesis unfolding dep_graph_def map_of_update fst_set_update ins .
qed

lemma queue_wf_put:
  assumes "queue_wf q" and "map_of (missions q) i = Some m"
    and "m_id m' = i" and "m_deps m' = m_deps m"
  shows "queue_wf (put_mission i m' q)"
proof -
  have "\<forall>(k, x) \<in> set (AList.update i m' (missions q)). m_id x = k \<and> sorted (m_deps x)"
    using assms queue_wfD [OF assms(1,2)] set_update_alist [OF queue_wf_distinct [OF assms(1)]]
    by (fastforce simp: queue_wf_def queue_ok_def)
  then show ?thesis
    using assms by (auto simp: queue_wf_def queue_ok_def dep_graph_update [OF assms(2)])
qed

lemma validated_wf [simp]: "queue_wf q \<Longrightarrow> validated q = Inr q"
  by (simp add: validated_def validate_no_cycles_iff [THEN iffD2] queue_wf_distinct queue_wf_acyclic)

lemma get_mission_eq [simp]:
  "get_mission i q = Inr m \<longleftrightarrow> map_of (missions q) i = Some m"
  "get_mission i q = Inl e \<longleftrightarrow> map_of (missions q) i = None \<and> e = UnknownMission i"
  by (auto simp: get_mission_def split: option.splits)

text \<open>A mission may be replaced when a completed mission stays completed and the new state is
  one its dependencies and its attempt counter allow.\<close>

lemma lifecycle_put:
  assumes inv: "lifecycle q" and m: "map_of (missions q) i = Some m"
    and same: "m_id m' = i" "m_deps m' = m_deps m" "m_seq m' = m_seq m"
    and fin: "m_state m = Completed \<longrightarrow> m_state m' = Completed"
    and new: "mission_inv q m'"
  shows "lifecycle (put_mission i m' q)"
proof -
  have keep: "deps_completed q x \<Longrightarrow> deps_completed (put_mission i m' q) x" for x
    using m fin by (auto simp: deps_completed_iff)
  have "mission_inv (put_mission i m' q) x" if "map_of (missions (put_mission i m' q)) j = Some x" for j x
    using that keep new lifecycle_inv [OF inv, of j x]
    by (auto simp: mission_inv_def split: if_splits)
  moreover have "seqs_distinct (put_mission i m' q)"
    using lifecycle_seqs [OF inv] m same(3) by (auto simp: seqs_distinct_def)
  ultimately show ?thesis
    using queue_wf_put [OF lifecycle_wf [OF inv] m same(1,2)] by (simp add: lifecycle_def)
qed

section \<open>Every operation keeps the invariant\<close>

text \<open>On a well-formed queue the validation after a state change always passes, so each
  operation is its guard and its update.\<close>

lemma validated_put:
  assumes "queue_wf q" and "map_of (missions q) i = Some m" and "m_id x = i" and "m_deps x = m_deps m"
  shows "validated (put_mission i x q) = Inr (put_mission i x q)"
  using queue_wf_put [OF assms] by simp


lemma mq_complete_eq:
  assumes wf: "queue_wf q"
  shows "mq_complete i q = ebind (get_mission i q) (\<lambda>m.
      if m_state m \<noteq> Running then Inl CompleteNotRunning
      else Inr (put_mission i (m\<lparr>m_state := Completed\<rparr>) q))"
proof (cases "map_of (missions q) i")
  case (Some m)
  then show ?thesis
    using queue_wfD(1) [OF wf Some]
    by (simp add: mq_complete_def get_mission_def Let_def validated_put [OF wf Some])
qed (simp add: mq_complete_def get_mission_def)

lemma mq_fail_eq:
  assumes wf: "queue_wf q"
  shows "mq_fail i q = ebind (get_mission i q) (\<lambda>m.
      if m_state m \<noteq> Running then Inl FailNotRunning
      else Inr (put_mission i (m\<lparr>m_attempts := m_attempts m + 1,
        m_state := if m_attempts m + 1 \<le> m_retries m then Retrying else Failed\<rparr>) q))"
proof (cases "map_of (missions q) i")
  case (Some m)
  then show ?thesis
    using queue_wfD(1) [OF wf Some]
    by (simp add: mq_fail_def get_mission_def Let_def validated_put [OF wf Some])
qed (simp add: mq_fail_def get_mission_def)

lemma mq_block_eq:
  assumes wf: "queue_wf q"
  shows "mq_block i q = ebind (get_mission i q) (\<lambda>m.
      if m_state m \<notin> {Pending, Retrying, Running} then Inl BlockBadState
      else Inr (put_mission i (m\<lparr>m_state := Blocked\<rparr>) q))"
proof (cases "map_of (missions q) i")
  case (Some m)
  then show ?thesis
    using queue_wfD(1) [OF wf Some]
    by (simp add: mq_block_def get_mission_def Let_def validated_put [OF wf Some])
qed (simp add: mq_block_def get_mission_def)

lemma mq_cancel_eq:
  assumes wf: "queue_wf q"
  shows "mq_cancel i q = ebind (get_mission i q) (\<lambda>m.
      if m_state m \<in> {Completed, Failed, Cancelled} then Inl CancelTerminal
      else Inr (put_mission i (m\<lparr>m_state := Cancelled\<rparr>) q))"
proof (cases "map_of (missions q) i")
  case (Some m)
  then show ?thesis
    using queue_wfD(1) [OF wf Some]
    by (simp add: mq_cancel_def get_mission_def Let_def validated_put [OF wf Some])
qed (simp add: mq_cancel_def get_mission_def)

lemma mq_resume_eq:
  assumes wf: "queue_wf q"
  shows "mq_resume i q = ebind (get_mission i q) (\<lambda>m.
      if m_state m \<notin> {Blocked, Cancelled} then Inl ResumeBadState
      else Inr (put_mission i (m\<lparr>m_state := Pending\<rparr>) q))"
proof (cases "map_of (missions q) i")
  case (Some m)
  then show ?thesis
    using queue_wfD(1) [OF wf Some]
    by (simp add: mq_resume_def get_mission_def Let_def validated_put [OF wf Some])
qed (simp add: mq_resume_def get_mission_def)

lemma mq_retry_eq:
  assumes wf: "queue_wf q"
  shows "mq_retry i q = ebind (get_mission i q) (\<lambda>m.
      if m_state m \<noteq> Failed then Inl RetryNotFailed
      else if m_attempts m \<ge> m_retries m then Inl NoRetryLeft
      else Inr (put_mission i (m\<lparr>m_state := Retrying\<rparr>) q))"
proof (cases "map_of (missions q) i")
  case (Some m)
  then show ?thesis
    using queue_wfD(1) [OF wf Some]
    by (simp add: mq_retry_def get_mission_def Let_def validated_put [OF wf Some])
qed (simp add: mq_retry_def get_mission_def)

lemmas mq_put_simps =
  mq_complete_eq mq_fail_eq mq_block_eq mq_cancel_eq mq_resume_eq mq_retry_eq

lemma lifecycle_step:
  assumes "lifecycle q" "map_of (missions q) i = Some m" "m_state m \<noteq> Completed" "0 \<le> a"
    "a \<le> max 0 (m_retries m) + 1" "s \<in> {Running, Retrying, Completed, Failed} \<longrightarrow> deps_completed q m"
    "s = Failed \<longrightarrow> m_retries m < a" "s \<noteq> Failed \<longrightarrow> a = 0 \<or> a \<le> m_retries m"
  shows "lifecycle (put_mission i (m\<lparr>m_attempts := a, m_state := s\<rparr>) q)"
  using assms lifecycle_inv [OF assms(1,2)] queue_wfD(1) [OF lifecycle_wf [OF assms(1)] assms(2)]
  by (intro lifecycle_put [OF assms(1,2)]) (auto simp: mission_inv_def deps_completed_def)

lemma lifecycle_move:
  assumes "lifecycle q" "map_of (missions q) i = Some m" "m_state m \<noteq> Completed" "s \<noteq> Failed"
    "s \<in> {Running, Retrying, Completed} \<longrightarrow> deps_completed q m"
    "m_state m \<noteq> Failed \<or> m_attempts m \<le> m_retries m"
  shows "lifecycle (put_mission i (m\<lparr>m_state := s\<rparr>) q)"
proof -
  have inv: "0 \<le> m_attempts m" "m_attempts m \<le> max 0 (m_retries m) + 1"
    "m_state m \<noteq> Failed \<longrightarrow> m_attempts m = 0 \<or> m_attempts m \<le> m_retries m"
    using lifecycle_inv [OF assms(1,2)] unfolding mission_inv_def by blast+
  have same: "m\<lparr>m_attempts := m_attempts m, m_state := s\<rparr> = m\<lparr>m_state := s\<rparr>" by simp
  have "lifecycle (put_mission i (m\<lparr>m_attempts := m_attempts m, m_state := s\<rparr>) q)"
    by (rule lifecycle_step [OF assms(1,2,3) inv(1,2)]) (use assms(4,5,6) inv(3) in blast)+
  then show ?thesis unfolding same .
qed

lemma lifecycle_deps:
  "lifecycle q \<Longrightarrow> map_of (missions q) i = Some m \<Longrightarrow>
     m_state m \<in> {Running, Retrying, Completed, Failed} \<Longrightarrow> deps_completed q m"
  using lifecycle_inv [of q i m] by (auto simp: mission_inv_def)

lemma lifecycle_complete:
  assumes inv: "lifecycle q" and e: "mq_complete i q = Inr q'"
  shows "lifecycle q'"
proof -
  obtain m where m: "map_of (missions q) i = Some m" "m_state m = Running"
      "q' = put_mission i (m\<lparr>m_state := Completed\<rparr>) q"
    using e by (auto simp: mq_complete_eq [OF lifecycle_wf [OF inv]] err_simps split: if_splits)
  show ?thesis
    unfolding m(3) using m(2) lifecycle_deps [OF inv m(1)]
    by (intro lifecycle_move [OF inv m(1)]) auto
qed

lemma lifecycle_block:
  assumes inv: "lifecycle q" and e: "mq_block i q = Inr q'"
  shows "lifecycle q'"
proof -
  obtain m where m: "map_of (missions q) i = Some m" "m_state m \<in> {Pending, Retrying, Running}"
      "q' = put_mission i (m\<lparr>m_state := Blocked\<rparr>) q"
    using e by (auto simp: mq_block_eq [OF lifecycle_wf [OF inv]] err_simps split: if_splits)
  show ?thesis
    unfolding m(3) using m(2)
    by (intro lifecycle_move [OF inv m(1)]) auto
qed

lemma lifecycle_cancel:
  assumes inv: "lifecycle q" and e: "mq_cancel i q = Inr q'"
  shows "lifecycle q'"
proof -
  obtain m where m: "map_of (missions q) i = Some m" "m_state m \<notin> {Completed, Failed, Cancelled}"
      "q' = put_mission i (m\<lparr>m_state := Cancelled\<rparr>) q"
    using e by (auto simp: mq_cancel_eq [OF lifecycle_wf [OF inv]] err_simps split: if_splits)
  show ?thesis
    unfolding m(3) using m(2)
    by (intro lifecycle_move [OF inv m(1)]) auto
qed

lemma lifecycle_resume:
  assumes inv: "lifecycle q" and e: "mq_resume i q = Inr q'"
  shows "lifecycle q'"
proof -
  obtain m where m: "map_of (missions q) i = Some m" "m_state m \<in> {Blocked, Cancelled}"
      "q' = put_mission i (m\<lparr>m_state := Pending\<rparr>) q"
    using e by (auto simp: mq_resume_eq [OF lifecycle_wf [OF inv]] err_simps split: if_splits)
  show ?thesis
    unfolding m(3) using m(2)
    by (intro lifecycle_move [OF inv m(1)]) auto
qed

lemma lifecycle_fail:
  assumes inv: "lifecycle q" and e: "mq_fail i q = Inr q'"
  shows "lifecycle q'"
proof -
  obtain m where m: "map_of (missions q) i = Some m" "m_state m = Running"
      "q' = put_mission i (m\<lparr>m_attempts := m_attempts m + 1,
        m_state := if m_attempts m + 1 \<le> m_retries m then Retrying else Failed\<rparr>) q"
    using e by (auto simp: mq_fail_eq [OF lifecycle_wf [OF inv]] err_simps split: if_splits)
  show ?thesis
    unfolding m(3) using m(2) lifecycle_deps [OF inv m(1)] lifecycle_inv [OF inv m(1)]
    by (intro lifecycle_step [OF inv m(1)]) (auto simp: mission_inv_def)
qed

text \<open>A failed mission has used its whole budget, so \<open>retry\<close> always raises.\<close>

lemma retry_never_succeeds: "lifecycle q \<Longrightarrow> mq_retry i q \<noteq> Inr q'"
  using lifecycle_inv [of q i]
  by (fastforce simp: mq_retry_eq [OF lifecycle_wf] err_simps mission_inv_def split: if_splits)

lemma validated_Inr: "validated q = Inr q' \<longleftrightarrow> q' = q \<and> validate_no_cycles (missions q) = Inr ()"
  by (auto simp: validated_def err_simps)

definition new_mission :: "int \<Rightarrow> string \<Rightarrow> int \<Rightarrow> string list \<Rightarrow> int option \<Rightarrow> queue \<Rightarrow> mission" where
  "new_mission dflt i prio deps retries q =
     \<lparr>m_id = i, m_priority = prio, m_deps = sort (dedup deps), m_state = Pending,
      m_seq = next_seq q, m_attempts = 0,
      m_retries = (case retries of None \<Rightarrow> dflt | Some r \<Rightarrow> r)\<rparr>"

lemma mq_enqueue_Inr:
  "mq_enqueue dflt i prio deps retries q = Inr q' \<longleftrightarrow>
     i \<notin> fst ` set (missions q) \<and>
     q' = put_mission i (new_mission dflt i prio deps retries q) (q\<lparr>next_seq := next_seq q + 1\<rparr>) \<and>
     validate_no_cycles (missions q') = Inr ()"
  by (auto simp: mq_enqueue_def new_mission_def validated_Inr)

lemma lifecycle_enqueue:
  assumes inv: "lifecycle q" and e: "mq_enqueue dflt i prio deps retries q = Inr q'"
  shows "lifecycle q'"
proof -
  let ?n = "new_mission dflt i prio deps retries q"
  have new: "i \<notin> fst ` set (missions q)" and q': "missions q' = AList.update i ?n (missions q)"
    and seq: "next_seq q' = next_seq q + 1" and v: "validate_no_cycles (missions q') = Inr ()"
    using e by (auto simp: mq_enqueue_Inr)
  have none: "map_of (missions q) i = None" using new by (simp add: map_of_eq_None_iff)
  have look: "map_of (missions q') = (map_of (missions q))(i \<mapsto> ?n)" by (simp add: q')
  have mem: "e \<in> set (missions q') \<Longrightarrow> e = (i, ?n) \<or> e \<in> set (missions q)" for e
    using set_update_alist queue_wf_distinct [OF lifecycle_wf [OF inv]] by (simp add: q')
  have ids: "\<forall>(k, x) \<in> set (missions q'). m_id x = k \<and> sorted (m_deps x)"
    using mem lifecycle_wf [OF inv]
    by (fastforce simp: queue_wf_def queue_ok_def new_mission_def)
  have wf: "queue_wf q'"
    using ids lifecycle_wf [OF inv] validate_no_cycles_acyclic [OF v]
    by (auto simp: queue_wf_def queue_ok_def q' seq)
  have dc: "deps_completed q x \<Longrightarrow> deps_completed q' x" for x
    using none by (force simp: deps_completed_iff look)
  have below: "m_seq x < m_seq ?n" if "map_of (missions q) j = Some x" for j x
    using lifecycle_inv [OF inv that] by (simp add: mission_inv_def new_mission_def)
  have "seqs_distinct q'"
    unfolding seqs_distinct_def look
  proof (intro allI impI)
    fix j k x y
    assume *: "((map_of (missions q))(i \<mapsto> ?n)) j = Some x" "((map_of (missions q))(i \<mapsto> ?n)) k = Some y"
      "m_seq x = m_seq y"
    show "j = k"
      using * below [of j x] below [of k y] lifecycle_seqs [OF inv]
      by (cases "j = i"; cases "k = i") (auto simp: seqs_distinct_def)
  qed
  moreover have "mission_inv q' x" if "map_of (missions q') j = Some x" for j x
  proof (cases "j = i")
    case True
    then show ?thesis
      using that lifecycle_wf [OF inv]
      by (auto simp: look mission_inv_def new_mission_def seq queue_wf_def queue_ok_def)
  next
    case False
    then show ?thesis
      using that lifecycle_inv [OF inv, of j x] dc by (auto simp: look mission_inv_def seq)
  qed
  ultimately show ?thesis using wf by (simp add: lifecycle_def)
qed

lemma dep_graph_delete: "dep_graph (AList.delete i ms) \<subseteq> dep_graph ms"
  by (auto simp: dep_graph_def split: if_splits)

lemma set_delete_alist: "set (AList.delete i ms) \<subseteq> set ms"
  by (auto simp: AList.delete_eq)

lemma queue_wf_delete:
  "queue_wf q \<Longrightarrow> queue_wf (q\<lparr>missions := AList.delete i (missions q)\<rparr>)"
  using dep_graph_delete [of i "missions q"] set_delete_alist [of i "missions q"]
  by (auto simp: queue_wf_def queue_ok_def distinct_keys_delete intro: acyclic_subset)

lemma mq_dequeue_Inr:
  assumes wf: "queue_wf q"
  shows "mq_dequeue i q = Inr q' \<longleftrightarrow>
     (\<exists>m. map_of (missions q) i = Some m \<and> m_state m \<noteq> Running) \<and>
     (\<forall>k other. map_of (missions q) k = Some other \<longrightarrow> k \<noteq> i \<longrightarrow> i \<notin> set (m_deps other)) \<and>
     q' = q\<lparr>missions := AList.delete i (missions q)\<rparr>"
proof -
  have "list_ex (\<lambda>(k, other). m_id other \<noteq> i \<and> i \<in> set (m_deps other)) (missions q) \<longleftrightarrow>
      (\<exists>k other. map_of (missions q) k = Some other \<and> k \<noteq> i \<and> i \<in> set (m_deps other))"
    using wf by (fastforce simp: list_ex_iff queue_wf_def queue_ok_def)
  then show ?thesis
    using queue_wf_delete [OF wf] by (auto simp: mq_dequeue_def err_simps split: if_splits)
qed

lemma lifecycle_dequeue:
  assumes inv: "lifecycle q" and e: "mq_dequeue i q = Inr q'"
  shows "lifecycle q'"
proof -
  note wf = lifecycle_wf [OF inv]
  have q': "missions q' = AList.delete i (missions q)" "next_seq q' = next_seq q"
    and free: "\<And>k x. map_of (missions q) k = Some x \<Longrightarrow> k \<noteq> i \<Longrightarrow> i \<notin> set (m_deps x)"
    and wf': "queue_wf q'"
    using e queue_wf_delete [OF wf] by (auto simp: mq_dequeue_Inr [OF wf])
  have look: "map_of (missions q') = (map_of (missions q))(i := None)" by (simp add: q')
  have "mission_inv q' x" if x: "map_of (missions q') j = Some x" for j x
  proof -
    have j: "j \<noteq> i" "map_of (missions q) j = Some x" using x by (auto simp: look split: if_splits)
    then have "deps_completed q' x = deps_completed q x"
      using free [OF j(2,1)] by (auto simp: deps_completed_iff look)
    then show ?thesis using lifecycle_inv [OF inv j(2)] by (simp add: mission_inv_def q')
  qed
  moreover have "seqs_distinct q'"
    using lifecycle_seqs [OF inv] by (auto simp: seqs_distinct_def look)
  ultimately show ?thesis using wf' by (simp add: lifecycle_def)
qed

section \<open>Claiming\<close>

lemma in_eligible:
  assumes "queue_wf q"
  shows "m \<in> set (eligible q) \<longleftrightarrow> map_of (missions q) (m_id m) = Some m \<and>
     (m_state m = Pending \<or> m_state m = Retrying) \<and> deps_completed q m"
  using assms by (force simp: eligible_def queue_wf_def queue_ok_def)

lemma mq_claim_None: "fst (mq_claim q) = None \<longleftrightarrow> eligible q = []"
  by (auto simp: mq_claim_def Let_def split: list.splits)

lemma mq_claim_Some:
  assumes "mq_claim q = (Some m, q')"
  shows "\<exists>c \<in> set (eligible q). m = c\<lparr>m_state := Running\<rparr> \<and> q' = put_mission (m_id c) m q \<and>
     (\<forall>x \<in> set (eligible q). rank c \<le> rank x)"
proof -
  obtain c cs where c: "sort_key rank (eligible q) = c # cs"
    using assms by (auto simp: mq_claim_def split: list.splits)
  then have ne: "eligible q \<noteq> []" by (metis sort_eq_Nil list.distinct(1))
  have "m = c\<lparr>m_state := Running\<rparr>" "q' = put_mission (m_id c) m q"
    using assms c by (auto simp: mq_claim_def Let_def)
  then show ?thesis using hd_sort_key_least [OF ne, of rank] by (auto simp: c)
qed

lemma lifecycle_claim:
  assumes inv: "lifecycle q" and "mq_claim q = (r, q')"
  shows "lifecycle q'"
proof (cases r)
  case None
  then show ?thesis using assms by (auto simp: mq_claim_def Let_def split: list.splits)
next
  case (Some m)
  obtain c where c: "c \<in> set (eligible q)" "m = c\<lparr>m_state := Running\<rparr>"
      "q' = put_mission (m_id c) m q"
    using mq_claim_Some assms(2) Some by blast
  have e: "map_of (missions q) (m_id c) = Some c" "m_state c = Pending \<or> m_state c = Retrying"
      "deps_completed q c"
    using c(1) by (auto simp: in_eligible [OF lifecycle_wf [OF inv]])
  show ?thesis
    unfolding c(3) by (rule lifecycle_put [OF inv e(1)])
      (use e lifecycle_inv [OF inv e(1)] in \<open>auto simp: c(2) mission_inv_def deps_completed_def\<close>)
qed

section \<open>Recovery after a restart\<close>

definition requeue :: "mission \<Rightarrow> mission" where
  "requeue m = (if m_state m = Running then m\<lparr>m_state := Retrying\<rparr> else m)"

lemma requeue_simps [simp]:
  "m_id (requeue m) = m_id m" "m_deps (requeue m) = m_deps m" "m_seq (requeue m) = m_seq m"
  "m_attempts (requeue m) = m_attempts m" "m_retries (requeue m) = m_retries m"
  "m_state (requeue m) = Completed \<longleftrightarrow> m_state m = Completed"
  by (simp_all add: requeue_def)

definition requeued :: "queue \<Rightarrow> queue" where
  "requeued q = q\<lparr>missions := map (\<lambda>(k, m). (k, requeue m)) (missions q)\<rparr>"

lemma map_of_requeued: "map_of (missions (requeued q)) k = map_option requeue (map_of (missions q) k)"
  by (simp add: requeued_def map_of_map_snd)

lemma queue_wf_requeued: "queue_wf q \<Longrightarrow> queue_wf (requeued q)"
proof -
  assume wf: "queue_wf q"
  have keys: "map fst (missions (requeued q)) = map fst (missions q)"
    by (simp add: requeued_def comp_def case_prod_unfold)
  then have "fst ` set (missions (requeued q)) = fst ` set (missions q)" by (metis set_map)
  then have "dep_graph (missions (requeued q)) = dep_graph (missions q)"
    by (auto simp: dep_graph_def map_of_requeued)
  then show ?thesis using wf keys by (auto simp: queue_wf_def queue_ok_def) (auto simp: requeued_def)
qed

lemma lifecycle_requeued: "lifecycle q \<Longrightarrow> lifecycle (requeued q)"
proof -
  assume inv: "lifecycle q"
  have dc: "deps_completed (requeued q) x \<longleftrightarrow> deps_completed q x" for x
    by (auto simp: deps_completed_iff map_of_requeued)
  have dcr: "deps_completed q (requeue x) \<longleftrightarrow> deps_completed q x" for x
    by (simp add: deps_completed_def)
  have "mission_inv (requeued q) (requeue m)" if "map_of (missions q) i = Some m" for i m
    using lifecycle_inv [OF inv that]
    by (auto simp: mission_inv_def dc dcr) (auto simp: requeue_def requeued_def split: if_splits)
  moreover have "seqs_distinct (requeued q)"
    using lifecycle_seqs [OF inv] by (force simp: seqs_distinct_def map_of_requeued)
  ultimately show ?thesis
    using queue_wf_requeued [OF lifecycle_wf [OF inv]] by (auto simp: lifecycle_def map_of_requeued)
qed

lemma mq_recover_stale_eq:
  assumes "queue_wf q"
  shows "mq_recover_stale q =
    (let ids = map m_id (sort_key rank (filter (\<lambda>m. m_state m = Running) (map snd (missions q))))
     in if ids = [] then Inr ([], q) else Inr (ids, requeued q))"
proof -
  have "q\<lparr>missions := map (\<lambda>(k, m). (k, if m_state m = Running then m\<lparr>m_state := Retrying\<rparr> else m))
      (missions q)\<rparr> = requeued q"
    by (simp add: requeued_def requeue_def)
  then show ?thesis
    using queue_wf_requeued [OF assms] by (simp add: mq_recover_stale_def Let_def)
qed

section \<open>Operations as events on the file\<close>

datatype queue_op =
    Enqueue string int "string list" "int option"
  | Dequeue string
  | Claim
  | Recover
  | Complete string
  | Fail string
  | Retry string
  | Block string
  | Cancel string
  | Resume string

fun apply_op :: "int \<Rightarrow> queue_op \<Rightarrow> disk \<Rightarrow> queue_error + disk" where
  "apply_op dflt (Enqueue i p deps r) d = locked (mq_enqueue dflt i p deps r) d"
| "apply_op dflt (Dequeue i) d = locked (mq_dequeue i) d"
| "apply_op dflt Claim d = ebind (claim_file d) (\<lambda>(_, d'). Inr d')"
| "apply_op dflt Recover d = ebind (recover_stale_file d) (\<lambda>(_, d'). Inr d')"
| "apply_op dflt (Complete i) d = locked (mq_complete i) d"
| "apply_op dflt (Fail i) d = locked (mq_fail i) d"
| "apply_op dflt (Retry i) d = locked (mq_retry i) d"
| "apply_op dflt (Block i) d = locked (mq_block i) d"
| "apply_op dflt (Cancel i) d = locked (mq_cancel i) d"
| "apply_op dflt (Resume i) d = locked (mq_resume i) d"

text \<open>A file is reachable when a sequence of successful operations builds it from no file; an
  operation that raises leaves the file as it was.\<close>

inductive reachable_disk :: "int \<Rightarrow> disk \<Rightarrow> bool" for dflt where
  start: "reachable_disk dflt None"
| step: "reachable_disk dflt d \<Longrightarrow> apply_op dflt e d = Inr d' \<Longrightarrow> reachable_disk dflt d'"

fun run_ops :: "int \<Rightarrow> queue_op list \<Rightarrow> disk \<Rightarrow> queue_error + disk" where
  "run_ops dflt [] d = Inr d"
| "run_ops dflt (e # es) d = ebind (apply_op dflt e d) (run_ops dflt es)"

lemma run_ops_reachable:
  "reachable_disk dflt d \<Longrightarrow> run_ops dflt es d = Inr d' \<Longrightarrow> reachable_disk dflt d'"
  by (induction es arbitrary: d) (auto simp: err_simps intro: reachable_disk.step)

definition mission_at :: "disk \<Rightarrow> string \<Rightarrow> mission option" where
  "mission_at d i = (case load_queue d of Inl _ \<Rightarrow> None | Inr q \<Rightarrow> map_of (missions q) i)"

definition disk_ok :: "disk \<Rightarrow> bool" where
  "disk_ok d \<longleftrightarrow> (\<exists>q. load_queue d = Inr q \<and> lifecycle q)"

lemma load_saved: "lifecycle q \<Longrightarrow> load_queue (save_queue q) = Inr (stored q)"
  using lifecycle_wf by (simp add: load_queue_save queue_wf_def)

lemma disk_ok_saved: "lifecycle q \<Longrightarrow> disk_ok (save_queue q)"
  by (auto simp: disk_ok_def load_saved lifecycle_stored)

lemma mission_at_saved: "lifecycle q \<Longrightarrow> mission_at (save_queue q) = map_of (missions q)"
  by (rule ext) (simp add: mission_at_def load_saved map_of_stored_wf lifecycle_wf)

lemma mission_at_loaded: "load_queue d = Inr q \<Longrightarrow> mission_at d = map_of (missions q)"
  by (rule ext) (simp add: mission_at_def)

text \<open>The effect of an operation on the queue the file holds.\<close>

definition op_queue :: "int \<Rightarrow> queue_op \<Rightarrow> queue \<Rightarrow> queue_error + queue" where
  "op_queue dflt e q = (case e of
       Enqueue i p deps r \<Rightarrow> mq_enqueue dflt i p deps r q
     | Dequeue i \<Rightarrow> mq_dequeue i q
     | Claim \<Rightarrow> Inr (snd (mq_claim q))
     | Recover \<Rightarrow> ebind (mq_recover_stale q) (\<lambda>(_, q'). Inr q')
     | Complete i \<Rightarrow> mq_complete i q
     | Fail i \<Rightarrow> mq_fail i q
     | Retry i \<Rightarrow> mq_retry i q
     | Block i \<Rightarrow> mq_block i q
     | Cancel i \<Rightarrow> mq_cancel i q
     | Resume i \<Rightarrow> mq_resume i q)"

lemma lifecycle_op: "lifecycle q \<Longrightarrow> op_queue dflt e q = Inr q' \<Longrightarrow> lifecycle q'"
proof (cases e)
  case Claim
  assume "lifecycle q" "op_queue dflt e q = Inr q'"
  then show ?thesis using lifecycle_claim [of q "fst (mq_claim q)" q'] Claim
    by (cases "mq_claim q") (simp add: op_queue_def)
next
  case Recover
  assume a: "lifecycle q" "op_queue dflt e q = Inr q'"
  then show ?thesis
    using lifecycle_requeued [OF a(1)] Recover
    by (auto simp: op_queue_def mq_recover_stale_eq lifecycle_wf Let_def err_simps split: if_splits)
qed (auto simp: op_queue_def intro: lifecycle_enqueue lifecycle_dequeue lifecycle_complete
      lifecycle_fail lifecycle_block lifecycle_cancel lifecycle_resume simp: retry_never_succeeds)

lemma mq_claim_None_same: "mq_claim q = (None, q') \<Longrightarrow> q' = q"
  by (auto simp: mq_claim_def Let_def split: list.splits)

text \<open>An operation on the file is the operation on the loaded queue, seen through lookups.\<close>

lemma apply_op_queue:
  assumes "load_queue d = Inr q" and "lifecycle q" and "apply_op dflt e d = Inr d'"
  shows "\<exists>q'. op_queue dflt e q = Inr q' \<and> lifecycle q' \<and> disk_ok d' \<and>
     mission_at d' = map_of (missions q')"
proof -
  have saved: ?thesis if "op_queue dflt e q = Inr q'" "d' = save_queue q'" for q'
    using that lifecycle_op [OF assms(2) that(1)] disk_ok_saved mission_at_saved by auto
  have same: ?thesis if "op_queue dflt e q = Inr q" "d' = d"
    using that assms mission_at_loaded [OF assms(1)] by (auto simp: disk_ok_def)
  show ?thesis
  proof (cases e)
    case Claim
    show ?thesis
    proof (cases "mq_claim q")
      case (Pair r q')
      then show ?thesis
        using saved [of q'] same assms Claim mq_claim_None_same [of q q']
        by (cases r) (auto simp: claim_file_def op_queue_def)
    qed
  next
    case Recover
    then obtain ids q' where r: "mq_recover_stale q = Inr (ids, q')"
        "d' = (if ids = [] then d else save_queue q')"
      using assms by (auto simp: recover_stale_file_def err_simps)
    have "ids = [] \<Longrightarrow> q' = q"
      using r(1) by (auto simp: mq_recover_stale_eq lifecycle_wf [OF assms(2)] Let_def split: if_splits)
    then show ?thesis using saved [of q'] same r Recover by (cases "ids = []") (auto simp: op_queue_def)
  qed (use saved assms in \<open>auto simp: locked_def op_queue_def err_simps\<close>)
qed

lemma reachable_disk_ok: "reachable_disk dflt d \<Longrightarrow> disk_ok d"
proof (induction rule: reachable_disk.induct)
  case start
  show ?case using lifecycle_empty by (auto simp: disk_ok_def load_queue_def)
next
  case (step d e d')
  then show ?case using apply_op_queue by (metis disk_ok_def)
qed

lemma reachable_loads:
  assumes "reachable_disk dflt d"
  obtains q where "load_queue d = Inr q" and "lifecycle q" and "mission_at d = map_of (missions q)"
  using reachable_disk_ok [OF assms] mission_at_loaded by (auto simp: disk_ok_def)

text \<open>Runs evaluated on queues, with the file's normal form taken after every operation.\<close>

fun run_queue :: "int \<Rightarrow> queue_op list \<Rightarrow> queue \<Rightarrow> queue_error + queue" where
  "run_queue dflt [] q = Inr q"
| "run_queue dflt (e # es) q =
     ebind (op_queue dflt e q) (\<lambda>q'. run_queue dflt es (stored q'))"

lemma stored_stored: "queue_wf q \<Longrightarrow> stored (stored q) = stored q"
proof -
  assume wf: "queue_wf q"
  have *: "map (\<lambda>(k, m). (k, sort_deps m)) xs = xs" if "set xs \<subseteq> set (missions q)" for xs
    using that wf by (induction xs) (auto simp: queue_wf_def)
  then have "missions (stored q) = sort_key fst (missions q)" by (simp add: stored_def)
  moreover have "sort_key fst (sort_key fst (missions q)) = sort_key fst (missions q)"
    by (rule sort_key_id_if_sorted) (rule sorted_sort_key)
  ultimately show ?thesis using * by (simp add: stored_def)
qed

lemma op_queue_apply:
  assumes "load_queue d = Inr q" and "lifecycle q" and "stored q = q" and "op_queue dflt e q = Inr q'"
  shows "\<exists>d'. apply_op dflt e d = Inr d' \<and> load_queue d' = Inr (stored q')"
proof -
  have saved: "load_queue (save_queue q') = Inr (stored q')"
    using lifecycle_op [OF assms(2,4)] by (rule load_saved)
  show ?thesis
  proof (cases e)
    case Claim
    show ?thesis
    proof (cases "mq_claim q")
      case (Pair r q1)
      then show ?thesis
        using assms Claim saved mq_claim_None_same [of q q1]
        by (cases r) (auto simp: claim_file_def op_queue_def)
    qed
  next
    case Recover
    then obtain ids where r: "mq_recover_stale q = Inr (ids, q')"
      using assms(4) by (auto simp: op_queue_def err_simps)
    have "ids = [] \<Longrightarrow> q' = q"
      using r by (auto simp: mq_recover_stale_eq lifecycle_wf [OF assms(2)] Let_def split: if_splits)
    then show ?thesis
      using r saved assms(1,3) Recover by (cases "ids = []") (auto simp: recover_stale_file_def)
  qed (use assms saved in \<open>auto simp: locked_def op_queue_def\<close>)
qed

lemma run_queue_reaches:
  "reachable_disk dflt d \<Longrightarrow> load_queue d = Inr q \<Longrightarrow> lifecycle q \<Longrightarrow> stored q = q \<Longrightarrow>
     run_queue dflt es q = Inr q' \<Longrightarrow> \<exists>d'. reachable_disk dflt d' \<and> load_queue d' = Inr q'"
proof (induction es arbitrary: d q)
  case (Cons e es)
  then obtain q1 where q1: "op_queue dflt e q = Inr q1" "run_queue dflt es (stored q1) = Inr q'"
    by (auto simp: err_simps)
  obtain d1 where d1: "apply_op dflt e d = Inr d1" "load_queue d1 = Inr (stored q1)"
    using op_queue_apply [OF Cons.prems(2,3,4) q1(1)] by blast
  have l1: "lifecycle q1" using lifecycle_op [OF Cons.prems(3) q1(1)] .
  show ?case
    using reachable_disk.step [OF Cons.prems(1) d1(1)] d1(2) lifecycle_stored [OF l1]
      stored_stored [OF lifecycle_wf [OF l1]] q1(2)
    by (rule Cons.IH)
qed auto

lemma run_queue_reachable:
  "run_queue dflt es \<lparr>missions = [], next_seq = 1\<rparr> = Inr q \<Longrightarrow>
     \<exists>d. reachable_disk dflt d \<and> load_queue d = Inr q"
  by (rule run_queue_reaches [OF reachable_disk.start])
     (simp_all add: load_queue_def lifecycle_empty stored_def)

section \<open>The state machine of one mission\<close>

text \<open>The transitions the queue promises, independent of files and lists.\<close>

inductive allowed :: "mission_state \<Rightarrow> mission_state \<Rightarrow> bool" where
  claim: "s = Pending \<or> s = Retrying \<Longrightarrow> allowed s Running"
| recover: "allowed Running Retrying"
| complete: "allowed Running Completed"
| fail: "s = Retrying \<or> s = Failed \<Longrightarrow> allowed Running s"
| block: "s \<in> {Pending, Retrying, Running} \<Longrightarrow> allowed s Blocked"
| cancel: "s \<in> {Pending, Retrying, Running, Blocked} \<Longrightarrow> allowed s Cancelled"
| resume: "s \<in> {Blocked, Cancelled} \<Longrightarrow> allowed s Pending"

inductive_cases allowed_from_Completed: "allowed Completed s"
inductive_cases allowed_from_Failed: "allowed Failed s"

inductive_simps allowed_to_Cancelled: "allowed s Cancelled"

lemma cancel_guard: "m_state m \<notin> {Completed, Failed, Cancelled} \<Longrightarrow> allowed (m_state m) Cancelled"
  by (cases "m_state m") (auto simp: allowed_to_Cancelled)

lemma terminal_stuck: "\<not> allowed Completed s" "\<not> allowed Failed s"
  by (auto elim: allowed_from_Completed allowed_from_Failed)

text \<open>What one operation may do to the mission stored under a key.\<close>

definition fixed_fields :: "mission \<Rightarrow> string \<times> int \<times> string list \<times> int \<times> int" where
  "fixed_fields m = (m_id m, m_priority m, m_deps m, m_seq m, m_retries m)"

definition moves :: "mission option \<Rightarrow> mission option \<Rightarrow> bool" where
  "moves old new \<longleftrightarrow> (case (old, new) of
       (None, None) \<Rightarrow> True
     | (None, Some m) \<Rightarrow> m_state m = Pending \<and> m_attempts m = 0
     | (Some m, None) \<Rightarrow> m_state m \<noteq> Running
     | (Some m, Some m') \<Rightarrow> fixed_fields m' = fixed_fields m \<and>
         (m' = m \<or> allowed (m_state m) (m_state m')) \<and>
         m_attempts m' \<in> {m_attempts m, m_attempts m + 1})"

lemma moves_same [simp]: "moves old old"
  by (simp add: moves_def split: option.splits)

lemma op_queue_moves:
  assumes inv: "lifecycle q" and e: "op_queue dflt e q = Inr q'"
  shows "moves (map_of (missions q) i) (map_of (missions q') i)"
proof -
  note wf = lifecycle_wf [OF inv]
  have put: "moves (map_of (missions q) i) (map_of (missions (put_mission j m' q)) i)"
    if "map_of (missions q) j = Some m" "fixed_fields m' = fixed_fields m"
      "allowed (m_state m) (m_state m')" "m_attempts m' \<in> {m_attempts m, m_attempts m + 1}" for j m m'
    using that by (cases "i = j") (auto simp: moves_def)
  show ?thesis
  proof (cases e)
    case (Enqueue j p deps r)
    then have "map_of (missions q) j = None" "missions q' = AList.update j (new_mission dflt j p deps r q) (missions q)"
      using e by (auto simp: op_queue_def mq_enqueue_Inr map_of_eq_None_iff)
    then show ?thesis by (cases "i = j") (auto simp: moves_def new_mission_def)
  next
    case (Dequeue j)
    then show ?thesis
      using e by (cases "i = j") (auto simp: op_queue_def mq_dequeue_Inr [OF wf] moves_def)
  next
    case Claim
    show ?thesis
    proof (cases "mq_claim q")
      case (Pair r q1)
      then have q1: "q1 = q'" using e Claim by (simp add: op_queue_def)
      show ?thesis
      proof (cases r)
        case None
        then show ?thesis using mq_claim_None_same [of q q1] Pair q1 by simp
      next
        case (Some m)
        then obtain c where c: "c \<in> set (eligible q)" "m = c\<lparr>m_state := Running\<rparr>"
            "q' = put_mission (m_id c) m q"
          using mq_claim_Some [of q m q1] Pair q1 by blast
        then have "map_of (missions q) (m_id c) = Some c" "m_state c = Pending \<or> m_state c = Retrying"
          by (simp_all add: in_eligible [OF wf])
        then show ?thesis
          unfolding c(3) by (intro put) (auto simp: c(2) fixed_fields_def intro: allowed.intros)
      qed
    qed
  next
    case Recover
    then have "q' = q \<or> q' = requeued q"
      using e by (auto simp: op_queue_def mq_recover_stale_eq [OF wf] Let_def err_simps split: if_splits)
    then show ?thesis
      by (auto simp: map_of_requeued moves_def requeue_def fixed_fields_def
          allowed.recover split: option.splits)
  next
    case (Retry j)
    then show ?thesis using e retry_never_succeeds [OF inv] by (simp add: op_queue_def)
  qed (use e in \<open>auto simp: op_queue_def mq_put_simps [OF wf] err_simps fixed_fields_def
        split: if_splits intro!: put intro: allowed.intros cancel_guard\<close>)
qed

section \<open>Properties\<close>

text \<open>C6: No mission runs, waits for a retry, or has finished unless every mission it depends on
  exists and is completed, in every queue file the operations can build.\<close>

theorem dependency_safety:
  assumes "reachable_disk dflt d" and "mission_at d i = Some m"
    and "m_state m \<in> {Running, Retrying, Completed, Failed}" and "dep \<in> set (m_deps m)"
  shows "\<exists>x. mission_at d dep = Some x \<and> m_state x = Completed"
proof -
  obtain q where q: "lifecycle q" "mission_at d = map_of (missions q)"
    using reachable_loads [OF assms(1)] .
  then have "deps_completed q m" using lifecycle_inv [OF q(1), of i m] assms by (auto simp: mission_inv_def)
  then show ?thesis using assms(4) q(2) by (simp add: deps_completed_iff)
qed

text \<open>A small run used by the witnesses: \<open>deploy\<close> depends on \<open>build\<close>, which is completed first.
  The run is evaluated on the loaded queues and carried over to the files.\<close>

definition demo_ops :: "queue_op list" where
  "demo_ops = [Enqueue ''build'' 5 [] (Some 1), Enqueue ''deploy'' 9 [''build''] None,
     Claim, Complete ''build'', Claim]"

definition demo_build :: mission where
  "demo_build = \<lparr>m_id = ''build'', m_priority = 5, m_deps = [], m_state = Completed,
     m_seq = 1, m_attempts = 0, m_retries = 1\<rparr>"

definition demo_deploy :: mission where
  "demo_deploy = \<lparr>m_id = ''deploy'', m_priority = 9, m_deps = [''build''], m_state = Running,
     m_seq = 2, m_attempts = 0, m_retries = 0\<rparr>"

definition demo_queue :: queue where
  "demo_queue = \<lparr>missions = [(''build'', demo_build), (''deploy'', demo_deploy)], next_seq = 3\<rparr>"

lemma demo_queue_run: "run_queue 0 demo_ops \<lparr>missions = [], next_seq = 1\<rparr> = Inr demo_queue"
  by code_simp

lemma demo_reachable:
  obtains d where "reachable_disk 0 d" and "load_queue d = Inr demo_queue"
    and "mission_at d ''build'' = Some demo_build" and "mission_at d ''deploy'' = Some demo_deploy"
proof -
  obtain d where d: "reachable_disk 0 d" "load_queue d = Inr demo_queue"
    using run_queue_reachable [OF demo_queue_run] by blast
  then show ?thesis using that mission_at_loaded [OF d(2)] by (simp add: demo_queue_def)
qed

lemma demo_fail:
  assumes "load_queue d = Inr demo_queue"
  shows "\<exists>d'. apply_op 0 (Fail ''deploy'') d = Inr d'"
proof -
  have "is_ok (op_queue 0 (Fail ''deploy'') demo_queue)" by code_simp
  then show ?thesis using assms by (auto simp: locked_def op_queue_def err_simps)
qed

theorem dependency_safety_witness:
  "\<exists>d. reachable_disk 0 d \<and> mission_at d ''deploy'' = Some demo_deploy \<and>
     (\<exists>x. mission_at d ''build'' = Some x \<and> m_state x = Completed)"
proof -
  obtain d where d: "reachable_disk 0 d" "mission_at d ''deploy'' = Some demo_deploy"
    using demo_reachable by blast
  have "\<exists>x. mission_at d ''build'' = Some x \<and> m_state x = Completed"
    by (rule dependency_safety [OF d]) (simp_all add: demo_deploy_def)
  with d show ?thesis by blast
qed



text \<open>Completed and failed missions are never executed again: once a mission is in one of
  these states, no operation changes its state; it can only be removed.\<close>

theorem terminal_states_are_final:
  assumes "reachable_disk dflt d" and "apply_op dflt e d = Inr d'"
    and "mission_at d i = Some m" and "m_state m \<in> {Completed, Failed}"
  shows "mission_at d' i \<in> {None, Some m}"
proof -
  obtain q where q: "load_queue d = Inr q" "lifecycle q" "mission_at d = map_of (missions q)"
    using reachable_loads [OF assms(1)] .
  obtain q' where "op_queue dflt e q = Inr q'" "mission_at d' = map_of (missions q')"
    using apply_op_queue [OF q(1,2) assms(2)] by blast
  then have "moves (Some m) (mission_at d' i)" using op_queue_moves [OF q(2)] q(3) assms(3) by metis
  then show ?thesis using assms(4) terminal_stuck by (auto simp: moves_def split: option.splits)
qed

theorem terminal_states_are_final_witness:
  "\<exists>d d'. reachable_disk 0 d \<and> apply_op 0 (Fail ''deploy'') d = Inr d' \<and>
     mission_at d' ''build'' \<in> {None, Some demo_build}"
proof -
  obtain d where d: "reachable_disk 0 d" "load_queue d = Inr demo_queue"
      "mission_at d ''build'' = Some demo_build"
    using demo_reachable by blast
  obtain d' where d': "apply_op 0 (Fail ''deploy'') d = Inr d'" using demo_fail [OF d(2)] by blast
  have "m_state demo_build \<in> {Completed, Failed}" by (simp add: demo_build_def)
  then show ?thesis using terminal_states_are_final [OF d(1) d' d(3)] d(1) d' by blast
qed

lemma claim_file_best:
  assumes "disk_ok d" and "claim_file d = Inr (Some md, d')"
  shows "disk_ok d' \<and> (\<exists>c. mission_at d (m_id c) = Some c \<and> m_state c \<in> {Pending, Retrying} \<and>
     (\<forall>dep \<in> set (m_deps c). map_option m_state (mission_at d dep) = Some Completed) \<and>
     md = to_dict (c\<lparr>m_state := Running\<rparr>) \<and>
     mission_at d' = (mission_at d)(m_id c \<mapsto> c\<lparr>m_state := Running\<rparr>) \<and>
     (\<forall>i x. mission_at d i = Some x \<longrightarrow> m_state x \<in> {Pending, Retrying} \<longrightarrow>
        (\<forall>dep \<in> set (m_deps x). map_option m_state (mission_at d dep) = Some Completed) \<longrightarrow>
        rank c \<le> rank x))"
proof -
  obtain q where q: "load_queue d = Inr q" "lifecycle q" "mission_at d = map_of (missions q)"
    using assms(1) mission_at_loaded by (auto simp: disk_ok_def)
  note wf = lifecycle_wf [OF q(2)]
  obtain m q' where c': "mq_claim q = (Some m, q')" "md = to_dict m" "d' = save_queue q'"
    using assms(2) q(1) by (auto simp: claim_file_def split: prod.splits option.splits)
  obtain c where c: "c \<in> set (eligible q)" "m = c\<lparr>m_state := Running\<rparr>" "q' = put_mission (m_id c) m q"
      "\<forall>x \<in> set (eligible q). rank c \<le> rank x"
    using mq_claim_Some [OF c'(1)] by blast
  have at: "mission_at d' = map_of (missions q')"
    unfolding c'(3) using lifecycle_claim [OF q(2) c'(1)] by (rule mission_at_saved)
  have best: "rank c \<le> rank x"
    if x: "map_of (missions q) i = Some x" "m_state x \<in> {Pending, Retrying}"
      "\<forall>dep \<in> set (m_deps x). map_option m_state (map_of (missions q) dep) = Some Completed" for i x
  proof -
    have "x \<in> set (eligible q)"
      using x queue_wfD(1) [OF wf x(1)] by (auto simp: in_eligible [OF wf] deps_completed_iff)
    then show ?thesis using c(4) by blast
  qed
  have deps: "\<forall>dep \<in> set (m_deps c). map_option m_state (map_of (missions q) dep) = Some Completed"
    using c(1) by (auto simp: in_eligible [OF wf] deps_completed_iff)
  have "disk_ok d'"
    unfolding c'(3) using lifecycle_claim [OF q(2) c'(1)] by (rule disk_ok_saved)
  then show ?thesis
    unfolding q(3) at using c best deps c'(2) in_eligible [OF wf, of c] by (intro conjI exI [of _ c]) simp_all
qed

end
