(* ===== verification/MissionGuarantees.thy ===== *)
theory MissionGuarantees
  imports MissionLifecycle
begin

text \<open>
  Further guarantees of the mission queue over the files its operations can build: claims are
  exclusive, retries are bounded, enqueueing rejects exactly the cyclic graphs, recovery
  re-queues exactly the interrupted missions, and a queue with work left and nothing stopped
  always has a claimable mission.
\<close>

section \<open>Claims are exclusive\<close>

text \<open>The operations that may take a running mission out of the running state.\<close>

definition releases :: "queue_op \<Rightarrow> string \<Rightarrow> bool" where
  "releases e i = (e \<in> {Recover, Complete i, Fail i, Block i, Cancel i})"

lemma op_queue_frame:
  assumes inv: "lifecycle q" and e: "op_queue dflt e q = Inr q'"
    and m: "map_of (missions q) i = Some m" "m_state m = Running" and keep: "\<not> releases e i"
  shows "map_of (missions q') i = Some m"
proof -
  note wf = lifecycle_wf [OF inv]
  show ?thesis
  proof (cases e)
    case (Enqueue j p deps r)
    then show ?thesis
      using e m by (auto simp: op_queue_def mq_enqueue_Inr map_of_eq_None_iff [symmetric])
  next
    case (Dequeue j)
    then show ?thesis using e m by (auto simp: op_queue_def mq_dequeue_Inr [OF wf])
  next
    case Claim
    show ?thesis
    proof (cases "mq_claim q")
      case (Pair r q1)
      then have q1: "q1 = q'" using e Claim by (simp add: op_queue_def)
      show ?thesis
      proof (cases r)
        case None
        then show ?thesis using mq_claim_None_same [of q q1] Pair q1 m by simp
      next
        case (Some n)
        then obtain c where c: "c \<in> set (eligible q)" "q' = put_mission (m_id c) n q"
          using mq_claim_Some [of q n q1] Pair q1 by blast
        then have "m_id c \<noteq> i" using m by (auto simp: in_eligible [OF wf])
        then show ?thesis using c(2) m by simp
      qed
    qed
  next
    case (Retry j)
    then show ?thesis using e retry_never_succeeds [OF inv] by (simp add: op_queue_def)
  qed (use e m keep in \<open>auto simp: op_queue_def mq_put_simps [OF wf] err_simps releases_def
        split: if_splits\<close>)
qed

lemma run_ops_frame:
  "reachable_disk dflt d \<Longrightarrow> run_ops dflt es d = Inr d' \<Longrightarrow> mission_at d i = Some m \<Longrightarrow>
     m_state m = Running \<Longrightarrow> (\<forall>e \<in> set es. \<not> releases e i) \<Longrightarrow> mission_at d' i = Some m"
proof (induction es arbitrary: d)
  case (Cons e es)
  then obtain d1 where d1: "apply_op dflt e d = Inr d1" "run_ops dflt es d1 = Inr d'"
    by (auto simp: err_simps)
  obtain q where q: "load_queue d = Inr q" "lifecycle q" "mission_at d = map_of (missions q)"
    using reachable_loads [OF Cons.prems(1)] .
  obtain q' where q': "op_queue dflt e q = Inr q'" "mission_at d1 = map_of (missions q')"
    using apply_op_queue [OF q(1,2) d1(1)] by blast
  have "mission_at d1 i = Some m"
    using op_queue_frame [OF q(2) q'(1)] q(3) q'(2) Cons.prems(3,4,5) by simp
  then show ?case
    using Cons.IH [OF reachable_disk.step [OF Cons.prems(1) d1(1)] d1(2)] Cons.prems(4,5) by simp
qed simp

text \<open>C19: A claimed mission is never handed to a second worker: after any further operations that
  do not complete, fail, block, cancel or recover it, no claim returns it again.\<close>

theorem claim_exclusive:
  assumes "reachable_disk dflt d" and "claim_file d = Inr (Some md, d1)"
    and "run_ops dflt es d1 = Inr d2" and "claim_file d2 = Inr (Some md', d3)"
    and "\<forall>e \<in> set es. \<forall>i. dget md ''id'' = PStr i \<longrightarrow> \<not> releases e i"
  shows "dget md' ''id'' \<noteq> dget md ''id''"
proof
  assume same: "dget md' ''id'' = dget md ''id''"
  have d1: "reachable_disk dflt d1"
    using assms(2) by (intro reachable_disk.step [OF assms(1), of Claim]) simp
  have d2: "reachable_disk dflt d2" using run_ops_reachable [OF d1 assms(3)] .
  obtain c where c: "md = to_dict (c\<lparr>m_state := Running\<rparr>)"
      "mission_at d1 (m_id c) = Some (c\<lparr>m_state := Running\<rparr>)"
    using claim_file_best [OF reachable_disk_ok [OF assms(1)] assms(2)] by auto
  have id: "dget md ''id'' = PStr (m_id c)" by (simp add: c(1) to_dict_def dget_def)
  have "mission_at d2 (m_id c) = Some (c\<lparr>m_state := Running\<rparr>)"
    by (rule run_ops_frame [OF d1 assms(3) c(2)]) (use assms(5) id in auto)
  moreover obtain c' where c': "mission_at d2 (m_id c') = Some c'" "m_state c' \<in> {Pending, Retrying}"
      "md' = to_dict (c'\<lparr>m_state := Running\<rparr>)"
    using claim_file_best [OF reachable_disk_ok [OF d2] assms(4)] by auto
  moreover have "m_id c' = m_id c" using same id by (simp add: c'(3) to_dict_def dget_def)
  ultimately show False by auto
qed

text \<open>A run with two independent missions, both claimed.\<close>

definition pair_ops :: "queue_op list" where
  "pair_ops = [Enqueue ''a'' 1 [] None, Enqueue ''b'' 1 [] None]"

definition pair_mission :: "string \<Rightarrow> int \<Rightarrow> mission" where
  "pair_mission i n = \<lparr>m_id = i, m_priority = 1, m_deps = [], m_state = Pending,
     m_seq = n, m_attempts = 0, m_retries = 0\<rparr>"

definition pair_queue :: queue where
  "pair_queue = \<lparr>missions = [(''a'', pair_mission ''a'' 1), (''b'', pair_mission ''b'' 2)], next_seq = 3\<rparr>"

lemma pair_queue_run: "run_queue 0 pair_ops \<lparr>missions = [], next_seq = 1\<rparr> = Inr pair_queue"
  by code_simp

lemma claim_file_loaded:
  assumes "load_queue d = Inr q" and "mq_claim q = (Some m, q')" and "lifecycle q"
  shows "claim_file d = Inr (Some (to_dict m), save_queue q')"
    and "load_queue (save_queue q') = Inr (stored q')"
  using assms lifecycle_claim [of q "Some m" q'] load_saved by (simp_all add: claim_file_def)

lemma pair_claims:
  obtains d md d1 md' d3 where "reachable_disk 0 d" and "load_queue d = Inr pair_queue"
    and "claim_file d = Inr (Some md, d1)" and "claim_file d1 = Inr (Some md', d3)"
proof -
  obtain d where d: "reachable_disk 0 d" "load_queue d = Inr pair_queue"
    using run_queue_reachable [OF pair_queue_run] by blast
  obtain q where q: "load_queue d = Inr q" "lifecycle q" using reachable_loads [OF d(1)] by blast
  then have inv: "lifecycle pair_queue" using d(2) by simp
  obtain m q1 where c1: "mq_claim pair_queue = (Some m, q1)"
  proof (cases "mq_claim pair_queue")
    case (Pair r q1)
    moreover have "fst (mq_claim pair_queue) \<noteq> None" by code_simp
    ultimately show ?thesis using that by auto
  qed
  have "fst (mq_claim (stored (snd (mq_claim pair_queue)))) \<noteq> None" by code_simp
  then obtain m' q2 where c2: "mq_claim (stored q1) = (Some m', q2)"
    using c1 by (cases "mq_claim (stored q1)") auto
  have inv1: "lifecycle (stored q1)" using lifecycle_claim [OF inv c1] by (rule lifecycle_stored)
  note f1 = claim_file_loaded [OF d(2) c1 inv]
  note f2 = claim_file_loaded(1) [OF f1(2) c2 inv1]
  show ?thesis using that [OF d f1(1) f2] .
qed

theorem claim_exclusive_witness:
  "\<exists>d md d1 md' d3. reachable_disk 0 d \<and> claim_file d = Inr (Some md, d1) \<and>
     claim_file d1 = Inr (Some md', d3) \<and> dget md' ''id'' \<noteq> dget md ''id''"
proof -
  obtain d md d1 md' d3 where c: "reachable_disk 0 d" "claim_file d = Inr (Some md, d1)"
      "claim_file d1 = Inr (Some md', d3)"
    by (rule pair_claims)
  have "dget md' ''id'' \<noteq> dget md ''id''"
    by (rule claim_exclusive [OF c(1,2) _ c(3), of "[]"]) simp_all
  then show ?thesis using c by blast
qed

section \<open>Retries\<close>

text \<open>C29: In no queue file the operations can build does \<open>retry\<close> succeed: \<open>fail\<close> leaves a mission
  in the failed state only when its budget is exhausted, so the manual override of the
  \<open>retry\<close> method always raises.\<close>

theorem manual_retry_always_raises:
  assumes "reachable_disk dflt d"
  shows "\<exists>e. apply_op dflt (Retry i) d = Inl e \<and> e \<in> {UnknownMission i, RetryNotFailed, NoRetryLeft}"
proof -
  obtain q where q: "load_queue d = Inr q" "lifecycle q" using reachable_loads [OF assms] by blast
  then show ?thesis
    using lifecycle_inv [OF q(2), of i]
    by (cases "map_of (missions q) i")
       (auto simp: locked_def mq_retry_eq [OF lifecycle_wf] get_mission_def mission_inv_def)
qed

theorem manual_retry_always_raises_witness:
  "\<exists>d e. reachable_disk 0 d \<and> apply_op 0 (Retry ''build'') d = Inl e \<and>
     e \<in> {UnknownMission ''build'', RetryNotFailed, NoRetryLeft}"
  using demo_reachable manual_retry_always_raises by metis

text \<open>C28: A mission fails at most \<open>max_retries + 1\<close> times (once, when the limit is not positive):
  the stored attempt counter never exceeds that bound, and as long as the mission is not in
  the failed state it is within the limit itself.\<close>

theorem attempts_bounded:
  assumes "reachable_disk dflt d" and "mission_at d i = Some m"
  shows "0 \<le> m_attempts m \<and> m_attempts m \<le> max 0 (m_retries m) + (if m_state m = Failed then 1 else 0)"
proof -
  obtain q where q: "lifecycle q" "mission_at d = map_of (missions q)" using reachable_loads [OF assms(1)] .
  then have "mission_inv q m" using lifecycle_inv [OF q(1)] assms(2) by simp
  then show ?thesis by (auto simp: mission_inv_def)
qed

theorem attempts_bounded_witness:
  "\<exists>d. reachable_disk 0 d \<and> mission_at d ''deploy'' = Some demo_deploy \<and>
     0 \<le> m_attempts demo_deploy \<and> m_attempts demo_deploy \<le> max 0 (m_retries demo_deploy)
       + (if m_state demo_deploy = Failed then 1 else 0)"
  using demo_reachable attempts_bounded by metis

end
