(* ===== verification/MissionProgress.thy ===== *)
theory MissionProgress
  imports MissionGuarantees
begin

text \<open>
  What the queue makes happen: which mission a claim takes, which enqueue requests are accepted,
  what recovery after a restart does, and that a queue with unfinished work and nothing stopped
  always has a claimable mission.
\<close>

section \<open>Claiming\<close>

text \<open>C23: A successful claim returns a runnable mission of the highest rank (priority first, then
  creation order), marks exactly that mission running in the file, and changes nothing else.\<close>

theorem claim_takes_best:
  assumes "reachable_disk dflt d" and "claim_file d = Inr (Some md, d')"
  shows "\<exists>c. mission_at d (m_id c) = Some c \<and> m_state c \<in> {Pending, Retrying} \<and>
     (\<forall>dep \<in> set (m_deps c). map_option m_state (mission_at d dep) = Some Completed) \<and>
     md = to_dict (c\<lparr>m_state := Running\<rparr>) \<and>
     mission_at d' = (mission_at d)(m_id c \<mapsto> c\<lparr>m_state := Running\<rparr>) \<and>
     (\<forall>i x. mission_at d i = Some x \<longrightarrow> m_state x \<in> {Pending, Retrying} \<longrightarrow>
        (\<forall>dep \<in> set (m_deps x). map_option m_state (mission_at d dep) = Some Completed) \<longrightarrow>
        rank c \<le> rank x)"
  using claim_file_best [OF reachable_disk_ok [OF assms(1)] assms(2)] by blast

lemma pair_reachable:
  obtains d where "reachable_disk 0 d" and "load_queue d = Inr pair_queue"
  using run_queue_reachable [OF pair_queue_run] by blast

lemma pair_claim:
  assumes "load_queue d = Inr pair_queue" and "reachable_disk 0 d"
  shows "\<exists>md d'. claim_file d = Inr (Some md, d')"
proof -
  have inv: "lifecycle pair_queue" using assms reachable_loads by (metis sum.inject(2))
  have "fst (mq_claim pair_queue) \<noteq> None" by code_simp
  then obtain m q where "mq_claim pair_queue = (Some m, q)" by (metis fst_eqD not_None_eq surj_pair)
  then show ?thesis using claim_file_loaded(1) [OF assms(1) _ inv] by blast
qed

theorem claim_takes_best_witness:
  "\<exists>d md d' c. reachable_disk 0 d \<and> claim_file d = Inr (Some md, d') \<and>
     mission_at d (m_id c) = Some c \<and> md = to_dict (c\<lparr>m_state := Running\<rparr>)"
proof -
  obtain d where d: "reachable_disk 0 d" "load_queue d = Inr pair_queue" by (rule pair_reachable)
  obtain md d' where c: "claim_file d = Inr (Some md, d')" using pair_claim [OF d(2,1)] by blast
  show ?thesis using claim_takes_best [OF d(1) c] d(1) c by blast
qed

section \<open>Accepting missions\<close>

text \<open>The graph the file's missions declare, dependencies on unknown missions included.\<close>

definition declared :: "(string \<Rightarrow> mission option) \<Rightarrow> (string \<times> string) set" where
  "declared at = {(u, v). \<exists>m. at u = Some m \<and> v \<in> set (m_deps m)}"

lemma trancl_restrict_targets:
  "(x, y) \<in> R\<^sup>+ \<Longrightarrow> y \<in> Domain R \<Longrightarrow> (x, y) \<in> (R \<inter> UNIV \<times> Domain R)\<^sup>+"
proof (induction rule: trancl_induct)
  case (step y z)
  then have "(x, y) \<in> (R \<inter> UNIV \<times> Domain R)\<^sup>+" by blast
  moreover have "(y, z) \<in> R \<inter> UNIV \<times> Domain R" using step by blast
  ultimately show ?case by (rule trancl_into_trancl)
qed blast

text \<open>Dependencies on missions the queue does not know lie on no cycle.\<close>

lemma acyclic_declared: "acyclic (dep_graph ms) \<longleftrightarrow> acyclic (declared (map_of ms))"
proof
  let ?R = "declared (map_of ms)"
  have sub: "dep_graph ms \<subseteq> ?R" by (auto simp: dep_graph_def declared_def)
  then show "acyclic (dep_graph ms)" if "acyclic ?R" using that acyclic_subset by blast
  have known: "map_of ms v = Some x \<Longrightarrow> v \<in> fst ` set ms" for v x
    by (metis domI dom_map_of_conv_image_fst)
  then have res: "?R \<inter> UNIV \<times> Domain ?R \<subseteq> dep_graph ms"
    unfolding dep_graph_def declared_def by blast
  show "acyclic ?R" if a: "acyclic (dep_graph ms)"
    unfolding acyclic_def
  proof
    fix x show "(x, x) \<notin> ?R\<^sup>+"
    proof
      assume xx: "(x, x) \<in> ?R\<^sup>+"
      then have "x \<in> Domain ?R" by (metis trancl_domain DomainI)
      from trancl_restrict_targets [OF xx this] have "(x, x) \<in> (dep_graph ms)\<^sup>+"
        using trancl_mono [OF _ res] by blast
      then show False using a by (simp add: acyclic_def)
    qed
  qed
qed

lemma locked_ok: "load_queue d = Inr q \<Longrightarrow> is_ok (locked f d) \<longleftrightarrow> is_ok (f q)"
  by (auto simp: locked_def err_simps)

text \<open>C24: Enqueueing succeeds exactly when the id is new and the dependencies of the new mission,
  together with those already declared, contain no cycle; unknown dependencies are allowed.\<close>

theorem enqueue_accepts_exactly:
  assumes "reachable_disk dflt d"
  shows "is_ok (apply_op dflt (Enqueue i p deps r) d) \<longleftrightarrow> mission_at d i = None \<and>
     acyclic (declared (mission_at d) \<union> {i} \<times> set deps)"
proof -
  obtain q where q: "load_queue d = Inr q" "lifecycle q" "mission_at d = map_of (missions q)"
    using reachable_loads [OF assms] .
  note wf = lifecycle_wf [OF q(2)]
  let ?ms = "AList.update i (new_mission dflt i p deps r q) (missions q)"
  have dist: "distinct (map fst ?ms)" using queue_wf_distinct [OF wf] by simp
  have "is_ok (apply_op dflt (Enqueue i p deps r) d) \<longleftrightarrow> is_ok (mq_enqueue dflt i p deps r q)"
    using locked_ok [OF q(1)] by simp
  also have "\<dots> \<longleftrightarrow> i \<notin> fst ` set (missions q) \<and> validate_no_cycles ?ms = Inr ()"
    by (auto simp: is_ok_iff mq_enqueue_Inr)
  also have "\<dots> \<longleftrightarrow> i \<notin> fst ` set (missions q) \<and> acyclic (declared (map_of ?ms))"
    by (simp add: validate_no_cycles_iff [OF dist] acyclic_declared)
  also have "\<dots> \<longleftrightarrow> mission_at d i = None \<and> acyclic (declared (mission_at d) \<union> {i} \<times> set deps)"
  proof -
    have "declared (map_of ?ms) = declared (map_of (missions q)) \<union> {i} \<times> set deps"
      if "map_of (missions q) i = None"
      using that by (auto simp: declared_def new_mission_def split: if_splits)
    then show ?thesis by (auto simp: q(3) map_of_eq_None_iff)
  qed
  finally show ?thesis .
qed

theorem enqueue_accepts_exactly_witness:
  "is_ok (apply_op 0 (Enqueue ''a'' 1 [''later''] None) None) \<longleftrightarrow> mission_at None ''a'' = None \<and>
     acyclic (declared (mission_at None) \<union> {''a''} \<times> set [''later''])"
  by (rule enqueue_accepts_exactly [OF reachable_disk.start])

section \<open>Recovery after a restart\<close>

lemma recovered_ids:
  assumes wf: "queue_wf q"
  shows "set (map m_id (sort_key rank (filter (\<lambda>m. m_state m = Running) (map snd (missions q)))))
      = {i. \<exists>m. map_of (missions q) i = Some m \<and> m_state m = Running}"
proof -
  have ids: "(k, m) \<in> set (missions q) \<Longrightarrow> m_id m = k" for k m
    using wf by (auto simp: queue_wf_def queue_ok_def)
  have look: "map_of (missions q) k = Some m \<longleftrightarrow> (k, m) \<in> set (missions q)" for k m
    using queue_wf_distinct [OF wf] by (auto simp: map_of_eq_Some_iff)
  show ?thesis using ids by (force simp: look)
qed

lemma requeue_fresh: "m_state m \<noteq> Running \<Longrightarrow> requeue m = m"
  by (simp add: requeue_def)

lemma recover_file_effect:
  assumes "disk_ok d"
  obtains ids d' where "recover_stale_file d = Inr (ids, d')" and "disk_ok d'"
    and "set ids = {i. \<exists>m. mission_at d i = Some m \<and> m_state m = Running}"
    and "mission_at d' = (\<lambda>i. map_option requeue (mission_at d i))"
proof -
  obtain q where q: "load_queue d = Inr q" "lifecycle q" "mission_at d = map_of (missions q)"
    using assms mission_at_loaded by (auto simp: disk_ok_def)
  note wf = lifecycle_wf [OF q(2)]
  let ?ids = "map m_id (sort_key rank (filter (\<lambda>m. m_state m = Running) (map snd (missions q))))"
  have set: "set ?ids = {i. \<exists>m. map_of (missions q) i = Some m \<and> m_state m = Running}"
    by (rule recovered_ids [OF wf])
  have at: "map_of (missions (requeued q)) = (\<lambda>i. map_option requeue (map_of (missions q) i))"
    by (rule ext) (rule map_of_requeued)
  have fresh: "map_option requeue (map_of (missions q) i) = map_of (missions q) i" if "?ids = []" for i
    using that set by (cases "map_of (missions q) i") (auto simp: requeue_fresh)
  let ?d = "if ?ids = [] then d else save_queue (requeued q)"
  have rec: "recover_stale_file d = Inr (?ids, ?d)"
    by (simp add: recover_stale_file_def q(1) mq_recover_stale_eq [OF wf] Let_def)
  have "mission_at ?d = (\<lambda>i. map_option requeue (mission_at d i))"
    using fresh mission_at_saved [OF lifecycle_requeued [OF q(2)]] at by (auto simp: q(3))
  moreover have "disk_ok ?d" using assms disk_ok_saved [OF lifecycle_requeued [OF q(2)]] by simp
  ultimately show ?thesis using that [OF rec] set unfolding q(3) by blast
qed

text \<open>C27: Recovery after a restart always succeeds: it reports exactly the missions that were running,
  puts each of them back as retrying with its attempt counter untouched, and leaves every
  other mission as it was.\<close>

theorem recovery_requeues_exactly_running:
  assumes "reachable_disk dflt d"
  shows "\<exists>ids d'. recover_stale_file d = Inr (ids, d') \<and>
     set ids = {i. \<exists>m. mission_at d i = Some m \<and> m_state m = Running} \<and>
     mission_at d' = (\<lambda>i. map_option (\<lambda>m. if m_state m = Running then m\<lparr>m_state := Retrying\<rparr> else m)
       (mission_at d i))"
  by (rule recover_file_effect [OF reachable_disk_ok [OF assms]], unfold requeue_def [abs_def])
    (intro exI conjI)

theorem recovery_requeues_exactly_running_witness:
  "\<exists>d ids d'. reachable_disk 0 d \<and> recover_stale_file d = Inr (ids, d') \<and> set ids = {''deploy''}"
proof -
  obtain d where d: "reachable_disk 0 d" "load_queue d = Inr demo_queue" using demo_reachable by blast
  have "{i. \<exists>m. mission_at d i = Some m \<and> m_state m = Running} = {''deploy''}"
    unfolding mission_at_loaded [OF d(2)]
    by (auto simp: demo_queue_def demo_build_def demo_deploy_def split: if_splits)
  then show ?thesis using recovery_requeues_exactly_running [OF d(1)] d(1) by metis
qed

section \<open>Progress\<close>

lemma finite_dep_graph: "finite (dep_graph ms)"
proof -
  have "dep_graph ms \<subseteq> fst ` set ms \<times> fst ` set ms"
    by (auto simp: dep_graph_def) (metis domI dom_map_of_conv_image_fst)
  then show ?thesis by (rule finite_subset) simp
qed

text \<open>Among the missions with a property there is one none of whose dependencies has it.\<close>

lemma first_mission:
  assumes "acyclic (dep_graph ms)" and "map_of ms i = Some m" and "P m"
  obtains j n where "map_of ms j = Some n" and "P n"
    and "\<And>d x. d \<in> set (m_deps n) \<Longrightarrow> map_of ms d = Some x \<Longrightarrow> \<not> P x"
proof -
  have wf: "wf ((dep_graph ms)\<inverse>)"
    using finite_dep_graph assms(1) by (rule finite_acyclic_wf_converse)
  define S where "S = {k. \<exists>x. map_of ms k = Some x \<and> P x}"
  have "i \<in> S" using assms(2,3) by (auto simp: S_def)
  then obtain j where j: "j \<in> S" "\<And>d. (d, j) \<in> (dep_graph ms)\<inverse> \<Longrightarrow> d \<notin> S"
    using wfE_min [OF wf, of i S thesis] by blast
  then obtain n where n: "map_of ms j = Some n" "P n" by (auto simp: S_def)
  have "\<not> P x" if "d \<in> set (m_deps n)" "map_of ms d = Some x" for d x
  proof -
    have "d \<in> fst ` set ms" using that(2) by (metis domI dom_map_of_conv_image_fst)
    then show ?thesis using j(2) [of d] that n(1) by (auto simp: dep_graph_def S_def)
  qed
  then show ?thesis using that n by blast
qed

lemma claim_file_finds:
  assumes "disk_ok d" and m: "mission_at d i = Some m" "m_state m \<in> {Pending, Retrying}"
    and deps: "\<And>dep. dep \<in> set (m_deps m) \<Longrightarrow> map_option m_state (mission_at d dep) = Some Completed"
  shows "\<exists>md d'. claim_file d = Inr (Some md, d')"
proof -
  obtain q where q: "load_queue d = Inr q" "lifecycle q" "mission_at d = map_of (missions q)"
    using assms(1) mission_at_loaded by (auto simp: disk_ok_def)
  note wf = lifecycle_wf [OF q(2)]
  have "m \<in> set (eligible q)"
    using m deps queue_wfD(1) [OF wf, of i m] by (auto simp: in_eligible [OF wf] deps_completed_iff q(3))
  then have "eligible q \<noteq> []" by auto
  then obtain r q' where "mq_claim q = (Some r, q')"
    using mq_claim_None [of q] by (cases "mq_claim q") auto
  then show ?thesis using claim_file_loaded(1) [OF q(1) _ q(2)] by blast
qed

text \<open>C26: The queue never deadlocks on its dependencies: when no mission is running, stopped or
  failed and every dependency names a known mission, a claim returns a mission as long as any
  is unfinished.\<close>

theorem claim_progress:
  assumes "reachable_disk dflt d" and "mission_at d i = Some m" and "m_state m \<noteq> Completed"
    and "\<And>j n. mission_at d j = Some n \<Longrightarrow> m_state n \<in> {Pending, Retrying, Completed}"
    and "\<And>j n dep. mission_at d j = Some n \<Longrightarrow> dep \<in> set (m_deps n) \<Longrightarrow> mission_at d dep \<noteq> None"
  shows "\<exists>md d'. claim_file d = Inr (Some md, d')"
proof -
  obtain q where q: "load_queue d = Inr q" "lifecycle q" "mission_at d = map_of (missions q)"
    using reachable_loads [OF assms(1)] .
  note wf = lifecycle_wf [OF q(2)]
  obtain j n where n: "map_of (missions q) j = Some n" "m_state n \<noteq> Completed"
      "\<And>d x. d \<in> set (m_deps n) \<Longrightarrow> map_of (missions q) d = Some x \<Longrightarrow> \<not> m_state x \<noteq> Completed"
    using first_mission [OF queue_wf_acyclic [OF wf], of i m "\<lambda>x. m_state x \<noteq> Completed"]
      assms(2,3) q(3) by metis
  have "map_option m_state (mission_at d dep) = Some Completed" if "dep \<in> set (m_deps n)" for dep
    using n(3) [OF that] assms(5) [of j n, OF _ that] n(1) q(3) by auto
  moreover have "m_state n \<in> {Pending, Retrying}" using assms(4) [of j n] n(1,2) q(3) by auto
  ultimately show ?thesis
    using claim_file_finds [OF reachable_disk_ok [OF assms(1)], of j n] n(1) q(3) by simp
qed

theorem claim_progress_witness:
  "\<exists>d md d'. reachable_disk 0 d \<and> claim_file d = Inr (Some md, d')"
proof -
  obtain d where d: "reachable_disk 0 d" "load_queue d = Inr pair_queue" by (rule pair_reachable)
  have at: "mission_at d ''a'' = Some (pair_mission ''a'' 1)"
    and all: "mission_at d j = Some n \<Longrightarrow> n = pair_mission ''a'' 1 \<or> n = pair_mission ''b'' 2" for j n
    by (auto simp: mission_at_loaded [OF d(2)] pair_queue_def split: if_splits)
  have "\<exists>md d'. claim_file d = Inr (Some md, d')"
  proof (rule claim_progress [OF d(1) at])
    show "m_state n \<in> {Pending, Retrying, Completed}" if "mission_at d j = Some n" for j n
      using all [OF that] by (auto simp: pair_mission_def)
    show "mission_at d dep \<noteq> None" if "mission_at d j = Some n" "dep \<in> set (m_deps n)" for j n dep
      using all [OF that(1)] that(2) by (auto simp: pair_mission_def)
  qed (simp add: pair_mission_def)
  then show ?thesis using d(1) by blast
qed

end
