(* ===== verification/QueueProtocol.thy ===== *)
theory QueueProtocol
  imports PyValue
begin

text \<open>
  The interface between the background worker and a mission queue
  (\<^verbatim>\<open>agent/runtime/background_worker.py\<close>, \<open>MissionQueueProtocol\<close>): the operations as a
  record, so that the worker is a function of the queue it is given, and the laws a queue
  promises as locales.  The always-idle queue of the command line fallback is the first
  instance; the persistent mission queue is interpreted in \<^verbatim>\<open>MissionProvider\<close>.
\<close>

section \<open>The operations\<close>

text \<open>\<open>'q\<close> is the queue's state, \<open>'e\<close> what its methods may raise.  \<open>recover_stale\<close> is optional:
  the worker treats a queue without it as one that recovers nothing.\<close>

record ('q, 'e) queue_protocol =
  qp_claim :: "string \<Rightarrow> 'q \<Rightarrow> 'e + (pyval dict option \<times> 'q)"
  qp_complete :: "string \<Rightarrow> 'q \<Rightarrow> 'e + 'q"
  qp_retry :: "string \<Rightarrow> 'q \<Rightarrow> 'e + 'q"
  qp_fail :: "string \<Rightarrow> 'q \<Rightarrow> 'e + 'q"
  qp_block :: "string \<Rightarrow> 'q \<Rightarrow> 'e + 'q"
  qp_recover :: "(string \<Rightarrow> 'q \<Rightarrow> 'e + (string list \<times> 'q)) option"

text \<open>\<open>_DirectoryIdleQueue\<close>.\<close>

definition idle_queue :: "('q, 'e) queue_protocol" where
  "idle_queue =
     \<lparr>qp_claim = (\<lambda>_ q. Inr (None, q)), qp_complete = (\<lambda>_ q. Inr q), qp_retry = (\<lambda>_ q. Inr q),
      qp_fail = (\<lambda>_ q. Inr q), qp_block = (\<lambda>_ q. Inr q),
      qp_recover = Some (\<lambda>_ q. Inr ([], q))\<rparr>"

section \<open>The laws\<close>

text \<open>What the worker relies on.  \<open>good\<close> are the states the queue keeps, \<open>running\<close> says which
  missions are claimed.  A claim hands out a mission that was not running, under a string id,
  with numeric attempt fields; the three transitions succeed on a running mission and release
  exactly it.\<close>

locale mission_queue_protocol =
  fixes qp :: "('q, 'e) queue_protocol"
    and good :: "'q \<Rightarrow> bool"
    and running :: "'q \<Rightarrow> string \<Rightarrow> bool"
  assumes claim_total: "good q \<Longrightarrow> \<exists>r q'. qp_claim qp w q = Inr (r, q') \<and> good q'"
    and claim_none: "good q \<Longrightarrow> qp_claim qp w q = Inr (None, q') \<Longrightarrow> q' = q"
    and claim_some: "good q \<Longrightarrow> qp_claim qp w q = Inr (Some m, q') \<Longrightarrow>
      \<exists>i a r. map_of m ''id'' = Some (PStr i) \<and> map_of m ''attempts_done'' = Some (PInt a) \<and>
        map_of m ''max_retries'' = Some (PInt r) \<and>
        \<not> running q i \<and> running q' = (running q)(i := True)"
    and complete_running: "good q \<Longrightarrow> running q i \<Longrightarrow>
      \<exists>q'. qp_complete qp i q = Inr q' \<and> good q' \<and> running q' = (running q)(i := False)"
    and fail_running: "good q \<Longrightarrow> running q i \<Longrightarrow>
      \<exists>q'. qp_fail qp i q = Inr q' \<and> good q' \<and> running q' = (running q)(i := False)"
    and block_running: "good q \<Longrightarrow> running q i \<Longrightarrow>
      \<exists>q'. qp_block qp i q = Inr q' \<and> good q' \<and> running q' = (running q)(i := False)"
    and recover_total: "good q \<Longrightarrow> qp_recover qp = Some rec \<Longrightarrow>
      \<exists>ids q'. rec w q = Inr (ids, q') \<and> good q' \<and> running q' = (\<lambda>_. False)"

text \<open>A queue whose work runs out: each transition out of the running state uses up some of a
  finite amount of work, and a claim adds none.\<close>

locale draining_queue = mission_queue_protocol +
  fixes work :: "'q \<Rightarrow> nat"
  assumes claim_work: "good q \<Longrightarrow> qp_claim qp w q = Inr (Some m, q') \<Longrightarrow> work q' \<le> work q"
    and complete_work: "good q \<Longrightarrow> running q i \<Longrightarrow> qp_complete qp i q = Inr q' \<Longrightarrow> work q' < work q"
    and fail_work: "good q \<Longrightarrow> running q i \<Longrightarrow> qp_fail qp i q = Inr q' \<Longrightarrow> work q' < work q"
    and block_work: "good q \<Longrightarrow> running q i \<Longrightarrow> qp_block qp i q = Inr q' \<Longrightarrow> work q' < work q"

interpretation idle: draining_queue "idle_queue :: ('q, 'e) queue_protocol"
    "\<lambda>_. True" "\<lambda>_ _. False" "\<lambda>_. 0"
  by unfold_locales (auto simp: idle_queue_def)

end
