(* ===== verification/BackgroundWorker.thy ===== *)
theory BackgroundWorker
  imports Complex_Main QueueProtocol
begin

text \<open>
  \<^verbatim>\<open>agent/runtime/background_worker.py\<close>: the worker that claims missions, hands them to the
  controller and moves them on in the queue.  The queue is a \<open>queue_protocol\<close>; the other
  collaborators (controller, checkpoint store, reporter, lifecycle hook, heartbeat file) are
  functions on one external state \<open>'x\<close> that report whether they raised.  The shutdown flag, which
  a signal sets at any time, is an input of every poll.
\<close>

section \<open>Configuration and state\<close>

text \<open>The arguments of the checkpoint store's \<open>save\<close>.\<close>

record checkpoint_request =
  cr_project :: string
  cr_execution :: string
  cr_step :: string
  cr_sequence :: int
  cr_state :: "pyval dict"
  cr_metadata :: "pyval dict"

record ('q, 'e, 'x) worker =
  wk_queue :: "('q, 'e) queue_protocol"
  wk_controller :: "pyval dict \<Rightarrow> 'x \<Rightarrow> pyval option \<times> 'x"
  wk_once :: bool
  wk_id :: string
  wk_max_idle :: "int option"
  wk_heartbeat :: "('x \<Rightarrow> bool \<times> 'x) option"
  wk_reporter :: "(pyval dict \<Rightarrow> pyval dict \<Rightarrow> string \<Rightarrow> string \<Rightarrow> 'x \<Rightarrow> pyval option \<times> 'x) option"
  wk_hook :: "(pyval dict \<Rightarrow> pyval dict \<Rightarrow> 'q \<times> 'x \<Rightarrow> pyval option \<times> 'q \<times> 'x) option"
  wk_checkpoints :: "(checkpoint_request \<Rightarrow> 'x \<Rightarrow> bool \<times> 'x) option"
  wk_project :: "string option"
  wk_clock :: "nat \<Rightarrow> string"

record ('q, 'x) worker_state =
  ws_queue :: 'q
  ws_ext :: 'x
  ws_events :: "pyval dict list"
  ws_idle :: int
  ws_recovered :: bool
  ws_shutdown_emitted :: bool

datatype worker_config_error = BadPollInterval | BadMaxIdle | MissingCheckpointProject

text \<open>The checks of the constructor; the project id is stripped.\<close>

definition worker_init ::
    "rat \<Rightarrow> ('q, 'e, 'x) worker \<Rightarrow> worker_config_error + ('q, 'e, 'x) worker" where
  "worker_init poll_interval wk =
     (let project = map_option strip (wk_project wk) in
      if poll_interval \<le> 0 then Inl BadPollInterval
      else if (case wk_max_idle wk of None \<Rightarrow> False | Some k \<Rightarrow> k < 0) then Inl BadMaxIdle
      else if wk_checkpoints wk \<noteq> None \<and> (project = None \<or> project = Some [])
        then Inl MissingCheckpointProject
      else Inr (wk\<lparr>wk_project := project\<rparr>))"

definition initial_state :: "'q \<Rightarrow> 'x \<Rightarrow> ('q, 'x) worker_state" where
  "initial_state q x = \<lparr>ws_queue = q, ws_ext = x, ws_events = [], ws_idle = 0,
     ws_recovered = False, ws_shutdown_emitted = False\<rparr>"

section \<open>Events, heartbeat, checkpoints\<close>

definition event_record ::
    "string \<Rightarrow> string \<Rightarrow> string option \<Rightarrow> (string \<times> pyval) list \<Rightarrow> pyval dict" where
  "event_record time event mission_id extra =
     fold (\<lambda>(k, v) d. if k \<in> {''payload'', ''secret'', ''token'', ''password''} then d
                       else AList.update k v d) extra
       ([(''event'', PStr event), (''timestamp'', PStr time)] @
        (case mission_id of None \<Rightarrow> [] | Some i \<Rightarrow> [(''mission_id'', PStr i)]))"

definition emit ::
    "('q, 'e, 'x) worker \<Rightarrow> string \<Rightarrow> string option \<Rightarrow> (string \<times> pyval) list \<Rightarrow>
     ('q, 'x) worker_state \<Rightarrow> ('q, 'x) worker_state" where
  "emit wk event mission_id extra s = s\<lparr>ws_events := ws_events s @
     [event_record (wk_clock wk (length (ws_events s))) event mission_id extra]\<rparr>"

definition write_heartbeat ::
    "('q, 'e, 'x) worker \<Rightarrow> ('q, 'x) worker_state \<Rightarrow> ('q, 'x) worker_state" where
  "write_heartbeat wk s = (case wk_heartbeat wk of
       None \<Rightarrow> s
     | Some write \<Rightarrow> (case write (ws_ext s) of
           (written, x) \<Rightarrow>
             if written then s\<lparr>ws_ext := x\<rparr>
             else emit wk ''heartbeat_failed'' None [] (s\<lparr>ws_ext := x\<rparr>)))"

definition or_empty :: "pyval \<Rightarrow> pyval" where
  "or_empty v = (if py_truth v then v else PStr [])"

definition mission_text :: "pyval dict \<Rightarrow> string" where
  "mission_text mission = strip (py_str (or_empty (dget mission ''id'')))"

definition checkpoint_execution_id :: "pyval dict \<Rightarrow> string option" where
  "checkpoint_execution_id mission =
     (if mission_text mission = [] then None
      else (case py_int (dget_or mission ''attempts_done'' (PInt 0)) of
          Inl _ \<Rightarrow> None
        | Inr attempts \<Rightarrow>
            if attempts < 0 then None
            else Some (''runtime-'' @ mission_text mission @ ''-attempt-'' @ int_str attempts)))"

definition checkpoint_state ::
    "pyval dict \<Rightarrow> string \<Rightarrow> string option \<Rightarrow> string option \<Rightarrow> pyval dict option" where
  "checkpoint_state mission phase controller_status queue_state =
     (case (py_int (dget_or mission ''attempts_done'' (PInt 0)),
            py_int (dget_or mission ''max_retries'' (PInt 0))) of
        (Inr attempts, Inr retries) \<Rightarrow> Some (
          [(''phase'', PStr phase), (''mission_id'', PStr (mission_text mission)),
           (''attempts_done'', PInt attempts), (''max_retries'', PInt retries)] @
          (case controller_status of None \<Rightarrow> [] | Some c \<Rightarrow> [(''controller_status'', PStr c)]) @
          (case queue_state of None \<Rightarrow> [] | Some q \<Rightarrow> [(''queue_state'', PStr q)]))
      | _ \<Rightarrow> None)"

definition build_checkpoint ::
    "('q, 'e, 'x) worker \<Rightarrow> pyval dict \<Rightarrow> int \<Rightarrow> string \<Rightarrow> string option \<Rightarrow> string option \<Rightarrow>
     checkpoint_request option" where
  "build_checkpoint wk mission seq phase controller_status queue_state =
     (case (checkpoint_state mission phase controller_status queue_state,
            checkpoint_execution_id mission) of
        (Some st, Some execution) \<Rightarrow> Some
          \<lparr>cr_project = (case wk_project wk of None \<Rightarrow> ''None'' | Some p \<Rightarrow> p),
           cr_execution = execution, cr_step = ''mission_execution'', cr_sequence = seq,
           cr_state = st,
           cr_metadata = [(''worker_id'', PStr (wk_id wk)), (''checkpoint_schema_version'', PInt 1)]\<rparr>
      | _ \<Rightarrow> None)"

definition save_checkpoint ::
    "('q, 'e, 'x) worker \<Rightarrow> pyval dict \<Rightarrow> int \<Rightarrow> string \<Rightarrow> string option \<Rightarrow> string option \<Rightarrow>
     ('q, 'x) worker_state \<Rightarrow> ('q, 'x) worker_state" where
  "save_checkpoint wk mission seq phase controller_status queue_state s =
     (case wk_checkpoints wk of
        None \<Rightarrow> s
      | Some save \<Rightarrow>
          let extra = [(''checkpoint_sequence'', PInt seq), (''checkpoint_phase'', PStr phase)];
              failed = emit wk ''checkpoint_failed''
                (Some (py_str (or_empty (dget mission ''id'')))) extra
          in (case build_checkpoint wk mission seq phase controller_status queue_state of
                None \<Rightarrow> failed s
              | Some req \<Rightarrow> (case save req (ws_ext s) of
                    (True, x) \<Rightarrow>
                      emit wk ''checkpoint_saved'' (Some (mission_text mission)) extra
                        (s\<lparr>ws_ext := x\<rparr>)
                  | (False, x) \<Rightarrow> failed (s\<lparr>ws_ext := x\<rparr>))))"

section \<open>The run loop\<close>

datatype 'e worker_error =
  QueueRaised 'e | ControllerRaised | NumberRaised conv_error

datatype 'e outcome = Continue | Stopped | Raised "'e worker_error"

definition recover_once ::
    "('q, 'e, 'x) worker \<Rightarrow> ('q, 'x) worker_state \<Rightarrow> 'e outcome \<times> ('q, 'x) worker_state" where
  "recover_once wk s =
     (if ws_recovered s then (Continue, s)
      else let s = s\<lparr>ws_recovered := True\<rparr> in
        (case qp_recover (wk_queue wk) of
           None \<Rightarrow> (Continue, s)
         | Some recover \<Rightarrow> (case recover (wk_id wk) (ws_queue s) of
               Inl e \<Rightarrow> (Raised (QueueRaised e), s)
             | Inr (ids, q) \<Rightarrow>
                 (Continue, fold (\<lambda>i. emit wk ''recovered'' (Some i) []) ids (s\<lparr>ws_queue := q\<rparr>)))))"

text \<open>An empty poll: \<open>stop\<close> is the shutdown flag as this poll reads it.\<close>

definition idle_cycle ::
    "('q, 'e, 'x) worker \<Rightarrow> bool \<Rightarrow> ('q, 'x) worker_state \<Rightarrow> 'e outcome \<times> ('q, 'x) worker_state" where
  "idle_cycle wk stop s =
     (let s = emit wk ''idle'' None [] s; s = s\<lparr>ws_idle := ws_idle s + 1\<rparr> in
      if stop then
        (Stopped, if ws_shutdown_emitted s then s
                  else (emit wk ''shutdown'' None [] s)\<lparr>ws_shutdown_emitted := True\<rparr>)
      else if wk_once wk then (Stopped, s)
      else if (case wk_max_idle wk of None \<Rightarrow> False | Some k \<Rightarrow> ws_idle s \<ge> k) then (Stopped, s)
      else (Continue, s))"

definition mission_key :: "pyval dict \<Rightarrow> string" where
  "mission_key mission = py_str (dget mission ''id'')"

definition worker_poll ::
    "('q, 'e, 'x) worker \<Rightarrow> bool \<Rightarrow> ('q, 'x) worker_state \<Rightarrow>
     'e outcome \<times> pyval dict option \<times> ('q, 'x) worker_state" where
  "worker_poll wk stop s =
     (let s = write_heartbeat wk s in
      (case qp_claim (wk_queue wk) (wk_id wk) (ws_queue s) of
         Inl e \<Rightarrow> (Raised (QueueRaised e), None, s)
       | Inr (None, q) \<Rightarrow>
           (case idle_cycle wk stop (s\<lparr>ws_queue := q\<rparr>) of (out, s) \<Rightarrow> (out, None, s))
       | Inr (Some mission, q) \<Rightarrow>
           let s = emit wk ''claimed'' (Some (mission_key mission)) []
                     (s\<lparr>ws_queue := q, ws_idle := 0\<rparr>);
               s = save_checkpoint wk mission 0 ''claimed'' None (Some ''running'') s;
               s = save_checkpoint wk mission 1 ''controller_started'' None (Some ''running'') s
           in (Continue, Some mission, s)))"

definition status_of :: "pyval \<Rightarrow> string" where
  "status_of result = (case result of PDict d \<Rightarrow> py_str (dget d ''status'') | _ \<Rightarrow> py_str result)"

definition worker_execute ::
    "('q, 'e, 'x) worker \<Rightarrow> pyval dict \<Rightarrow> ('q, 'x) worker_state \<Rightarrow>
     pyval option \<times> ('q, 'x) worker_state" where
  "worker_execute wk mission s =
     (case wk_controller wk mission (ws_ext s) of
        (None, x) \<Rightarrow> (None, s\<lparr>ws_ext := x\<rparr>)
      | (Some result, x) \<Rightarrow> (Some result,
          save_checkpoint wk mission 2 ''controller_finished'' (Some (status_of result))
            (Some ''running'') (s\<lparr>ws_ext := x\<rparr>)))"

text \<open>Reporting after a completed mission: neither a failing reporter nor a failing hook stops
  the worker.\<close>

definition run_hook ::
    "('q, 'e, 'x) worker \<Rightarrow> pyval dict \<Rightarrow> pyval \<Rightarrow> ('q, 'x) worker_state \<Rightarrow> ('q, 'x) worker_state" where
  "run_hook wk mission report s =
     (case (wk_hook wk, report) of
        (Some hook, PDict stored) \<Rightarrow>
          (case hook mission stored (ws_queue s, ws_ext s) of
             (r, q, x) \<Rightarrow>
               let s = s\<lparr>ws_queue := q, ws_ext := x\<rparr> in
               (case r of
                  None \<Rightarrow> emit wk ''lifecycle_hook_failed'' (Some (mission_key mission)) [] s
                | Some (PDict h) \<Rightarrow>
                    if py_truth (dget h ''handled'')
                    then emit wk ''lifecycle_reconciled'' (Some (mission_key mission)) [] s else s
                | Some _ \<Rightarrow> s))
      | _ \<Rightarrow> s)"

definition persist_report ::
    "('q, 'e, 'x) worker \<Rightarrow> pyval dict \<Rightarrow> pyval \<Rightarrow> ('q, 'x) worker_state \<Rightarrow> ('q, 'x) worker_state" where
  "persist_report wk mission result s =
     (case (wk_reporter wk, result) of
        (Some persist, PDict r) \<Rightarrow>
          (case persist mission r (wk_id wk) ''completed'' (ws_ext s) of
             (None, x) \<Rightarrow>
               emit wk ''execution_report_failed'' (Some (mission_key mission)) [] (s\<lparr>ws_ext := x\<rparr>)
           | (Some report, x) \<Rightarrow> run_hook wk mission report (s\<lparr>ws_ext := x\<rparr>))
      | _ \<Rightarrow> s)"

text \<open>A queue transition followed by what the worker does when it succeeded.\<close>

definition transition ::
    "('e + 'q) \<Rightarrow> ('q, 'x) worker_state \<Rightarrow>
     (('q, 'x) worker_state \<Rightarrow> 'e outcome \<times> ('q, 'x) worker_state) \<Rightarrow>
     'e outcome \<times> ('q, 'x) worker_state" where
  "transition r s k = (case r of
       Inl e \<Rightarrow> (Raised (QueueRaised e), s) | Inr q \<Rightarrow> k (s\<lparr>ws_queue := q\<rparr>))"

text \<open>The queue state the worker records after a \<open>retry\<close> result.\<close>

definition retry_queue_state :: "pyval dict \<Rightarrow> conv_error + string" where
  "retry_queue_state mission =
     ebind (py_int (dget_or mission ''attempts_done'' (PInt 0))) (\<lambda>attempts.
     ebind (py_int (dget_or mission ''max_retries'' (PInt 0))) (\<lambda>retries.
       Inr (if attempts + 1 \<le> retries then ''retrying'' else ''failed'')))"

definition blocked_reason :: "pyval \<Rightarrow> string" where
  "blocked_reason result = (case result of
       PDict d \<Rightarrow> if py_truth (dget d ''reason'') then py_str (dget d ''reason'') else ''blocked''
     | _ \<Rightarrow> ''blocked'')"

definition worker_settle ::
    "('q, 'e, 'x) worker \<Rightarrow> pyval dict \<Rightarrow> pyval \<Rightarrow> ('q, 'x) worker_state \<Rightarrow>
     'e outcome \<times> ('q, 'x) worker_state" where
  "worker_settle wk mission result s =
     (let i = mission_key mission; status = status_of result; q = ws_queue s;
          moved = (\<lambda>state. save_checkpoint wk mission 3 ''queue_transition'' (Some status) (Some state))
      in
      if status = ''success'' then
        transition (qp_complete (wk_queue wk) i q) s (\<lambda>s.
          (Continue, persist_report wk mission result
            (moved ''completed'' (emit wk ''completed'' (Some i) [] s))))
      else if status = ''retry'' then
        transition (qp_fail (wk_queue wk) i q) s (\<lambda>s.
          let s = emit wk ''retrying'' (Some i) [] s in
          (case retry_queue_state mission of
             Inl e \<Rightarrow> (Raised (NumberRaised e), s)
           | Inr state \<Rightarrow> (Continue, moved state s)))
      else if status = ''exhausted'' then
        transition (qp_fail (wk_queue wk) i q) s (\<lambda>s.
          (Continue, moved ''failed'' (emit wk ''failed'' (Some i) [] s)))
      else
        transition (qp_block (wk_queue wk) i q) s (\<lambda>s.
          (Continue, moved ''blocked'' (emit wk ''failed'' (Some i)
            [(''reason'', PStr (if status = ''blocked'' then blocked_reason result
                                else ''unknown_status''))] s))))"

definition worker_cycle ::
    "('q, 'e, 'x) worker \<Rightarrow> bool \<Rightarrow> ('q, 'x) worker_state \<Rightarrow> 'e outcome \<times> ('q, 'x) worker_state" where
  "worker_cycle wk stop s =
     (case worker_poll wk stop s of
        (out, None, s) \<Rightarrow> (out, s)
      | (out, Some mission, s) \<Rightarrow>
          (case worker_execute wk mission s of
             (None, s) \<Rightarrow> (Raised ControllerRaised, s)
           | (Some result, s) \<Rightarrow>
               (case worker_settle wk mission result s of
                  (Continue, s) \<Rightarrow> (if wk_once wk then Stopped else Continue, s)
                | r \<Rightarrow> r)))"

text \<open>The loop with fuel: \<open>None\<close> when the fuel runs out, else how \<open>run\<close> ended.  \<open>stops n\<close> is the
  shutdown flag at the \<open>n\<close>-th poll.\<close>

fun run_loop ::
    "('q, 'e, 'x) worker \<Rightarrow> (nat \<Rightarrow> bool) \<Rightarrow> nat \<Rightarrow> nat \<Rightarrow> ('q, 'x) worker_state \<Rightarrow>
     ('e outcome \<times> ('q, 'x) worker_state) option" where
  "run_loop wk stops n 0 s = None"
| "run_loop wk stops n (Suc fuel) s =
     (case worker_cycle wk (stops n) s of
        (Continue, s') \<Rightarrow> run_loop wk stops (Suc n) fuel s'
      | r \<Rightarrow> Some r)"

definition worker_run ::
    "('q, 'e, 'x) worker \<Rightarrow> (nat \<Rightarrow> bool) \<Rightarrow> nat \<Rightarrow> ('q, 'x) worker_state \<Rightarrow>
     ('e outcome \<times> ('q, 'x) worker_state) option" where
  "worker_run wk stops fuel s =
     (case recover_once wk s of
        (Continue, s) \<Rightarrow> run_loop wk stops 0 fuel (write_heartbeat wk s)
      | r \<Rightarrow> Some r)"

end
