(* ===== verification/WorkerLoop.thy ===== *)
theory WorkerLoop
  imports BackgroundWorker
begin

text \<open>
  The worker against any queue that keeps the laws of the protocol: a cycle never raises and
  leaves no mission behind in the running state, and on a queue whose work runs out the loop
  ends with nothing left to claim.
\<close>

section \<open>What the worker's bookkeeping leaves alone\<close>

lemma emit_simps [simp]:
  "ws_queue (emit wk ev i ex s) = ws_queue s"
  "ws_ext (emit wk ev i ex s) = ws_ext s"
  "ws_idle (emit wk ev i ex s) = ws_idle s"
  "ws_recovered (emit wk ev i ex s) = ws_recovered s"
  "ws_shutdown_emitted (emit wk ev i ex s) = ws_shutdown_emitted s"
  by (simp_all add: emit_def)

lemma heartbeat_simps [simp]:
  "ws_queue (write_heartbeat wk s) = ws_queue s"
  "ws_idle (write_heartbeat wk s) = ws_idle s"
  by (simp_all add: write_heartbeat_def split: option.split prod.split)

lemma checkpoint_simps [simp]:
  "ws_queue (save_checkpoint wk m n ph c q s) = ws_queue s"
  "ws_idle (save_checkpoint wk m n ph c q s) = ws_idle s"
  by (simp_all add: save_checkpoint_def Let_def split: option.split prod.split bool.split)

lemma fold_emit_simps [simp]:
  "ws_queue (fold (\<lambda>i. emit wk ev (f i) ex) ids s) = ws_queue s"
  "ws_idle (fold (\<lambda>i. emit wk ev (f i) ex) ids s) = ws_idle s"
  by (induction ids arbitrary: s) simp_all

lemma run_hook_simps [simp]:
  "ws_idle (run_hook wk m rep s) = ws_idle s"
  by (simp add: run_hook_def Let_def split: option.split prod.split pyval.split)

lemma persist_report_simps [simp]:
  "ws_idle (persist_report wk m r s) = ws_idle s"
  by (simp add: persist_report_def split: option.split prod.split pyval.split)

text \<open>Collaborators that return: the controller does not raise, and the hook keeps the queue's
  invariant, its running missions and the work left.\<close>

definition controller_total :: "('q, 'e, 'x) worker \<Rightarrow> bool" where
  "controller_total wk \<longleftrightarrow> (\<forall>m x. fst (wk_controller wk m x) \<noteq> None)"

definition queue_kept ::
    "('q \<Rightarrow> bool) \<Rightarrow> ('q \<Rightarrow> string \<Rightarrow> bool) \<Rightarrow> ('q \<Rightarrow> nat) \<Rightarrow> 'q \<Rightarrow> 'q \<Rightarrow> bool" where
  "queue_kept good running work q q' \<longleftrightarrow>
     (good q \<longrightarrow> good q' \<and> running q' = running q \<and> work q' \<le> work q)"

definition hook_keeps ::
    "('q \<Rightarrow> bool) \<Rightarrow> ('q \<Rightarrow> string \<Rightarrow> bool) \<Rightarrow> ('q \<Rightarrow> nat) \<Rightarrow> ('q, 'e, 'x) worker \<Rightarrow> bool" where
  "hook_keeps good running work wk \<longleftrightarrow>
     (\<forall>h m st q x. wk_hook wk = Some h \<longrightarrow> queue_kept good running work q (fst (snd (h m st (q, x)))))"

lemma queue_kept_refl [simp]: "queue_kept good running work q q"
  by (simp add: queue_kept_def)

lemma queue_keptD:
  "queue_kept good running work q q' \<Longrightarrow> good q \<Longrightarrow> good q' \<and> running q' = running q \<and> work q' \<le> work q"
  by (simp add: queue_kept_def)

lemma hook_keeps_none: "wk_hook wk = None \<Longrightarrow> hook_keeps good running work wk"
  by (simp add: hook_keeps_def)

lemma run_hook_queue:
  "ws_queue (run_hook wk m rep s) = ws_queue s \<or>
   (\<exists>h st. wk_hook wk = Some h \<and> ws_queue (run_hook wk m rep s) = fst (snd (h m st (ws_queue s, ws_ext s))))"
proof (cases "\<exists>h st. wk_hook wk = Some h \<and> rep = PDict st")
  case True
  then obtain h st where h: "wk_hook wk = Some h" "rep = PDict st" by blast
  obtain r q x where r: "h m st (ws_queue s, ws_ext s) = (r, q, x)" by (metis prod_cases3)
  have "ws_queue (run_hook wk m rep s) = q"
    by (simp add: run_hook_def h r Let_def split: option.split pyval.split)
  then show ?thesis using h r by (intro disjI2 exI [of _ h] exI [of _ st]) simp
next
  case False
  then have "run_hook wk m rep s = s" by (auto simp: run_hook_def split: option.split pyval.split)
  then show ?thesis by simp
qed

lemma run_hook_keeps:
  "hook_keeps good running work wk \<Longrightarrow>
     queue_kept good running work (ws_queue s) (ws_queue (run_hook wk m rep s))"
  using run_hook_queue [of wk m rep s] by (auto simp: hook_keeps_def)

lemma persist_report_keeps:
  assumes "hook_keeps good running work wk"
  shows "queue_kept good running work (ws_queue s) (ws_queue (persist_report wk m r s))"
proof -
  have "queue_kept good running work (ws_queue s) (ws_queue (run_hook wk m rep (s\<lparr>ws_ext := x\<rparr>)))"
    for rep x
    using run_hook_keeps [OF assms, of "s\<lparr>ws_ext := x\<rparr>" m rep] by simp
  then show ?thesis
    by (simp add: persist_report_def split: option.split prod.split pyval.split)
qed

lemma execute_total:
  assumes "controller_total wk"
  obtains r s' where "worker_execute wk m s = (Some r, s')" and "ws_queue s' = ws_queue s"
    and "ws_idle s' = ws_idle s"
proof (cases "wk_controller wk m (ws_ext s)")
  case (Pair r x)
  then obtain y where "r = Some y" using assms by (metis controller_total_def fst_conv not_Some_eq)
  then show ?thesis using that Pair by (simp add: worker_execute_def)
qed

section \<open>One cycle\<close>

lemma idle_cycle_simps [simp]:
  "ws_queue (snd (idle_cycle wk stop s)) = ws_queue s"
  "ws_idle (snd (idle_cycle wk stop s)) = ws_idle s + 1"
  by (simp_all add: idle_cycle_def Let_def)

lemma idle_cycle_out:
  "fst (idle_cycle wk stop s) = (if stop \<or> wk_once wk \<or>
     (\<exists>k. wk_max_idle wk = Some k \<and> ws_idle s + 1 \<ge> k) then Stopped else Continue)"
  by (simp add: idle_cycle_def Let_def split: option.split)

context mission_queue_protocol
begin

text \<open>A poll either finds nothing and changes nothing, or claims a mission that was not running.\<close>

lemma poll_cases:
  assumes wk: "wk_queue wk = qp" and good: "good (ws_queue s)"
  obtains
    (none) s' where "qp_claim qp (wk_id wk) (ws_queue s) = Inr (None, ws_queue s)"
      and "ws_queue s' = ws_queue s" and "ws_idle s' = ws_idle s + 1"
      and "worker_poll wk stop s = (if stop \<or> wk_once wk \<or>
        (\<exists>k. wk_max_idle wk = Some k \<and> ws_idle s + 1 \<ge> k) then Stopped else Continue, None, s')"
  | (some) m s' r where "qp_claim qp (wk_id wk) (ws_queue s) = Inr (Some m, ws_queue s')"
      and "good (ws_queue s')" and "ws_idle s' = 0"
      and "retry_queue_state m = Inr r" and "\<not> running (ws_queue s) (mission_key m)"
      and "running (ws_queue s') = (running (ws_queue s))(mission_key m := True)"
      and "worker_poll wk stop s = (Continue, Some m, s')"
proof -
  obtain r q' where c: "qp_claim qp (wk_id wk) (ws_queue s) = Inr (r, q')" "good q'"
    using claim_total [OF good] by blast
  show ?thesis
  proof (cases r)
    case None
    then have q': "q' = ws_queue s" using claim_none [OF good] c(1) by blast
    let ?s = "(write_heartbeat wk s)\<lparr>ws_queue := q'\<rparr>"
    have "worker_poll wk stop s = (fst (idle_cycle wk stop ?s), None, snd (idle_cycle wk stop ?s))"
      using c None wk by (simp add: worker_poll_def split: prod.split)
    then show ?thesis
      using none [of "snd (idle_cycle wk stop ?s)"] c(1) None q' idle_cycle_out [of wk stop ?s] by simp
  next
    case (Some m)
    obtain i a b where m: "map_of m ''id'' = Some (PStr i)" "map_of m ''attempts_done'' = Some (PInt a)"
        "map_of m ''max_retries'' = Some (PInt b)" "\<not> running (ws_queue s) i"
        "running q' = (running (ws_queue s))(i := True)"
      using claim_some [OF good, of _ m q'] c(1) Some by blast
    have key: "mission_key m = i" by (simp add: mission_key_def dget_def m(1) py_str_def)
    have ret: "\<exists>r. retry_queue_state m = Inr r"
      by (simp add: retry_queue_state_def dget_or_def m(2,3) py_int_def ebind_def)
    let ?s = "save_checkpoint wk m 1 ''controller_started'' None (Some ''running'')
      (save_checkpoint wk m 0 ''claimed'' None (Some ''running'')
        (emit wk ''claimed'' (Some i) [] ((write_heartbeat wk s)\<lparr>ws_queue := q', ws_idle := 0\<rparr>)))"
    have "worker_poll wk stop s = (Continue, Some m, ?s)"
      using c Some wk by (simp add: worker_poll_def Let_def key)
    moreover have "ws_queue ?s = q'" "ws_idle ?s = 0" by simp_all
    ultimately show ?thesis using some [of m ?s] ret c m(4,5) key unfolding Some by metis
  qed
qed

text \<open>Whatever the controller answered, the mission leaves the running state through one of the
  three transitions.\<close>

lemma settle_ok:
  assumes wk: "wk_queue wk = qp" "hook_keeps good running work wk"
    and s: "good (ws_queue s)" "running (ws_queue s) (mission_key m)" and r: "retry_queue_state m = Inr st"
  obtains s' q' t where "worker_settle wk m result s = (Continue, s')" and "ws_idle s' = ws_idle s"
    and "t \<in> {qp_complete qp, qp_fail qp, qp_block qp}" and "t (mission_key m) (ws_queue s) = Inr q'"
    and "good q'" and "running q' = (running (ws_queue s))(mission_key m := False)"
    and "queue_kept good running work q' (ws_queue s')"
proof -
  have rep: "queue_kept good running work q (ws_queue (persist_report wk m result u))"
    if "ws_queue u = q" for u q
    using persist_report_keeps [OF wk(2), of u] that by simp
  consider "status_of result = ''success''" | "status_of result = ''retry''"
    | "status_of result = ''exhausted''"
    | "status_of result \<noteq> ''success''" "status_of result \<noteq> ''retry''" "status_of result \<noteq> ''exhausted''"
    by blast
  then show ?thesis
  proof cases
    case 1
    obtain q' where "qp_complete qp (mission_key m) (ws_queue s) = Inr q'" "good q'"
      "running q' = (running (ws_queue s))(mission_key m := False)" using complete_running [OF s] by blast
    then show ?thesis
      using that [of _ "qp_complete qp" q'] rep by (simp add: worker_settle_def transition_def Let_def 1 wk(1))
  next
    case 2
    obtain q' where "qp_fail qp (mission_key m) (ws_queue s) = Inr q'" "good q'"
      "running q' = (running (ws_queue s))(mission_key m := False)" using fail_running [OF s] by blast
    then show ?thesis
      using that [of _ "qp_fail qp" q'] r by (simp add: worker_settle_def transition_def Let_def 2 wk(1))
  next
    case 3
    obtain q' where "qp_fail qp (mission_key m) (ws_queue s) = Inr q'" "good q'"
      "running q' = (running (ws_queue s))(mission_key m := False)" using fail_running [OF s] by blast
    then show ?thesis
      using that [of _ "qp_fail qp" q'] by (simp add: worker_settle_def transition_def Let_def 3 wk(1))
  next
    case 4
    obtain q' where "qp_block qp (mission_key m) (ws_queue s) = Inr q'" "good q'"
      "running q' = (running (ws_queue s))(mission_key m := False)" using block_running [OF s] by blast
    then show ?thesis
      using that [of _ "qp_block qp" q'] by (simp add: worker_settle_def transition_def Let_def 4 wk(1))
  qed
qed

text \<open>One cycle: an idle poll, or one mission claimed, executed and moved on.\<close>

lemma cycle_cases:
  assumes wk: "wk_queue wk = qp" "hook_keeps good running work wk" "controller_total wk"
    and good: "good (ws_queue s)"
  obtains
    (idle) s' where "qp_claim qp (wk_id wk) (ws_queue s) = Inr (None, ws_queue s)"
      and "ws_queue s' = ws_queue s" and "ws_idle s' = ws_idle s + 1"
      and "worker_cycle wk stop s = (if stop \<or> wk_once wk \<or>
        (\<exists>k. wk_max_idle wk = Some k \<and> ws_idle s + 1 \<ge> k) then Stopped else Continue, s')"
  | (busy) s' m i q1 q2 t where "qp_claim qp (wk_id wk) (ws_queue s) = Inr (Some m, q1)" and "good q1"
      and "running q1 = (running (ws_queue s))(i := True)" and "\<not> running (ws_queue s) i"
      and "t \<in> {qp_complete qp, qp_fail qp, qp_block qp}" and "t i q1 = Inr q2" and "good q2"
      and "running q2 = running (ws_queue s)" and "queue_kept good running work q2 (ws_queue s')"
      and "ws_idle s' = 0"
      and "worker_cycle wk stop s = (if wk_once wk then Stopped else Continue, s')"
proof -
  from wk(1) good show ?thesis
  proof (cases rule: poll_cases [of wk s stop])
    case (none s')
    then show ?thesis by (intro idle) (simp_all add: worker_cycle_def)
  next
    case (some m s1 r)
    obtain res s2 where e: "worker_execute wk m s1 = (Some res, s2)" "ws_queue s2 = ws_queue s1"
        "ws_idle s2 = ws_idle s1"
      using execute_total [OF wk(3), of m s1] .
    have run: "good (ws_queue s2)" "running (ws_queue s2) (mission_key m)"
      using some(2,6) e(2) by simp_all
    obtain s' q' t where u: "worker_settle wk m res s2 = (Continue, s')" "ws_idle s' = ws_idle s2"
        "t \<in> {qp_complete qp, qp_fail qp, qp_block qp}" "t (mission_key m) (ws_queue s2) = Inr q'"
        "good q'" "running q' = (running (ws_queue s2))(mission_key m := False)"
        "queue_kept good running work q' (ws_queue s')"
      using settle_ok [OF wk(1,2) run some(4)] by metis
    have "running q' = running (ws_queue s)" using u(6) some(5,6) e(2) by (auto simp: fun_eq_iff)
    then show ?thesis
      using busy [OF some(1,2,6,5) u(3) _ u(5) _ u(7)] u e some(3,7) by (simp add: worker_cycle_def)
  qed
qed

lemma cycle_ok:
  assumes wk: "wk_queue wk = qp" "hook_keeps good running work wk" "controller_total wk"
    and good: "good (ws_queue s)" and c: "worker_cycle wk stop s = (out, s')"
  shows "out \<in> {Continue, Stopped} \<and> good (ws_queue s') \<and> running (ws_queue s') = running (ws_queue s)"
  using wk good
proof (cases rule: cycle_cases [of wk work s stop])
  case (idle s1)
  then show ?thesis using c good by (auto split: if_splits)
next
  case (busy s1 m i q1 q2 t)
  then show ?thesis using c queue_keptD [OF busy(9,7)] by (auto split: if_splits)
qed

lemma run_loop_ok:
  assumes wk: "wk_queue wk = qp" "hook_keeps good running work wk" "controller_total wk"
  shows "good (ws_queue s) \<Longrightarrow> run_loop wk stops n fuel s = Some (out, s') \<Longrightarrow>
    out = Stopped \<and> good (ws_queue s') \<and> running (ws_queue s') = running (ws_queue s)"
proof (induction fuel arbitrary: n s)
  case (Suc fuel)
  obtain o1 s1 where c: "worker_cycle wk (stops n) s = (o1, s1)" by fastforce
  note ok = cycle_ok [OF wk Suc.prems(1) c]
  show ?case using Suc.IH [of s1 "Suc n"] Suc.prems(2) ok c by (cases o1) auto
qed simp

end

section \<open>The loop drains the queue\<close>

context draining_queue
begin

lemma busy_work:
  assumes "good q" "qp_claim qp w q = Inr (Some m, q1)" "good q1" "running q1 i"
    and "t \<in> {qp_complete qp, qp_fail qp, qp_block qp}" "t i q1 = Inr q2"
  shows "work q2 < work q"
  using claim_work [OF assms(1,2)] complete_work [OF assms(3,4)] fail_work [OF assms(3,4)]
    block_work [OF assms(3,4)] assms(5,6) by fastforce

text \<open>With a bound on idle polls the loop ends: every busy cycle uses up work, every idle one
  counts towards the bound.\<close>

lemma run_loop_ends:
  assumes wk: "wk_queue wk = qp" "hook_keeps good running work wk" "controller_total wk"
    and k: "wk_max_idle wk = Some k"
  shows "good (ws_queue s) \<Longrightarrow> \<exists>fuel s'. run_loop wk stops n fuel s = Some (Stopped, s') \<and>
    (wk_once wk \<or> (\<exists>j. stops j) \<or> (\<exists>q. qp_claim qp (wk_id wk) (ws_queue s') = Inr (None, q)))"
proof (induction "(work (ws_queue s), nat (k - ws_idle s))" arbitrary: n s rule: wf_induct_rule [OF wf_lex_prod [OF wf_less wf_less]])
  case (1 s n)
  from wk 1(2) show ?case
  proof (cases rule: cycle_cases [of wk work s "stops n"])
    case (idle s1)
    show ?thesis
    proof (cases "stops n \<or> wk_once wk \<or> ws_idle s + 1 \<ge> k")
      case True
      then have "run_loop wk stops n 1 s = Some (Stopped, s1)" using idle(4) k by auto
      then show ?thesis using idle(1,2) by metis
    next
      case False
      then obtain fuel s' where "run_loop wk stops (Suc n) fuel s1 = Some (Stopped, s')"
          "wk_once wk \<or> (\<exists>j. stops j) \<or> (\<exists>q. qp_claim qp (wk_id wk) (ws_queue s') = Inr (None, q))"
        using 1(1) [of s1 "Suc n"] 1(2) idle(2,3) by auto
      moreover have "worker_cycle wk (stops n) s = (Continue, s1)" using idle(4) False k by auto
      ultimately show ?thesis by (intro exI [of _ "Suc fuel"]) auto
    qed
  next
    case (busy s1 m i q1 q2 t)
    have "work q2 < work (ws_queue s)"
      using busy_work [OF 1(2) busy(1,2) _ busy(5,6)] busy(3) by simp
    then have less: "work (ws_queue s1) < work (ws_queue s)" and good1: "good (ws_queue s1)"
      using queue_keptD [OF busy(9,7)] by auto
    show ?thesis
    proof (cases "wk_once wk")
      case True
      then have "run_loop wk stops n 1 s = Some (Stopped, s1)" using busy(11) by simp
      then show ?thesis using True by blast
    next
      case False
      then obtain fuel s' where "run_loop wk stops (Suc n) fuel s1 = Some (Stopped, s')"
          "wk_once wk \<or> (\<exists>j. stops j) \<or> (\<exists>q. qp_claim qp (wk_id wk) (ws_queue s') = Inr (None, q))"
        using 1(1) [of s1 "Suc n"] less good1 by auto
      then show ?thesis using busy(11) False by (intro exI [of _ "Suc fuel"]) auto
    qed
  qed
qed

end

end
