(* ===== verification/MissionProvider.thy ===== *)
theory MissionProvider
  imports MissionProgress WorkerLoop
begin

text \<open>
  The persistent mission queue as the worker's queue: the operations on the queue file keep the
  laws of the protocol, and the attempts the retry limits leave are the work that runs out.
\<close>

definition mission_protocol :: "(disk, queue_error) queue_protocol" where
  "mission_protocol =
     \<lparr>qp_claim = (\<lambda>_. claim_file), qp_complete = (\<lambda>i. locked (mq_complete i)),
      qp_retry = (\<lambda>i. locked (mq_retry i)), qp_fail = (\<lambda>i. locked (mq_fail i)),
      qp_block = (\<lambda>i. locked (mq_block i)), qp_recover = Some (\<lambda>_. recover_stale_file)\<rparr>"

definition is_running :: "disk \<Rightarrow> string \<Rightarrow> bool" where
  "is_running d i \<longleftrightarrow> (\<exists>m. mission_at d i = Some m \<and> m_state m = Running)"

text \<open>The attempts a mission has left.\<close>

definition attempts_left :: "mission \<Rightarrow> nat" where
  "attempts_left m = (if m_state m \<in> {Pending, Retrying, Running}
     then nat (max 0 (m_retries m) + 1 - m_attempts m) else 0)"

definition work_left :: "disk \<Rightarrow> nat" where
  "work_left d = (\<Sum>i \<in> dom (mission_at d). attempts_left (the (mission_at d i)))"

section \<open>Effects on the missions of a file\<close>

lemma disk_ok_loads:
  assumes "disk_ok d"
  obtains q where "load_queue d = Inr q" and "lifecycle q" and "mission_at d = map_of (missions q)"
  using assms mission_at_loaded by (auto simp: disk_ok_def)

lemma locked_put:
  assumes "load_queue d = Inr q" and "f q = Inr (put_mission i m q)" and "lifecycle (put_mission i m q)"
  shows "\<exists>d'. locked f d = Inr d' \<and> disk_ok d' \<and> mission_at d' = (mission_at d)(i \<mapsto> m)"
  using assms disk_ok_saved [OF assms(3)] mission_at_saved [OF assms(3)] mission_at_loaded [OF assms(1)]
  by (simp add: locked_def)

lemma running_update:
  "is_running d' = (is_running d)(i := m_state m = Running)"
  if "mission_at d' = (mission_at d)(i \<mapsto> m)"
  using that by (auto simp: is_running_def fun_eq_iff)

lemma disk_ok_inv:
  assumes "disk_ok d" and "mission_at d i = Some m"
  shows "m_id m = i" and "0 \<le> m_attempts m" and "m_attempts m \<le> max 0 (m_retries m) + 1"
    and "m_state m \<noteq> Failed \<Longrightarrow> m_attempts m = 0 \<or> m_attempts m \<le> m_retries m"
proof -
  obtain q where q: "lifecycle q" "map_of (missions q) i = Some m"
    using disk_ok_loads [OF assms(1)] assms(2) by metis
  show "m_id m = i" using queue_wfD(1) [OF lifecycle_wf [OF q(1)] q(2)] .
  show "0 \<le> m_attempts m" and "m_attempts m \<le> max 0 (m_retries m) + 1"
    and "m_state m \<noteq> Failed \<Longrightarrow> m_attempts m = 0 \<or> m_attempts m \<le> m_retries m"
    using lifecycle_inv [OF q] by (auto simp: mission_inv_def)
qed

lemma finite_missions: "finite (dom (mission_at d))"
proof (cases "load_queue d")
  case (Inl e)
  then have "mission_at d = Map.empty" by (simp add: mission_at_def fun_eq_iff)
  then show ?thesis by simp
next
  case (Inr q)
  then show ?thesis using mission_at_loaded [OF Inr] by (simp add: finite_dom_map_of)
qed

lemma work_update:
  assumes "mission_at d i = Some m" and "mission_at d' = (mission_at d)(i \<mapsto> m')"
  shows "work_left d' + attempts_left m = work_left d + attempts_left m'"
proof -
  have i: "i \<in> dom (mission_at d)" and dom: "dom (mission_at d') = dom (mission_at d)"
    using assms by auto
  have "(\<Sum>j \<in> dom (mission_at d) - {i}. attempts_left (the (mission_at d' j)))
      = (\<Sum>j \<in> dom (mission_at d) - {i}. attempts_left (the (mission_at d j)))"
    by (rule sum.cong) (simp_all add: assms(2))
  then show ?thesis
    using sum.remove [OF finite_missions i, of "\<lambda>j. attempts_left (the (mission_at d j))"]
      sum.remove [OF finite_missions [of d'], of i "\<lambda>j. attempts_left (the (mission_at d' j))"] i assms
    unfolding work_left_def dom by simp
qed

text \<open>A running mission has an attempt left.\<close>

lemma running_attempts:
  "disk_ok d \<Longrightarrow> mission_at d i = Some m \<Longrightarrow> m_state m = Running \<Longrightarrow> 0 < attempts_left m"
  using disk_ok_inv [of d i m] by (auto simp: attempts_left_def)

section \<open>The transitions of the protocol\<close>

text \<open>The three transitions out of the running state, each with the mission it leaves behind.\<close>

lemma transition_file:
  assumes ok: "disk_ok d" and m: "mission_at d i = Some m" "m_state m = Running"
  obtains dc df db where
    "locked (mq_complete i) d = Inr dc" "disk_ok dc"
    "mission_at dc = (mission_at d)(i \<mapsto> m\<lparr>m_state := Completed\<rparr>)"
    "locked (mq_fail i) d = Inr df" "disk_ok df"
    "mission_at df = (mission_at d)(i \<mapsto> m\<lparr>m_attempts := m_attempts m + 1,
       m_state := if m_attempts m + 1 \<le> m_retries m then Retrying else Failed\<rparr>)"
    "locked (mq_block i) d = Inr db" "disk_ok db"
    "mission_at db = (mission_at d)(i \<mapsto> m\<lparr>m_state := Blocked\<rparr>)"
proof -
  obtain q where q: "load_queue d = Inr q" "lifecycle q" "mission_at d = map_of (missions q)"
    using disk_ok_loads [OF ok] .
  note wf = lifecycle_wf [OF q(2)]
  have at: "map_of (missions q) i = Some m" using m q(3) by simp
  have c: "mq_complete i q = Inr (put_mission i (m\<lparr>m_state := Completed\<rparr>) q)"
    and f: "mq_fail i q = Inr (put_mission i (m\<lparr>m_attempts := m_attempts m + 1,
       m_state := if m_attempts m + 1 \<le> m_retries m then Retrying else Failed\<rparr>) q)"
    and b: "mq_block i q = Inr (put_mission i (m\<lparr>m_state := Blocked\<rparr>) q)"
    by (simp_all add: mq_put_simps [OF wf] get_mission_def at m(2))
  show ?thesis
    using that locked_put [of d q "mq_complete i", OF q(1) c lifecycle_complete [OF q(2) c]]
      locked_put [of d q "mq_fail i", OF q(1) f lifecycle_fail [OF q(2) f]]
      locked_put [of d q "mq_block i", OF q(1) b lifecycle_block [OF q(2) b]] by blast
qed

lemma transition_work:
  assumes ok: "disk_ok d" and m: "mission_at d i = Some m" "m_state m = Running"
    and at: "mission_at d' = (mission_at d)(i \<mapsto> m')" and less: "attempts_left m' < attempts_left m"
  shows "work_left d' < work_left d"
  using work_update [OF m(1) at] less by simp

lemma claim_file_effect:
  assumes "disk_ok d" and "claim_file d = Inr (Some md, d')"
  obtains c where "mission_at d (m_id c) = Some c" and "m_state c \<in> {Pending, Retrying}"
    and "md = to_dict (c\<lparr>m_state := Running\<rparr>)" and "disk_ok d'"
    and "mission_at d' = (mission_at d)(m_id c \<mapsto> c\<lparr>m_state := Running\<rparr>)"
  using claim_file_best [OF assms] by blast

lemma claim_file_total: "disk_ok d \<Longrightarrow> \<exists>r d'. claim_file d = Inr (r, d') \<and> disk_ok d'"
proof -
  assume ok: "disk_ok d"
  obtain q where q: "load_queue d = Inr q" "lifecycle q" using disk_ok_loads [OF ok] .
  obtain r q' where c: "mq_claim q = (r, q')" by fastforce
  show ?thesis
    using lifecycle_claim [OF q(2) c] disk_ok_saved ok q(1) c
    by (cases r) (auto simp: claim_file_def)
qed

lemma claim_file_none:
  assumes "claim_file d = Inr (None, d')"
  shows "d' = d"
proof -
  obtain q where q: "load_queue d = Inr q" using assms by (auto simp: claim_file_def err_simps)
  then show ?thesis
    using assms by (cases "mq_claim q") (auto simp: claim_file_def split: option.splits)
qed

lemma recover_file_total:
  assumes ok: "disk_ok d"
  shows "\<exists>ids d'. recover_stale_file d = Inr (ids, d') \<and> disk_ok d' \<and> is_running d' = (\<lambda>_. False)"
proof -
  obtain ids d' where r: "recover_stale_file d = Inr (ids, d')" "disk_ok d'"
      "mission_at d' = (\<lambda>i. map_option requeue (mission_at d i))"
    using recover_file_effect [OF ok] by metis
  have "is_running d' = (\<lambda>_. False)"
    by (auto simp: is_running_def r(3) requeue_def fun_eq_iff split: if_splits)
  then show ?thesis using r by blast
qed

interpretation mq: draining_queue mission_protocol disk_ok is_running work_left
proof unfold_locales
  fix q w m q' i rec
  assume ok: "disk_ok q"
  show "\<exists>r q'. qp_claim mission_protocol w q = Inr (r, q') \<and> disk_ok q'"
    using claim_file_total [OF ok] by (simp add: mission_protocol_def)
  show "qp_claim mission_protocol w q = Inr (None, q') \<Longrightarrow> q' = q"
    using claim_file_none by (simp add: mission_protocol_def)
  {
    assume "qp_claim mission_protocol w q = Inr (Some m, q')"
    then have "claim_file q = Inr (Some m, q')" by (simp add: mission_protocol_def)
    then obtain c where c: "mission_at q (m_id c) = Some c" "m_state c \<in> {Pending, Retrying}"
        "m = to_dict (c\<lparr>m_state := Running\<rparr>)" "mission_at q' = (mission_at q)(m_id c \<mapsto> c\<lparr>m_state := Running\<rparr>)"
      using claim_file_effect [OF ok] by metis
    show "\<exists>i a r. map_of m ''id'' = Some (PStr i) \<and> map_of m ''attempts_done'' = Some (PInt a) \<and>
        map_of m ''max_retries'' = Some (PInt r) \<and>
        \<not> is_running q i \<and> is_running q' = (is_running q)(i := True)"
      using c running_update [OF c(4)] by (auto simp: to_dict_def is_running_def)
    show "work_left q' \<le> work_left q"
      using work_update [OF c(1,4)] c(2) by (auto simp: attempts_left_def)
  next
    assume "is_running q i"
    then obtain m where m: "mission_at q i = Some m" "m_state m = Running" by (auto simp: is_running_def)
    obtain dc df db where d: "locked (mq_complete i) q = Inr dc" "disk_ok dc"
      "mission_at dc = (mission_at q)(i \<mapsto> m\<lparr>m_state := Completed\<rparr>)"
      "locked (mq_fail i) q = Inr df" "disk_ok df"
      "mission_at df = (mission_at q)(i \<mapsto> m\<lparr>m_attempts := m_attempts m + 1,
         m_state := if m_attempts m + 1 \<le> m_retries m then Retrying else Failed\<rparr>)"
      "locked (mq_block i) q = Inr db" "disk_ok db"
      "mission_at db = (mission_at q)(i \<mapsto> m\<lparr>m_state := Blocked\<rparr>)"
      using transition_file [OF ok m] .
    note left = running_attempts [OF ok m]
    show "\<exists>q'. qp_complete mission_protocol i q = Inr q' \<and> disk_ok q' \<and> is_running q' = (is_running q)(i := False)"
      using d(1,2) running_update [OF d(3)] by (simp add: mission_protocol_def)
    show "\<exists>q'. qp_fail mission_protocol i q = Inr q' \<and> disk_ok q' \<and> is_running q' = (is_running q)(i := False)"
      using d(4,5) running_update [OF d(6)] by (simp add: mission_protocol_def)
    show "\<exists>q'. qp_block mission_protocol i q = Inr q' \<and> disk_ok q' \<and> is_running q' = (is_running q)(i := False)"
      using d(7,8) running_update [OF d(9)] by (simp add: mission_protocol_def)
    show "qp_complete mission_protocol i q = Inr q' \<Longrightarrow> work_left q' < work_left q"
      using d(1) transition_work [OF ok m d(3)] left by (auto simp: mission_protocol_def attempts_left_def)
    show "qp_fail mission_protocol i q = Inr q' \<Longrightarrow> work_left q' < work_left q"
      using d(4) transition_work [OF ok m d(6)] left by (auto simp: mission_protocol_def attempts_left_def m(2))
    show "qp_block mission_protocol i q = Inr q' \<Longrightarrow> work_left q' < work_left q"
      using d(7) transition_work [OF ok m d(9)] left by (auto simp: mission_protocol_def attempts_left_def)
  }
  show "qp_recover mission_protocol = Some rec \<Longrightarrow>
      \<exists>ids q'. rec w q = Inr (ids, q') \<and> disk_ok q' \<and> is_running q' = (\<lambda>_. False)"
    using recover_file_total [OF ok] by (auto simp: mission_protocol_def)
qed

end
