(* ===== verification/WorkerSystem.thy ===== *)
theory WorkerSystem
  imports MissionProvider
begin

text \<open>
  Workers on the persistent queue: a single worker drains the queue and leaves no mission
  running; several workers and other clients, interleaved in any order, never execute the same
  mission at the same time as long as no worker starts while another is executing; and a worker
  that does start then takes over the mission being executed.
\<close>

section \<open>One worker\<close>

lemma recover_once_file:
  assumes wk: "wk_queue wk = mission_protocol" and ok: "disk_ok d"
  obtains s where "recover_once wk (initial_state d x) = (Continue, s)" and "disk_ok (ws_queue s)"
    and "is_running (ws_queue s) = (\<lambda>_. False)"
proof -
  obtain ids d' where "recover_stale_file d = Inr (ids, d')" "disk_ok d'" "is_running d' = (\<lambda>_. False)"
    using recover_file_total [OF ok] by blast
  then show ?thesis
    using that by (simp add: recover_once_def initial_state_def Let_def wk mission_protocol_def)
qed

lemma reachable_ok: "reachable_disk dflt d \<Longrightarrow> disk_ok d"
  by (rule reachable_disk_ok)


text \<open>A worker that answers every mission with success, for the witnesses.\<close>

definition plain_worker :: "bool \<Rightarrow> (disk, queue_error, unit) worker" where
  "plain_worker once = \<lparr>wk_queue = mission_protocol, wk_controller = (\<lambda>_ x. (Some (PStr ''success''), x)),
     wk_once = once, wk_id = ''worker'', wk_max_idle = Some 1, wk_heartbeat = None,
     wk_reporter = None, wk_hook = None, wk_checkpoints = None, wk_project = None,
     wk_clock = (\<lambda>_. ''2024-01-01T00:00:00Z'')\<rparr>"

lemma plain_worker_simps [simp]:
  "wk_queue (plain_worker once) = mission_protocol" "wk_hook (plain_worker once) = None"
  "wk_max_idle (plain_worker once) = Some 1" "wk_once (plain_worker once) = once"
  "controller_total (plain_worker once)"
  by (simp_all add: plain_worker_def controller_total_def)

lemma run_loop_drains:
  assumes "disk_ok d" and "wk_queue wk = mission_protocol"
    and "hook_keeps disk_ok is_running work_left wk" and "controller_total wk"
    and "wk_max_idle wk = Some k"
  obtains fuel s where "worker_run wk stops fuel (initial_state d x) = Some (Stopped, s)"
    and "wk_once wk \<or> (\<exists>j. stops j) \<or> claim_file (ws_queue s) = Inr (None, ws_queue s)"
proof -
  obtain s0 where s0: "recover_once wk (initial_state d x) = (Continue, s0)" "disk_ok (ws_queue s0)"
    using recover_once_file [OF assms(2,1)] by metis
  obtain fuel s where "run_loop wk stops 0 fuel (write_heartbeat wk s0) = Some (Stopped, s)"
      "wk_once wk \<or> (\<exists>j. stops j) \<or> (\<exists>q. claim_file (ws_queue s) = Inr (None, q))"
    using mq.run_loop_ends [OF assms(2,3,4,5), where s = "write_heartbeat wk s0" and n = 0 and stops = stops] s0(2)
    by (auto simp: mission_protocol_def)
  then show ?thesis
    using that [of fuel s] s0(1) claim_file_none [of "ws_queue s"] by (auto simp: worker_run_def)
qed




section \<open>Several workers\<close>

text \<open>A system is the queue file and, for each worker, the mission it is executing, if any, with
  its own state.  Claiming, executing and settling are separate steps, so that other workers
  and clients act in between.  A controller that raises leaves its mission running.  Clients
  may do anything but stop or release a running mission; a worker starts (and recovers) only
  when none is executing.\<close>

type_synonym 'x local_states = "string \<Rightarrow> pyval dict option \<times> (disk, 'x) worker_state"

inductive system_step ::
    "int \<Rightarrow> (string \<Rightarrow> (disk, queue_error, 'x) worker) \<Rightarrow>
     disk \<times> 'x local_states \<Rightarrow> disk \<times> 'x local_states \<Rightarrow> bool"
  for dflt wks where
  poll: "loc w = (None, s) \<Longrightarrow>
     worker_poll (wks w) stop (s\<lparr>ws_queue := d\<rparr>) = (out, m, s') \<Longrightarrow>
     system_step dflt wks (d, loc) (ws_queue s', loc(w := (m, s')))"
| settle: "loc w = (Some m, s) \<Longrightarrow> worker_execute (wks w) m s = (Some result, s1) \<Longrightarrow>
     worker_settle (wks w) m result (s1\<lparr>ws_queue := d\<rparr>) = (out, s') \<Longrightarrow>
     system_step dflt wks (d, loc) (ws_queue s', loc(w := (None, s')))"
| crash: "loc w = (Some m, s) \<Longrightarrow> worker_execute (wks w) m s = (None, s1) \<Longrightarrow>
     system_step dflt wks (d, loc) (d, loc(w := (None, s1)))"
| client: "apply_op dflt e d = Inr d' \<Longrightarrow> \<forall>i. \<not> releases e i \<Longrightarrow>
     system_step dflt wks (d, loc) (d', loc)"
| begin_work: "\<forall>v. fst (loc v) = None \<Longrightarrow> recover_once (wks w) (initial_state d x) = (out, s') \<Longrightarrow>
     system_step dflt wks (d, loc) (ws_queue s', loc(w := (None, s')))"

inductive system_run ::
    "int \<Rightarrow> (string \<Rightarrow> (disk, queue_error, 'x) worker) \<Rightarrow>
     disk \<times> 'x local_states \<Rightarrow> disk \<times> 'x local_states \<Rightarrow> bool"
  for dflt wks where
  none: "system_run dflt wks st st"
| more: "system_run dflt wks st st1 \<Longrightarrow> system_step dflt wks st1 st2 \<Longrightarrow> system_run dflt wks st st2"

definition standard_workers :: "(string \<Rightarrow> (disk, queue_error, 'x) worker) \<Rightarrow> bool" where
  "standard_workers wks \<longleftrightarrow> (\<forall>w. wk_queue (wks w) = mission_protocol \<and>
     hook_keeps disk_ok is_running (\<lambda>_. 0) (wks w))"

text \<open>What every step keeps: the missions being executed are running in the file, and no two
  workers execute the same one.\<close>

definition exclusive :: "disk \<times> 'x local_states \<Rightarrow> bool" where
  "exclusive st \<longleftrightarrow> disk_ok (fst st) \<and>
     (\<forall>w m. fst (snd st w) = Some m \<longrightarrow>
        is_running (fst st) (mission_key m) \<and> (\<exists>r. retry_queue_state m = Inr r)) \<and>
     (\<forall>v w m n. fst (snd st v) = Some m \<longrightarrow> fst (snd st w) = Some n \<longrightarrow>
        mission_key m = mission_key n \<longrightarrow> v = w)"

lemma apply_op_frame:
  assumes ok: "disk_ok d" and e: "apply_op dflt e d = Inr d'" and i: "\<not> releases e i"
    and r: "is_running d i"
  shows "disk_ok d' \<and> is_running d' i"
proof -
  obtain m where m: "mission_at d i = Some m" "m_state m = Running" using r by (auto simp: is_running_def)
  obtain q where q: "load_queue d = Inr q" "lifecycle q" "mission_at d = map_of (missions q)"
    using disk_ok_loads [OF ok] .
  obtain q' where q': "op_queue dflt e q = Inr q'" "disk_ok d'" "mission_at d' = map_of (missions q')"
    using apply_op_queue [OF q(1,2) e] by blast
  show ?thesis
    using op_queue_frame [OF q(2) q'(1), of i m] m q(3) q'(2,3) i by (auto simp: is_running_def)
qed

lemma apply_op_ok: "disk_ok d \<Longrightarrow> apply_op dflt e d = Inr d' \<Longrightarrow> disk_ok d'"
  using apply_op_queue by (metis disk_ok_def)

lemma exclusive_step:
  assumes std: "standard_workers wks" and "system_step dflt wks st st'" and "exclusive st"
  shows "exclusive st'"
  using assms(2,3)
proof (cases rule: system_step.cases)
  case (poll loc w s stop d out m s')
  have wk: "wk_queue (wks w) = mission_protocol" using std by (simp add: standard_workers_def)
  have ok: "disk_ok (ws_queue (s\<lparr>ws_queue := d\<rparr>))" using assms(3) poll(1) by (simp add: exclusive_def)
  from wk ok show ?thesis
  proof (cases rule: mq.poll_cases [of _ _ stop])
    case (none s1)
    then have "m = None" "ws_queue s' = d" using poll(4) by (auto split: if_splits)
    then show ?thesis
      using assms(3) poll(1,2,3) by (auto simp: exclusive_def split: if_splits)
  next
    case (some n s1 r)
    then have m: "m = Some n" "s1 = s'" using poll(4) by simp_all
    have run: "is_running (ws_queue s') = (is_running d)(mission_key n := True)"
      "\<not> is_running d (mission_key n)" "disk_ok (ws_queue s')" "retry_queue_state n = Inr r"
      using some m by simp_all
    have old: "is_running d (mission_key k) \<and> (\<exists>r. retry_queue_state k = Inr r)" if "fst (loc v) = Some k" for v k
      using that assms(3) poll(1) by (auto simp: exclusive_def)
    have inj: "fst (loc v) = Some k \<Longrightarrow> fst (loc u) = Some l \<Longrightarrow> mission_key k = mission_key l \<Longrightarrow> v = u"
      for v u k l
      using assms(3) poll(1) unfolding exclusive_def by simp
    have other: "fst (loc v) = Some k \<Longrightarrow> mission_key k \<noteq> mission_key n" for v k
      using old [of v k] run(2) by metis
    show ?thesis
      unfolding exclusive_def poll(2) using run m(1) old inj other other [symmetric]
      by (auto split: if_splits)
  qed
next
  case (settle loc w m s result s1 d out s')
  have wk: "wk_queue (wks w) = mission_protocol" "hook_keeps disk_ok is_running (\<lambda>_. 0) (wks w)"
    using std by (simp_all add: standard_workers_def)
  have old: "is_running d (mission_key k) \<and> (\<exists>r. retry_queue_state k = Inr r)" if "fst (loc v) = Some k" for v k
    using that assms(3) settle(1) by (auto simp: exclusive_def)
  have inj: "fst (loc v) = Some k \<Longrightarrow> fst (loc u) = Some l \<Longrightarrow> mission_key k = mission_key l \<Longrightarrow> v = u"
    for v u k l
    using assms(3) settle(1) unfolding exclusive_def by simp
  obtain r where r: "retry_queue_state m = Inr r" using old [of w m] settle(3) by auto
  have ok: "disk_ok (ws_queue (s1\<lparr>ws_queue := d\<rparr>))" "is_running (ws_queue (s1\<lparr>ws_queue := d\<rparr>)) (mission_key m)"
    using assms(3) settle(1,3) old [of w m] by (simp_all add: exclusive_def)
  obtain s2 q' where t: "worker_settle (wks w) m result (s1\<lparr>ws_queue := d\<rparr>) = (Continue, s2)" "disk_ok q'"
      "is_running q' = (is_running d)(mission_key m := False)"
      "queue_kept disk_ok is_running (\<lambda>_. 0) q' (ws_queue s2)"
    by (rule mq.settle_ok [OF wk ok r, where result = result]) simp
  have s2: "s2 = s'" using t(1) settle(5) by simp
  have run: "disk_ok (ws_queue s')" "is_running (ws_queue s') = (is_running d)(mission_key m := False)"
    using queue_keptD [OF t(4,2)] t(3) s2 by auto
  have other: "mission_key k \<noteq> mission_key m" if "fst (loc v) = Some k" "v \<noteq> w" for v k
    using inj [OF that(1), of w m] that(2) settle(3) by auto
  show ?thesis
    unfolding exclusive_def settle(2) using run old inj other by (auto split: if_splits)
next
  case (crash loc w m s s1 d)
  then show ?thesis using assms(3) by (auto simp: exclusive_def split: if_splits)
next
  case (client e d d' loc)
  then show ?thesis
    using assms(3) apply_op_frame [OF _ client(3)] apply_op_ok [OF _ client(3)]
    unfolding exclusive_def client(1,2) fst_conv snd_conv by blast
next
  case (begin_work loc w d x out s')
  have wk: "wk_queue (wks w) = mission_protocol" using std by (simp add: standard_workers_def)
  have "disk_ok d" using assms(3) begin_work(1) by (simp add: exclusive_def)
  then have "disk_ok (ws_queue s')"
    using recover_once_file [OF wk] begin_work(4) by (metis prod.inject)
  then show ?thesis using begin_work by (simp add: exclusive_def)
qed

lemma exclusive_run:
  "system_run dflt wks st st' \<Longrightarrow> standard_workers wks \<Longrightarrow> exclusive st \<Longrightarrow> exclusive st'"
  by (induction rule: system_run.induct) (auto intro: exclusive_step)


lemma plain_poll:
  assumes "claim_file d = Inr (Some m, d')"
  obtains s' where "worker_poll (plain_worker once) stop (s\<lparr>ws_queue := d\<rparr>) = (Continue, Some m, s')"
    and "ws_queue s' = d'"
  using that assms
  by (simp add: worker_poll_def plain_worker_def write_heartbeat_def save_checkpoint_def
      mission_protocol_def Let_def)


section \<open>A worker that starts late\<close>

lemma rank_inject: "rank m = rank n \<Longrightarrow> m_id m = m_id n"
  by (simp add: rank_def)

text \<open>C4: A worker that starts while another one executes takes the mission over: its recovery
  makes the running mission claimable again, and with nothing else running the next claim
  returns that very mission, which is then executed twice.\<close>

theorem late_start_takes_over:
  assumes "reachable_disk dflt d" and "\<forall>i. \<not> is_running d i"
    and "claim_file d = Inr (Some md, d1)" and "recover_stale_file d1 = Inr (ids, d2)"
  shows "\<exists>md' d3. claim_file d2 = Inr (Some md', d3) \<and> mission_key md' = mission_key md"
proof -
  obtain c where c: "mission_at d (m_id c) = Some c" "m_state c \<in> {Pending, Retrying}"
      "md = to_dict (c\<lparr>m_state := Running\<rparr>)"
      "mission_at d1 = (mission_at d)(m_id c \<mapsto> c\<lparr>m_state := Running\<rparr>)" "disk_ok d1"
      "\<And>i x. mission_at d i = Some x \<Longrightarrow> m_state x \<in> {Pending, Retrying} \<Longrightarrow>
        (\<forall>dep \<in> set (m_deps x). map_option m_state (mission_at d dep) = Some Completed) \<Longrightarrow>
        rank c \<le> rank x"
      "\<And>dep. dep \<in> set (m_deps c) \<Longrightarrow> map_option m_state (mission_at d dep) = Some Completed"
    using claim_file_best [OF reachable_ok [OF assms(1)] assms(3)] by blast
  obtain ids' d2' where "recover_stale_file d1 = Inr (ids', d2')" "disk_ok d2'"
      "mission_at d2' = (\<lambda>i. map_option requeue (mission_at d1 i))"
    using recover_file_effect [OF c(5)] by metis
  then have d2: "disk_ok d2" "mission_at d2 = (\<lambda>i. map_option requeue (mission_at d1 i))"
    using assms(4) by simp_all
  have same: "requeue x = x" if "mission_at d i = Some x" for i x
    using that assms(2) by (auto simp: is_running_def intro: requeue_fresh)
  have at2: "mission_at d2 = (mission_at d)(m_id c \<mapsto> c\<lparr>m_state := Retrying\<rparr>)"
  proof
    fix i
    show "mission_at d2 i = ((mission_at d)(m_id c \<mapsto> c\<lparr>m_state := Retrying\<rparr>)) i"
      using same [of i] by (cases "mission_at d i") (simp_all add: d2(2) c(4) requeue_def)
  qed
  have done2: "map_option m_state (mission_at d2 dep) = Some Completed \<longleftrightarrow>
      map_option m_state (mission_at d dep) = Some Completed" for dep
    using c(1,2) by (auto simp: at2)
  obtain md' d3 where cl: "claim_file d2 = Inr (Some md', d3)"
    using claim_file_finds [OF d2(1), of "m_id c" "c\<lparr>m_state := Retrying\<rparr>"] c(7) done2
    by (auto simp: at2)
  obtain c' where c': "mission_at d2 (m_id c') = Some c'" "m_state c' \<in> {Pending, Retrying}"
      "\<forall>dep \<in> set (m_deps c'). map_option m_state (mission_at d2 dep) = Some Completed"
      "md' = to_dict (c'\<lparr>m_state := Running\<rparr>)"
      "\<And>i x. mission_at d2 i = Some x \<Longrightarrow> m_state x \<in> {Pending, Retrying} \<Longrightarrow>
        (\<forall>dep \<in> set (m_deps x). map_option m_state (mission_at d2 dep) = Some Completed) \<Longrightarrow>
        rank c' \<le> rank x"
    using claim_file_best [OF d2(1) cl] by blast
  have "rank c' \<le> rank c"
    using c'(5) [of "m_id c" "c\<lparr>m_state := Retrying\<rparr>"] c(7) done2 by (simp add: at2 rank_def)
  moreover have "rank c \<le> rank c'" if "m_id c' \<noteq> m_id c"
    using c(6) [of "m_id c'" c'] c'(1,2,3) done2 that by (simp add: at2)
  ultimately have "m_id c' = m_id c" using rank_inject by (metis order_antisym)
  then show ?thesis using cl c(3) c'(4) by (auto simp: mission_key_def to_dict_def dget_def)
qed

theorem late_start_takes_over_witness:
  "\<exists>d md d1 ids d2 md' d3. reachable_disk 0 d \<and> claim_file d = Inr (Some md, d1) \<and>
     recover_stale_file d1 = Inr (ids, d2) \<and> claim_file d2 = Inr (Some md', d3) \<and>
     mission_key md' = mission_key md"
proof -
  obtain d where d: "reachable_disk 0 d" "load_queue d = Inr pair_queue" by (rule pair_reachable)
  have idle: "\<forall>i. \<not> is_running d i"
    by (auto simp: is_running_def mission_at_loaded [OF d(2)] pair_queue_def pair_mission_def
        split: if_splits)
  obtain md d1 where c: "claim_file d = Inr (Some md, d1)" using pair_claim [OF d(2,1)] by blast
  have "disk_ok d1" using claim_file_best [OF reachable_ok [OF d(1)] c] by blast
  then obtain ids d2 where r: "recover_stale_file d1 = Inr (ids, d2)"
    using recover_file_total by blast
  show ?thesis using late_start_takes_over [OF d(1) idle c r] d(1) c r by blast
qed

end
