(* ===== verification/RetryPolicy.thy ===== *)
theory RetryPolicy
  imports Complex_Main MissionProgress
begin

text \<open>
  The retry rules of \<^verbatim>\<open>agent/resilience\<close>: the token and deadline budget
  (\<^verbatim>\<open>retry_budget.py\<close>), the read-only view of a queued mission's budget
  (\<^verbatim>\<open>retry_budget_queue_adapter.py\<close>) and the classification of errors
  (\<^verbatim>\<open>retry_classification.py\<close>).  The contract they share with the retry engine,
  that retries granted are bounded in advance, is the locale \<open>retry_allowance\<close>.
\<close>

section \<open>Granting retries\<close>

fun run_steps :: "('s \<Rightarrow> 'r \<Rightarrow> bool \<times> 's) \<Rightarrow> 's \<Rightarrow> 'r list \<Rightarrow> bool list \<times> 's" where
  "run_steps step s [] = ([], s)"
| "run_steps step s (r # rs) = (case step s r of (granted, s') \<Rightarrow>
     (case run_steps step s' rs of (gs, s'') \<Rightarrow> (granted # gs, s'')))"

text \<open>A step either grants a retry and uses up some of a finite allowance, or refuses and does
  not increase it.\<close>

locale retry_allowance =
  fixes step :: "'s \<Rightarrow> 'r \<Rightarrow> bool \<times> 's"
    and good :: "'s \<Rightarrow> bool"
    and left :: "'s \<Rightarrow> nat"
  assumes step_good: "good s \<Longrightarrow> step s r = (g, s') \<Longrightarrow> good s'"
    and granted: "good s \<Longrightarrow> step s r = (True, s') \<Longrightarrow> left s' < left s"
    and refused: "good s \<Longrightarrow> step s r = (False, s') \<Longrightarrow> left s' \<le> left s"
begin

lemma grants_bounded:
  "good s \<Longrightarrow> run_steps step s rs = (gs, s') \<Longrightarrow> length (filter id gs) + left s' \<le> left s"
proof (induction rs arbitrary: s gs)
  case (Cons r rs)
  obtain g s1 where s1: "step s r = (g, s1)" by fastforce
  obtain hs where hs: "run_steps step s1 rs = (hs, s')" "gs = g # hs"
    using Cons.prems(2) s1 by (auto split: prod.splits)
  show ?case
    using Cons.IH [OF step_good [OF Cons.prems(1) s1] hs(1)] granted [OF Cons.prems(1)]
      refused [OF Cons.prems(1)] s1 hs(2) by (cases g) fastforce+
qed simp

end

section \<open>The budget\<close>

text \<open>An argument as the constructor receives it; \<open>FloatArg None\<close> is a float that is not finite.\<close>

datatype num_arg = NoArg | BoolArg bool | IntArg int | FloatArg "rat option" | OtherArg

datatype budget_error = BudgetTypeError | BudgetValueError

record retry_budget =
  rb_max :: "int option"
  rb_deadline :: "rat option"
  rb_consumed :: int

definition check_max_retries :: "num_arg \<Rightarrow> budget_error + int option" where
  "check_max_retries arg = (case arg of
       NoArg \<Rightarrow> Inr None
     | IntArg n \<Rightarrow> if n < 0 then Inl BudgetValueError else Inr (Some n)
     | _ \<Rightarrow> Inl BudgetTypeError)"

definition check_deadline :: "num_arg \<Rightarrow> budget_error + rat option" where
  "check_deadline arg = (case arg of
       NoArg \<Rightarrow> Inr None
     | IntArg n \<Rightarrow> if n < 0 then Inl BudgetValueError else Inr (Some (of_int n))
     | FloatArg (Some x) \<Rightarrow> if x < 0 then Inl BudgetValueError else Inr (Some x)
     | FloatArg None \<Rightarrow> Inl BudgetValueError
     | _ \<Rightarrow> Inl BudgetTypeError)"

text \<open>\<open>clock\<close> is what the time provider returns when it is asked.\<close>

definition make_budget :: "num_arg \<Rightarrow> num_arg \<Rightarrow> rat \<Rightarrow> budget_error + retry_budget" where
  "make_budget max_retries deadline_seconds clock =
     ebind (check_max_retries max_retries) (\<lambda>m.
     ebind (check_deadline deadline_seconds) (\<lambda>d.
       Inr \<lparr>rb_max = m, rb_deadline = map_option (\<lambda>x. clock + x) d, rb_consumed = 0\<rparr>))"

definition unlimited_budget :: "rat \<Rightarrow> budget_error + retry_budget" where
  "unlimited_budget clock = make_budget NoArg NoArg clock"

definition time_budget :: "num_arg \<Rightarrow> rat \<Rightarrow> budget_error + retry_budget" where
  "time_budget seconds clock = make_budget NoArg seconds clock"

definition deadline_exceeded :: "retry_budget \<Rightarrow> rat option \<Rightarrow> rat \<Rightarrow> bool" where
  "deadline_exceeded b now clock = (case rb_deadline b of
       None \<Rightarrow> False
     | Some d \<Rightarrow> (case now of None \<Rightarrow> clock | Some t \<Rightarrow> t) \<ge> d)"

definition can_retry :: "retry_budget \<Rightarrow> rat option \<Rightarrow> rat \<Rightarrow> bool" where
  "can_retry b now clock =
     (if deadline_exceeded b now clock then False
      else (case rb_max b of None \<Rightarrow> True | Some m \<Rightarrow> rb_consumed b < m))"

definition consume :: "retry_budget \<Rightarrow> rat option \<Rightarrow> rat \<Rightarrow> bool \<times> retry_budget" where
  "consume b now clock =
     (if can_retry b now clock then (True, b\<lparr>rb_consumed := rb_consumed b + 1\<rparr>) else (False, b))"

definition remaining_retries :: "retry_budget \<Rightarrow> int option" where
  "remaining_retries b = (case rb_max b of
       None \<Rightarrow> None
     | Some m \<Rightarrow> Some (if m - rb_consumed b \<ge> 0 then m - rb_consumed b else 0))"

definition time_remaining :: "retry_budget \<Rightarrow> rat option \<Rightarrow> rat \<Rightarrow> rat option" where
  "time_remaining b now clock = (case rb_deadline b of
       None \<Rightarrow> None
     | Some d \<Rightarrow>
         let remaining = d - (case now of None \<Rightarrow> clock | Some t \<Rightarrow> t)
         in Some (if remaining > 0 then remaining else 0))"

definition is_unlimited :: "retry_budget \<Rightarrow> bool" where
  "is_unlimited b \<longleftrightarrow> rb_max b = None \<and> rb_deadline b = None"

text \<open>The clock is read twice when no time is passed in.\<close>

definition exhaustion_reason :: "retry_budget \<Rightarrow> rat option \<Rightarrow> rat \<Rightarrow> rat \<Rightarrow> string option" where
  "exhaustion_reason b now clock1 clock2 =
     (if can_retry b now clock1 then None
      else if deadline_exceeded b now clock2 then Some ''deadline'' else Some ''attempts'')"

section \<open>The budget bounds retries\<close>

interpretation budget: retry_allowance "\<lambda>b (now, clock). consume b now clock"
    "\<lambda>b. rb_max b \<noteq> None" "\<lambda>b. nat (the (rb_max b) - rb_consumed b)"
  by unfold_locales (auto simp: consume_def can_retry_def split: if_splits option.splits)

text \<open>Calls at the given times, each time passed explicitly.\<close>

definition consume_at :: "retry_budget \<Rightarrow> rat list \<Rightarrow> bool list \<times> retry_budget" where
  "consume_at b ts = run_steps (\<lambda>b t. consume b (Some t) t) b ts"

lemma consume_late:
  "rb_deadline b = Some d \<Longrightarrow> \<forall>t \<in> set ts. d \<le> t \<Longrightarrow>
     consume_at b ts = (replicate (length ts) False, b)"
  by (induction ts) (auto simp: consume_at_def consume_def can_retry_def deadline_exceeded_def)

lemma consume_spent:
  "rb_max b = Some m \<Longrightarrow> m \<le> rb_consumed b \<Longrightarrow>
     consume_at b ts = (replicate (length ts) False, b)"
  by (induction ts) (auto simp: consume_at_def consume_def can_retry_def)

text \<open>C32: Consumed at increasing times, a budget grants retries first and refuses from some point on:
  it grants exactly the calls that come before the deadline, cut off at the number of tokens.\<close>

theorem budget_grants_exactly:
  assumes "rb_max b = Some m" and "rb_deadline b = Some d" and "sorted ts"
    and "rb_consumed b \<le> m"
  defines "n \<equiv> min (nat (m - rb_consumed b)) (length (takeWhile (\<lambda>t. t < d) ts))"
  shows "fst (consume_at b ts) = replicate n True @ replicate (length ts - n) False"
  unfolding n_def using assms(1-4)
proof (induction ts arbitrary: b)
  case Nil
  then show ?case by (simp add: consume_at_def)
next
  case (Cons t ts)
  show ?case
  proof (cases "t < d \<and> rb_consumed b < m")
    case True
    let ?b = "b\<lparr>rb_consumed := rb_consumed b + 1\<rparr>"
    have one: "consume b (Some t) t = (True, ?b)"
      using True Cons.prems by (simp add: consume_def can_retry_def deadline_exceeded_def)
    have tok: "nat (m - rb_consumed b) = Suc (nat (m - (rb_consumed b + 1)))" using True by linarith
    have "fst (consume_at b (t # ts)) = True # fst (consume_at ?b ts)"
      by (simp add: consume_at_def one split: prod.split)
    then show ?thesis
      using Cons.IH [of ?b] Cons.prems True unfolding tok by simp
  next
    case False
    then consider "d \<le> t" | "m \<le> rb_consumed b" by linarith
    then show ?thesis
    proof cases
      case 1
      then have "\<forall>x \<in> set (t # ts). d \<le> x" using Cons.prems(3) by auto
      with consume_late [OF Cons.prems(2) this] 1 show ?thesis by simp
    next
      case 2
      with consume_spent [OF Cons.prems(1) 2, of "t # ts"] show ?thesis by simp
    qed
  qed
qed

theorem budget_grants_exactly_witness:
  "fst (consume_at \<lparr>rb_max = Some 2, rb_deadline = Some 10, rb_consumed = 0\<rparr> [1, 2, 3, 11])
     = replicate 2 True @ replicate 2 False"
  using budget_grants_exactly [of "\<lparr>rb_max = Some 2, rb_deadline = Some 10, rb_consumed = 0\<rparr>" 2 10 "[1, 2, 3, 11]"]
  by (simp add: numeral_2_eq_2)

section \<open>The view of a queued mission's budget\<close>

record retry_view =
  rv_attempts :: int
  rv_max :: int
  rv_remaining :: int
  rv_exhausted :: bool
  rv_eligible :: bool
  rv_state :: string
  rv_raw :: "string option"

datatype projection_error = FieldIsBool string | FieldNotInt string | FieldNegative string

definition validated_non_negative_int :: "string \<Rightarrow> pyval \<Rightarrow> projection_error + int" where
  "validated_non_negative_int name v = (case v of
       PNone \<Rightarrow> Inr 0
     | PBool _ \<Rightarrow> Inl (FieldIsBool name)
     | PInt n \<Rightarrow> if n < 0 then Inl (FieldNegative name) else Inr n
     | _ \<Rightarrow> Inl (FieldNotInt name))"

definition state_keys :: "string list" where
  "state_keys = [''state'', ''status'', ''phase'', ''mission_state'', ''lifecycle_state'', ''queue_state'']"

text \<open>The groups of states, in the order the code tries them.\<close>

definition state_groups :: "(string \<times> string list) list" where
  "state_groups =
     [(''completed'', [''completed'', ''success'', ''succeeded'', ''done'']),
      (''failed'', [''failed'', ''error'', ''errored'', ''failure'']),
      (''retrying'', [''retrying'', ''retry'', ''needs_retry'', ''backoff'']),
      (''blocked'', [''blocked'', ''paused'', ''on_hold'', ''hold'', ''waiting'']),
      (''running'', [''running'', ''in_progress'', ''executing'']),
      (''queued'', [''queued'', ''pending'', ''ready'']),
      (''cancelled'', [''cancelled'', ''canceled'', ''aborted'']),
      (''stale-running'', [''stale-running'', ''stale_running'', ''orphaned''])]"

definition canonical_state :: "string \<Rightarrow> string" where
  "canonical_state word =
     (case List.find (\<lambda>(_, names). word \<in> set names) state_groups of
        None \<Rightarrow> ''unknown'' | Some (canonical, _) \<Rightarrow> canonical)"

definition extract_state :: "pyval dict \<Rightarrow> string \<times> pyval" where
  "extract_state mission =
     (let raw = (case List.find (\<lambda>k. map_of mission k \<noteq> None) state_keys of
                   None \<Rightarrow> PNone | Some k \<Rightarrow> dget mission k)
      in (case raw of
            PStr s \<Rightarrow>
              (let word = lower (strip s) in
               (if word = [] then ''unknown'' else canonical_state word, raw))
          | _ \<Rightarrow> (''unknown'', raw)))"

definition compute_retries_remaining :: "int \<Rightarrow> int \<Rightarrow> int" where
  "compute_retries_remaining attempts max_retries =
     (if max_retries - attempts > 0 then max_retries - attempts else 0)"

definition compute_retry_eligibility :: "string \<Rightarrow> bool \<Rightarrow> bool" where
  "compute_retry_eligibility canonical exhausted =
     (if exhausted then False else canonical = ''failed'' \<or> canonical = ''retrying'')"

definition project_retry_budget :: "pyval dict \<Rightarrow> projection_error + retry_view" where
  "project_retry_budget mission =
     ebind (validated_non_negative_int ''attempts_done'' (dget mission ''attempts_done'')) (\<lambda>attempts.
     ebind (validated_non_negative_int ''max_retries'' (dget mission ''max_retries'')) (\<lambda>max_retries.
       let remaining = compute_retries_remaining attempts max_retries;
           (canonical, raw) = extract_state mission;
           exhausted = (remaining = 0)
       in Inr \<lparr>rv_attempts = attempts, rv_max = max_retries, rv_remaining = remaining,
           rv_exhausted = exhausted, rv_eligible = compute_retry_eligibility canonical exhausted,
           rv_state = canonical, rv_raw = (case raw of PStr s \<Rightarrow> Some s | _ \<Rightarrow> None)\<rparr>))"

text \<open>The canonical state of a mission the queue wrote.\<close>

fun canonical_of :: "mission_state \<Rightarrow> string" where
  "canonical_of Pending = ''queued''"
| "canonical_of Running = ''running''"
| "canonical_of Retrying = ''retrying''"
| "canonical_of Completed = ''completed''"
| "canonical_of Failed = ''failed''"
| "canonical_of Blocked = ''blocked''"
| "canonical_of Cancelled = ''cancelled''"

lemma canonical_state_value:
  "lower (strip (state_value st)) = state_value st \<and> state_value st \<noteq> [] \<and>
   canonical_state (state_value st) = canonical_of st"
  by (induction st; code_simp)

lemma extract_state_to_dict:
  "extract_state (to_dict m) = (canonical_of (m_state m), PStr (state_value (m_state m)))"
proof -
  have "List.find (\<lambda>k. map_of (to_dict m) k \<noteq> None) state_keys = Some ''state''"
    "dget (to_dict m) ''state'' = PStr (state_value (m_state m))"
    by (simp_all add: state_keys_def to_dict_def dget_def)
  then show ?thesis
    using canonical_state_value [of "m_state m"] by (simp add: extract_state_def Let_def)
qed

lemma project_to_dict:
  assumes "0 \<le> m_attempts m" and "0 \<le> m_retries m"
  shows "project_retry_budget (to_dict m) = Inr
    \<lparr>rv_attempts = m_attempts m, rv_max = m_retries m,
     rv_remaining = max 0 (m_retries m - m_attempts m),
     rv_exhausted = (m_retries m \<le> m_attempts m),
     rv_eligible = (m_attempts m < m_retries m \<and> m_state m \<in> {Failed, Retrying}),
     rv_state = canonical_of (m_state m), rv_raw = Some (state_value (m_state m))\<rparr>"
proof -
  have at: "dget (to_dict m) ''attempts_done'' = PInt (m_attempts m)"
    "dget (to_dict m) ''max_retries'' = PInt (m_retries m)"
    by (simp_all add: to_dict_def dget_def)
  have "canonical_of st = ''failed'' \<longleftrightarrow> st = Failed" "canonical_of st = ''retrying'' \<longleftrightarrow> st = Retrying" for st
    by (cases st; simp)+
  then show ?thesis
    using assms by (auto simp: project_retry_budget_def at validated_non_negative_int_def Let_def
        extract_state_to_dict compute_retries_remaining_def compute_retry_eligibility_def)
qed

text \<open>C33: The budget view of a mission in any file the queue built never grants a retry the queue
  would refuse: it is eligible exactly for a retrying mission with attempts left, and for a
  failed mission it is always exhausted.\<close>

theorem projection_agrees_with_queue:
  assumes "reachable_disk dflt d" and "mission_at d i = Some m" and "0 \<le> m_retries m"
  shows "\<exists>v. project_retry_budget (to_dict m) = Inr v \<and>
     rv_eligible v = (m_state m = Retrying \<and> m_attempts m < m_retries m) \<and>
     (m_state m = Failed \<longrightarrow> rv_exhausted v)"
proof -
  obtain q where q: "lifecycle q" "mission_at d = map_of (missions q)" using reachable_loads [OF assms(1)] .
  then have "mission_inv q m" using lifecycle_inv [OF q(1)] assms(2) by simp
  then have "0 \<le> m_attempts m" "m_state m = Failed \<longrightarrow> m_retries m < m_attempts m"
    unfolding mission_inv_def by blast+
  then show ?thesis using project_to_dict [OF _ assms(3)] by auto
qed

theorem projection_agrees_with_queue_witness:
  "\<exists>d v. reachable_disk 0 d \<and> mission_at d ''deploy'' = Some demo_deploy \<and>
     project_retry_budget (to_dict demo_deploy) = Inr v \<and> \<not> rv_eligible v"
proof -
  obtain d where d: "reachable_disk 0 d" "mission_at d ''deploy'' = Some demo_deploy"
    using demo_reachable by blast
  have "0 \<le> m_retries demo_deploy" "m_state demo_deploy \<noteq> Retrying" by (simp_all add: demo_deploy_def)
  then show ?thesis using projection_agrees_with_queue [OF d] d by auto
qed

text \<open>C34: The view counts the first execution as a retry: a mission the queue put back for its last
  retry is reported exhausted and not eligible, although a claim still hands out a mission.\<close>

theorem projection_misses_last_retry:
  assumes "reachable_disk dflt d" and "mission_at d i = Some m" and "m_state m = Retrying"
    and "m_attempts m = m_retries m"
  shows "\<exists>v md d'. project_retry_budget (to_dict m) = Inr v \<and> rv_exhausted v \<and> \<not> rv_eligible v \<and>
     claim_file d = Inr (Some md, d')"
proof -
  obtain q where q: "lifecycle q" "mission_at d = map_of (missions q)" using reachable_loads [OF assms(1)] .
  then have inv: "mission_inv q m" using lifecycle_inv [OF q(1)] assms(2) by simp
  have deps: "deps_completed q m" using inv assms(3) by (simp add: mission_inv_def)
  have "0 \<le> m_attempts m" using inv by (simp add: mission_inv_def)
  moreover have "\<exists>md d'. claim_file d = Inr (Some md, d')"
    by (rule claim_file_finds [OF reachable_disk_ok [OF assms(1)] assms(2)])
      (use deps assms(3) q(2) in \<open>auto simp: deps_completed_iff\<close>)
  ultimately show ?thesis using project_to_dict [of m] assms(4) by auto
qed

text \<open>A mission with one retry that failed once.\<close>

definition retry_ops :: "queue_op list" where
  "retry_ops = [Enqueue ''job'' 1 [] (Some 1), Claim, Fail ''job'']"

definition retry_mission :: mission where
  "retry_mission = \<lparr>m_id = ''job'', m_priority = 1, m_deps = [], m_state = Retrying,
     m_seq = 1, m_attempts = 1, m_retries = 1\<rparr>"

lemma retry_run:
  "run_queue 0 retry_ops \<lparr>missions = [], next_seq = 1\<rparr> = Inr \<lparr>missions = [(''job'', retry_mission)], next_seq = 2\<rparr>"
  by code_simp

theorem projection_misses_last_retry_witness:
  "\<exists>d v md d'. reachable_disk 0 d \<and> mission_at d ''job'' = Some retry_mission \<and>
     project_retry_budget (to_dict retry_mission) = Inr v \<and> rv_exhausted v \<and> \<not> rv_eligible v \<and>
     claim_file d = Inr (Some md, d')"
proof -
  obtain d where d: "reachable_disk 0 d" "load_queue d = Inr \<lparr>missions = [(''job'', retry_mission)], next_seq = 2\<rparr>"
    using run_queue_reachable [OF retry_run] by blast
  have at: "mission_at d ''job'' = Some retry_mission" by (simp add: mission_at_loaded [OF d(2)])
  show ?thesis
    using projection_misses_last_retry [OF d(1) at] d(1) at by (auto simp: retry_mission_def)
qed

section \<open>Classifying errors\<close>

text \<open>What the classifier asks of an exception.\<close>

record error_info =
  is_cancelled_error :: bool
  is_timeout_error :: bool

datatype retry_category =
  RetryableCategory | NonRetryable | CancelledCategory | DeadlineExceeded | Exhausted

fun category_wire :: "retry_category \<Rightarrow> string" where
  "category_wire RetryableCategory = ''retryable''"
| "category_wire NonRetryable = ''non_retryable''"
| "category_wire CancelledCategory = ''cancelled''"
| "category_wire DeadlineExceeded = ''deadline_exceeded''"
| "category_wire Exhausted = ''exhausted''"

record classification =
  cl_category :: retry_category
  cl_reason :: "string option"
  cl_metadata :: "(string \<times> string) list option"

definition sanitize_meta :: "(pyval \<times> pyval) list option \<Rightarrow> (string \<times> string) list option" where
  "sanitize_meta metadata = map_option (\<lambda>items. fold (\<lambda>(k, v) clean.
     AList.update (py_str k) (if v = PNone then [] else py_str v) clean) items []) metadata"

definition reason_or :: "string option \<Rightarrow> string \<Rightarrow> string" where
  "reason_or reason fallback = (case reason of Some r \<Rightarrow> if r = [] then fallback else r | None \<Rightarrow> fallback)"

text \<open>\<open>hint\<close> is \<open>Some b\<close> when the hint is a bool.  \<open>None\<close> is the exception for nothing to classify.\<close>

definition classify ::
    "error_info option \<Rightarrow> bool \<Rightarrow> bool \<Rightarrow> bool \<Rightarrow> bool option \<Rightarrow> string option \<Rightarrow>
     (pyval \<times> pyval) list option \<Rightarrow> classification option" where
  "classify err exhausted cancelled deadline hint reason metadata =
     (let result = (\<lambda>c fallback meta.
        Some \<lparr>cl_category = c, cl_reason = Some (reason_or reason fallback), cl_metadata = meta\<rparr>) in
      if err = None \<and> \<not> (exhausted \<or> cancelled \<or> deadline \<or> hint \<noteq> None) then None
      else if exhausted then result Exhausted ''budget_exhausted'' None
      else if cancelled \<or> (case err of Some e \<Rightarrow> is_cancelled_error e | None \<Rightarrow> False)
        then result CancelledCategory ''cancelled'' None
      else if deadline \<or> (case err of Some e \<Rightarrow> is_timeout_error e | None \<Rightarrow> False)
        then result DeadlineExceeded ''deadline_exceeded'' None
      else (case hint of
          Some True \<Rightarrow> result RetryableCategory ''hint_retryable'' (sanitize_meta metadata)
        | Some False \<Rightarrow> result NonRetryable ''hint_non_retryable'' (sanitize_meta metadata)
        | None \<Rightarrow> result NonRetryable ''non_retryable'' (sanitize_meta metadata)))"

definition classification_dict :: "classification \<Rightarrow> pyval dict" where
  "classification_dict c =
     [(''classification'', PStr (category_wire (cl_category c)))] @
     (case cl_reason c of None \<Rightarrow> [] | Some r \<Rightarrow> [(''reason'', PStr r)]) @
     (case cl_metadata c of
        None \<Rightarrow> []
      | Some meta \<Rightarrow> if meta = [] then []
          else [(''metadata'', PDict (map (\<lambda>(k, v). (k, PStr v)) meta))])"

text \<open>Classification fails closed: an error is retryable only on an explicit hint, with no
  exhaustion, cancellation or deadline raised by flag or by the exception itself.\<close>

theorem classify_fails_closed:
  "(\<exists>c. classify err exhausted cancelled deadline hint reason metadata = Some c \<and>
      cl_category c = RetryableCategory) \<longleftrightarrow>
   hint = Some True \<and> \<not> exhausted \<and> \<not> cancelled \<and> \<not> deadline \<and>
   (err = None \<or> (\<exists>e. err = Some e \<and> \<not> is_cancelled_error e \<and> \<not> is_timeout_error e))"
  by (cases err; cases hint) (auto simp: classify_def Let_def split: bool.splits)

end
