(* ===== verification/PyHash.thy ===== *)
theory PyHash
  imports PyValue "HOL-Library.Word"
begin

unbundle bit_operations_syntax

text \<open>
  Text as bytes and its digest: the UTF-8 encoding of the characters U+0000 to U+00FF, and
  SHA-256 as \<open>hashlib\<close> computes it, with the padding, message schedule and rounds of the standard on
  32-bit words.
\<close>

section \<open>UTF-8\<close>

text \<open>One byte, or a lead and a continuation byte.\<close>

definition utf8_char :: "char \<Rightarrow> 8 word list" where
  "utf8_char c = (let n = word_of_nat (of_char c) :: 8 word in
     if n < 0x80 then [n] else [0xC0 OR drop_bit 6 n, 0x80 OR (n AND 0x3F)])"

definition utf8 :: "string \<Rightarrow> 8 word list" where
  "utf8 s = concat (map utf8_char s)"

section \<open>SHA-256\<close>

text \<open>The constants of the standard are the first 32 bits of the fractional parts of roots of primes:
  cube roots for the rounds, square roots for the initial value.  The root is found bit by bit.\<close>

definition trial_primes :: "nat \<Rightarrow> nat list" where
  "trial_primes n = filter (\<lambda>p. \<forall>d \<in> set [2..<p]. p mod d \<noteq> 0) [2..<n]"

definition int_root :: "nat \<Rightarrow> int \<Rightarrow> int" where
  "int_root k n = fold (\<lambda>b r. if (r + 2 ^ b) ^ k \<le> n then r + 2 ^ b else r) (rev [0..<40]) 0"

definition root_bits :: "nat \<Rightarrow> nat \<Rightarrow> 32 word" where
  "root_bits k p = word_of_int (int_root k (int p * 2 ^ (32 * k)))"

definition sha_constants :: "32 word list" where
  "sha_constants = map (root_bits 3) (trial_primes 312)"

definition sha_initial :: "32 word list" where
  "sha_initial = map (root_bits 2) (trial_primes 20)"

definition rotr :: "nat \<Rightarrow> 32 word \<Rightarrow> 32 word" where
  "rotr n x = drop_bit n x OR push_bit (32 - n) x"

text \<open>A set bit, zeros up to eight bytes short of a block, and the length in bits.\<close>

definition length_bytes :: "nat \<Rightarrow> 8 word list" where
  "length_bytes n = map (\<lambda>i. word_of_nat (8 * n div 256 ^ i)) (rev [0..<8])"

definition sha_pad :: "8 word list \<Rightarrow> 8 word list" where
  "sha_pad m = m @ 0x80 # replicate ((119 - length m mod 64) mod 64) 0 @ length_bytes (length m)"

fun big_endian :: "8 word list \<Rightarrow> 32 word list" where
  "big_endian (a # b # c # d # bs) =
     (push_bit 24 (ucast a) OR push_bit 16 (ucast b) OR push_bit 8 (ucast c) OR ucast d) # big_endian bs"
| "big_endian bs = []"

text \<open>The schedule, latest word first.\<close>

fun sha_schedule :: "nat \<Rightarrow> 32 word list \<Rightarrow> 32 word list" where
  "sha_schedule 0 ws = ws"
| "sha_schedule (Suc n) ws =
     (let x = ws ! 14; y = ws ! 1;
          s0 = rotr 7 x XOR rotr 18 x XOR drop_bit 3 x;
          s1 = rotr 17 y XOR rotr 19 y XOR drop_bit 10 y
      in sha_schedule n ((s1 + ws ! 6 + s0 + ws ! 15) # ws))"

fun sha_round :: "32 word \<times> 32 word \<Rightarrow> 32 word list \<Rightarrow> 32 word list" where
  "sha_round (k, w) [a, b, c, d, e, f, g, h] =
     (let t1 = h + (rotr 6 e XOR rotr 11 e XOR rotr 25 e)
            + ((e AND f) XOR (NOT e AND g)) + k + w;
          t2 = (rotr 2 a XOR rotr 13 a XOR rotr 22 a)
            + ((a AND b) XOR (a AND c) XOR (b AND c))
      in [t1 + t2, a, b, c, d + t1, e, f, g])"
| "sha_round p st = st"

definition sha_block :: "32 word list \<Rightarrow> 32 word list \<Rightarrow> 32 word list" where
  "sha_block st block =
     map2 (+) st (fold sha_round (zip sha_constants (rev (sha_schedule 48 (rev block)))) st)"

function sha_blocks :: "32 word list \<Rightarrow> 32 word list \<Rightarrow> 32 word list" where
  "sha_blocks st ws = (if ws = [] then st else sha_blocks (sha_block st (take 16 ws)) (drop 16 ws))"
  by pat_completeness auto
termination by (relation "measure (length \<circ> snd)") auto

declare sha_blocks.simps [simp del]

definition sha256 :: "8 word list \<Rightarrow> 32 word list" where
  "sha256 m = sha_blocks sha_initial (big_endian (sha_pad m))"

definition word_bytes :: "32 word \<Rightarrow> 8 word list" where
  "word_bytes w = map (\<lambda>i. ucast (drop_bit i w)) [24, 16, 8, 0]"

definition sha256_hex :: "string \<Rightarrow> string" where
  "sha256_hex s = concat (map (\<lambda>b. hex2 (unat b)) (concat (map word_bytes (sha256 (utf8 s)))))"

section \<open>The shape of a digest\<close>

lemma sha_round_length: "length (sha_round p st) = length st"
  by (induction p st rule: sha_round.induct) (simp_all add: Let_def)

lemma fold_sha_round_length: "length (fold sha_round ps st) = length st"
  by (induction ps arbitrary: st) (simp_all add: sha_round_length)

lemma sha_blocks_length: "length (sha_blocks st ws) = length st"
proof (induction st ws rule: sha_blocks.induct)
  case (1 st ws)
  have "length (sha_block st b) = length st" for b
    by (simp add: sha_block_def fold_sha_round_length)
  then show ?case using 1 by (subst sha_blocks.simps) simp
qed

lemma sha256_hex_length: "length (sha256_hex s) = 64"
proof -
  have "length (trial_primes 20) = 8" by code_simp
  then have n: "length (sha256 (utf8 s)) = 8"
    by (simp add: sha256_def sha_blocks_length sha_initial_def)
  have flat: "length (concat (map f xs)) = k * length xs" if "\<And>x. length (f x) = k"
    for f :: "'c \<Rightarrow> 'd list" and k xs
    by (induction xs) (simp_all add: that)
  have "length (concat (map (\<lambda>b. hex2 (unat b)) bs)) = 2 * length bs" for bs :: "8 word list"
    by (rule flat) (simp add: hex2_def)
  moreover have "length (concat (map word_bytes ws)) = 4 * length ws" for ws
    by (rule flat) (simp add: word_bytes_def)
  ultimately show ?thesis by (simp add: sha256_hex_def n)
qed

end
