(* ===== verification/RetryEngine.thy ===== *)
theory RetryEngine
  imports RetryPolicy PyHash "HOL-Library.Sublist"
begin

unbundle bit_operations_syntax

text \<open>
  \<^verbatim>\<open>agent/ai/retry_engine.py\<close>: the bounded retry engine of the mission runner.  It decides
  for each failure whether another attempt is allowed, builds the corrective instructions,
  keeps the attempts and reports the final status; error output is redacted and cut to a number
  of UTF-8 bytes.  The redaction patterns of the configuration are the functions their
  substitution computes.
\<close>

section \<open>UTF-8\<close>

definition continuation :: "8 word \<Rightarrow> bool" where
  "continuation b \<longleftrightarrow> b AND 0xC0 = 0x80"

text \<open>Decoding with \<open>errors="ignore"\<close>: bytes that start no complete sequence are dropped.\<close>

fun utf8_decode_ignore :: "8 word list \<Rightarrow> string" where
  "utf8_decode_ignore [] = []"
| "utf8_decode_ignore (b # bs) =
     (if b < 0x80 then char_of (unat b) # utf8_decode_ignore bs
      else if b = 0xC2 \<or> b = 0xC3 then
        (case bs of
           [] \<Rightarrow> []
         | b' # bs' \<Rightarrow>
             if continuation b'
             then char_of (unat (push_bit 6 (b AND 0x03) OR (b' AND 0x3F))) # utf8_decode_ignore bs'
             else utf8_decode_ignore bs)
      else utf8_decode_ignore bs)"

definition truncate_utf8 :: "string \<Rightarrow> nat \<Rightarrow> string" where
  "truncate_utf8 text max_bytes =
     (let data = utf8 text in
      if length data \<le> max_bytes then text
      else utf8_decode_ignore (take max_bytes data))"

lemma utf8_simps [simp]: "utf8 [] = []" "utf8 (c # s) = utf8_char c @ utf8 s"
  by (simp_all add: utf8_def)

text \<open>The byte level, bit by bit.\<close>

lemma less_8_cases:
  "k < 8 \<longleftrightarrow> k = 0 \<or> k = 1 \<or> k = 2 \<or> k = 3 \<or> k = 4 \<or> k = 5 \<or> k = 6 \<or> k = (7 :: nat)"
  by linarith

lemma ascii_iff: "n < 0x80 \<longleftrightarrow> \<not> bit n 7" for n :: "8 word"
proof -
  have "unat n < 256" using unsigned_less [of n] by simp
  then have "unat n div 128 = (if unat n < 128 then 0 else 1)" by (auto intro: div_nat_eqI)
  moreover have "bit n 7 \<longleftrightarrow> odd (unat n div 128)"
    using bit_unsigned_iff [where ?'a = nat, of n 7] bit_iff_odd [of "unat n" 7] by simp
  ultimately show ?thesis by (auto simp: word_less_nat_alt split: if_splits)
qed

lemma lead_byte:
  "bit n 7 \<Longrightarrow> 0xC0 OR drop_bit 6 n = (if bit n 6 then 0xC3 else 0xC2)" for n :: "8 word"
  by (rule bit_word_eqI) (auto simp: less_8_cases bit_simps dest: bit_imp_le_length)

lemma lead_not_ascii: "bit n 7 \<Longrightarrow> \<not> 0xC0 OR drop_bit 6 n < 0x80" for n :: "8 word"
  by (auto simp: ascii_iff bit_simps)

lemma continuation_byte: "continuation (0x80 OR (n AND 0x3F))"
  unfolding continuation_def by (rule bit_word_eqI) (auto simp: less_8_cases bit_simps)

lemma two_bytes:
  "push_bit 6 ((0xC0 OR drop_bit 6 n) AND 0x03) OR ((0x80 OR (n AND 0x3F)) AND 0x3F) = n"
  for n :: "8 word"
  by (rule bit_word_eqI) (simp add: less_8_cases, auto simp: bit_simps)

lemma char_of_byte [simp]: "char_of (unat (word_of_nat (of_char c) :: 8 word)) = (c :: char)"
proof -
  have "(of_char c :: nat) < 256" by (rule nat_of_char_less_256)
  then show ?thesis by (simp add: unat_of_nat)
qed

lemma decode_char [simp]: "utf8_decode_ignore (utf8_char c @ bs) = c # utf8_decode_ignore bs"
proof (cases "(word_of_nat (of_char c) :: 8 word) < 0x80")
  case True
  then show ?thesis by (simp add: utf8_char_def Let_def)
next
  case False
  let ?n = "word_of_nat (of_char c) :: 8 word"
  have b: "bit ?n 7" using False by (simp add: ascii_iff)
  show ?thesis
    using False lead_not_ascii [OF b] lead_byte [OF b] continuation_byte [of ?n] two_bytes [of ?n]
    by (simp add: utf8_char_def Let_def)
qed

lemma decode_partial: "k < length (utf8_char c) \<Longrightarrow> utf8_decode_ignore (take k (utf8_char c)) = []"
proof -
  assume k: "k < length (utf8_char c)"
  let ?n = "word_of_nat (of_char c) :: 8 word"
  show ?thesis
  proof (cases "k = 0")
    case False
    then have "\<not> ?n < 0x80" "k = 1" using k by (auto simp: utf8_char_def Let_def split: if_splits)
    then show ?thesis
      using lead_not_ascii [of ?n] by (simp add: utf8_char_def Let_def ascii_iff)
  qed simp
qed

text \<open>Decoding a cut encoding gives the characters that fit completely.\<close>

fun fitting :: "string \<Rightarrow> nat \<Rightarrow> string" where
  "fitting [] n = []"
| "fitting (c # s) n = (if length (utf8_char c) \<le> n
     then c # fitting s (n - length (utf8_char c)) else [])"

lemma decode_take: "utf8_decode_ignore (take n (utf8 s)) = fitting s n"
proof (induction s arbitrary: n)
  case (Cons c s)
  then show ?case using decode_partial [of n c] by simp
qed simp

lemma utf8_decode [simp]: "utf8_decode_ignore (utf8 s) = s"
  by (induction s) simp_all

lemma truncate_fitting: "truncate_utf8 s n = fitting s n"
  using decode_take [of n s] by (auto simp: truncate_utf8_def Let_def)

lemma prefix_fitting: "prefix p (fitting s n) \<longleftrightarrow> prefix p s \<and> length (utf8 p) \<le> n"
proof (induction s arbitrary: n p)
  case (Cons c s)
  then show ?case by (cases p) auto
qed auto


section \<open>Failures and decisions\<close>

datatype failure_category =
  Generation | Parsing | Policy | Compilation | Validation | Testing | Provider | Git | Unknown

fun failure_value :: "failure_category \<Rightarrow> string" where
  "failure_value Generation = ''generation''"
| "failure_value Parsing = ''parsing''"
| "failure_value Policy = ''policy''"
| "failure_value Compilation = ''compilation''"
| "failure_value Validation = ''validation''"
| "failure_value Testing = ''testing''"
| "failure_value Provider = ''provider''"
| "failure_value Git = ''git''"
| "failure_value Unknown = ''unknown''"

record retry_config =
  rc_max_attempts :: int
  rc_safe_bytes :: int
  rc_redactions :: "(string \<Rightarrow> string) list"

definition make_retry_config :: "retry_config \<Rightarrow> string + retry_config" where
  "make_retry_config c =
     (if rc_max_attempts c \<le> 0 then Inl ''max_attempts must be a positive integer''
      else if rc_safe_bytes c \<le> 0 then Inl ''safe_error_bytes must be a positive integer''
      else Inr c)"

record failure_context =
  fc_category :: failure_category
  fc_summary :: string
  fc_test_failures :: "string list"
  fc_validation_failures :: "string list"
  fc_error_output :: "string option"
  fc_policy_violation :: bool
  fc_unsafe_path :: bool
  fc_secret_exposure :: bool
  fc_dirty_repo :: bool
  fc_git_integrity :: bool
  fc_provider_unavailable :: bool
  fc_provider_auth :: bool
  fc_provider_billing :: bool
  fc_invalid_output :: bool
  fc_missing_deliverables :: bool

record retry_decision =
  rd_retryable :: bool
  rd_reason :: string
  rd_instructions :: "string option"
  rd_blocked :: bool

record retry_attempt =
  ra_number :: int
  ra_timestamp :: string
  ra_succeeded :: bool
  ra_category :: "failure_category option"
  ra_summary :: "string option"
  ra_test_failures :: "string list"
  ra_validation_failures :: "string list"
  ra_snippet :: "string option"
  ra_decision :: "retry_decision option"

record retry_engine =
  re_attempts :: "retry_attempt list"
  re_blocked :: bool

datatype final_status = FinalSucceeded | FinalExhausted | FinalBlocked | FinalFailed

definition decision :: "bool \<Rightarrow> string \<Rightarrow> bool \<Rightarrow> retry_decision" where
  "decision retryable reason blocked =
     \<lparr>rd_retryable = retryable, rd_reason = reason, rd_instructions = None, rd_blocked = blocked\<rparr>"

definition evaluate_failure :: "failure_context \<Rightarrow> retry_decision" where
  "evaluate_failure f =
     (if fc_policy_violation f \<or> fc_unsafe_path f \<or> fc_secret_exposure f then
        decision False ''Security policy violation or secret exposure'' True
      else if fc_dirty_repo f \<or> fc_git_integrity f \<or> fc_category f = Git then
        decision False ''Git repository integrity or dirty state'' True
      else if fc_provider_auth f \<or> fc_provider_billing f \<or> fc_provider_unavailable f then
        decision False ''Provider authentication, billing, or availability failure'' True
      else if fc_category f \<in> {Compilation, Validation, Testing, Parsing} then
        decision True (failure_value (fc_category f) @ '' failure is retryable'') False
      else if fc_invalid_output f \<or> fc_missing_deliverables f \<or> fc_category f = Generation then
        decision True ''Deterministic generation issue (invalid output or missing deliverables)'' False
      else if fc_category f \<in> {Provider, Policy, Git} then
        decision False (failure_value (fc_category f) @ '' failure is not retryable'') False
      else decision True ''Unknown failure considered retryable by policy'' False)"

section \<open>Recording attempts\<close>

definition redact :: "retry_config \<Rightarrow> string \<Rightarrow> string" where
  "redact cfg text = fold (\<lambda>sub t. sub t) (rc_redactions cfg) text"

definition sanitize_error_output :: "retry_config \<Rightarrow> string \<Rightarrow> string" where
  "sanitize_error_output cfg text = truncate_utf8 (redact cfg text) (nat (rc_safe_bytes cfg))"

definition category_guidance :: "failure_category \<Rightarrow> string list" where
  "category_guidance c =
     [''Deterministic Remediation Steps:''] @
     (case c of
        Compilation \<Rightarrow>
          [''- Identify syntax and import errors deterministically.'',
           ''- Correct type hints and resolve missing symbols.'',
           ''- Ensure Python 3.12 compatibility without adding dependencies.'']
      | Validation \<Rightarrow>
          [''- Address each validation failure directly and deterministically.'',
           ''- Keep behavior unchanged outside the failing areas.'']
      | Testing \<Rightarrow>
          [''- Reproduce the failing tests deterministically.'',
           ''- Fix logic while maintaining public contracts.'',
           ''- Do not remove or skip tests.'']
      | Parsing \<Rightarrow>
          [''- Produce valid JSON with stable key ordering and required fields.'',
           ''- Avoid trailing commas and ensure correct data types.'']
      | Generation \<Rightarrow>
          [''- Provide all required deliverables.'',
           ''- Ensure correct file paths and English-only source and comments.'']
      | Provider \<Rightarrow>
          [''- Provider issue detected; adjust prompt deterministically if applicable.'',
           ''- Do not include secrets or tokens in any output.'']
      | Policy \<Rightarrow> [''- Policy violation detected. Do not proceed.'']
      | Git \<Rightarrow> [''- Git integrity issue detected. Stop and request manual intervention.'']
      | Unknown \<Rightarrow> [''- Analyze logs deterministically and correct minimal surface area.'']) @
     [''- Re-run validation and unit tests. Declare success only if all pass.'']"

definition corrective_instructions :: "retry_config \<Rightarrow> string \<Rightarrow> failure_context \<Rightarrow> string" where
  "corrective_instructions cfg requirements f = join_with [CHR 0x0A] (
     [''Follow these corrective steps deterministically. Do not deviate.'', [],
      ''Mission Requirements (preserve exactly):'', strip requirements, [],
      ''Failure Category: '' @ failure_value (fc_category f),
      ''Error Summary: '' @ fc_summary f] @
     (if fc_validation_failures f = [] then []
      else ''Validation Failures:'' # map (\<lambda>v. ''- '' @ v) (fc_validation_failures f)) @
     (if fc_test_failures f = [] then []
      else ''Test Failures:'' # map (\<lambda>t. ''- '' @ t) (fc_test_failures f)) @
     (case fc_error_output f of
        Some out \<Rightarrow> if out = [] then []
          else [''Relevant Error Output (sanitized):'', sanitize_error_output cfg out]
      | None \<Rightarrow> []) @
     [[]] @ category_guidance (fc_category f))"

definition attempts_used :: "retry_engine \<Rightarrow> int" where
  "attempts_used e = int (length (re_attempts e))"

definition attempts_remaining :: "retry_config \<Rightarrow> retry_engine \<Rightarrow> int" where
  "attempts_remaining cfg e =
     (if rc_max_attempts cfg - attempts_used e > 0 then rc_max_attempts cfg - attempts_used e else 0)"

definition engine_init :: retry_engine where
  "engine_init = \<lparr>re_attempts = [], re_blocked = False\<rparr>"

text \<open>\<open>now\<close> is the time stamp.\<close>

definition record_failure ::
    "retry_config \<Rightarrow> string \<Rightarrow> string \<Rightarrow> failure_context \<Rightarrow> retry_engine \<Rightarrow> retry_decision \<times> retry_engine" where
  "record_failure cfg requirements now f e =
     (let number = attempts_used e + 1;
          d = evaluate_failure f;
          d = (if rd_retryable d \<and> rc_max_attempts cfg - number \<le> 0
               then decision False ''Maximum retry attempts exhausted'' False else d);
          d = (if rd_retryable d
               then d\<lparr>rd_instructions := Some (corrective_instructions cfg requirements f)\<rparr> else d);
          snippet = (case fc_error_output f of
              Some out \<Rightarrow> if out = [] then None else Some (sanitize_error_output cfg out)
            | None \<Rightarrow> None);
          attempt = \<lparr>ra_number = number, ra_timestamp = now, ra_succeeded = False,
            ra_category = Some (fc_category f), ra_summary = Some (fc_summary f),
            ra_test_failures = fc_test_failures f,
            ra_validation_failures = fc_validation_failures f,
            ra_snippet = snippet, ra_decision = Some d\<rparr>
      in (d, \<lparr>re_attempts = re_attempts e @ [attempt], re_blocked = (re_blocked e \<or> rd_blocked d)\<rparr>))"

definition record_success :: "string \<Rightarrow> string \<Rightarrow> retry_engine \<Rightarrow> retry_engine" where
  "record_success now summary e = e\<lparr>re_attempts := re_attempts e @
     [\<lparr>ra_number = attempts_used e + 1, ra_timestamp = now, ra_succeeded = True, ra_category = None,
       ra_summary = Some summary, ra_test_failures = [], ra_validation_failures = [],
       ra_snippet = None, ra_decision = None\<rparr>]\<rparr>"

definition final_status :: "retry_config \<Rightarrow> retry_engine \<Rightarrow> final_status" where
  "final_status cfg e =
     (if list_ex ra_succeeded (re_attempts e) then FinalSucceeded
      else if re_blocked e then FinalBlocked
      else if attempts_used e \<ge> rc_max_attempts cfg then FinalExhausted
      else FinalFailed)"

section \<open>Reports\<close>

fun final_value :: "final_status \<Rightarrow> string" where
  "final_value FinalSucceeded = ''succeeded''"
| "final_value FinalExhausted = ''exhausted''"
| "final_value FinalBlocked = ''blocked''"
| "final_value FinalFailed = ''failed''"

definition opt_str :: "string option \<Rightarrow> pyval" where
  "opt_str v = (case v of None \<Rightarrow> PNone | Some s \<Rightarrow> PStr s)"

definition attempt_dict :: "retry_attempt \<Rightarrow> pyval dict" where
  "attempt_dict a =
     [(''number'', PInt (ra_number a)),
      (''timestamp'', PStr (ra_timestamp a)),
      (''succeeded'', PBool (ra_succeeded a)),
      (''category'', opt_str (map_option failure_value (ra_category a))),
      (''error_summary'', opt_str (ra_summary a)),
      (''test_failures'', PList (map PStr (ra_test_failures a))),
      (''validation_failures'', PList (map PStr (ra_validation_failures a))),
      (''error_output_snippet'', opt_str (ra_snippet a)),
      (''retryable'', case ra_decision a of None \<Rightarrow> PNone | Some d \<Rightarrow> PBool (rd_retryable d)),
      (''decision_reason'', opt_str (map_option rd_reason (ra_decision a))),
      (''blocked'', case ra_decision a of None \<Rightarrow> PNone | Some d \<Rightarrow> PBool (rd_blocked d)),
      (''instructions'', case ra_decision a of None \<Rightarrow> PNone | Some d \<Rightarrow> opt_str (rd_instructions d))]"

definition report_dict :: "retry_config \<Rightarrow> string \<Rightarrow> retry_engine \<Rightarrow> pyval dict" where
  "report_dict cfg requirements e =
     [(''mission_requirements'', PStr requirements),
      (''max_attempts'', PInt (rc_max_attempts cfg)),
      (''safe_error_bytes'', PInt (rc_safe_bytes cfg)),
      (''attempts_used'', PInt (attempts_used e)),
      (''attempts_remaining'', PInt (attempts_remaining cfg e)),
      (''status'', PStr (final_value (final_status cfg e))),
      (''success'', PBool (list_ex ra_succeeded (re_attempts e))),
      (''attempts'', PList (map (\<lambda>a. PDict (attempt_dict a)) (re_attempts e)))]"

section \<open>What the engine guarantees\<close>

definition engine_step ::
    "retry_config \<Rightarrow> string \<Rightarrow> retry_engine \<Rightarrow> string \<times> failure_context \<Rightarrow> bool \<times> retry_engine" where
  "engine_step cfg requirements e r = (case record_failure cfg requirements (fst r) (snd r) e of
     (d, e') \<Rightarrow> (rd_retryable d, e'))"

definition engine_left :: "retry_config \<Rightarrow> retry_engine \<Rightarrow> nat" where
  "engine_left cfg e = nat (rc_max_attempts cfg - 1 - attempts_used e)"

lemma attempts_used_record [simp]:
  "attempts_used (snd (record_failure cfg req now f e)) = attempts_used e + 1"
  by (simp add: record_failure_def Let_def attempts_used_def)

lemma retryable_below_limit:
  "rd_retryable (fst (record_failure cfg req now f e)) \<Longrightarrow> attempts_used e + 1 < rc_max_attempts cfg"
  by (simp add: record_failure_def Let_def decision_def split: if_splits)

interpretation engine: retry_allowance "engine_step cfg requirements" "\<lambda>_. True" "engine_left cfg"
  for cfg requirements
proof unfold_locales
  fix e r g e'
  assume s: "engine_step cfg requirements e r = (True, e')"
  then have "rd_retryable (fst (record_failure cfg requirements (fst r) (snd r) e))"
    "e' = snd (record_failure cfg requirements (fst r) (snd r) e)"
    by (auto simp: engine_step_def split: prod.splits)
  then show "engine_left cfg e' < engine_left cfg e"
    using retryable_below_limit [of cfg requirements "fst r" "snd r" e] by (simp add: engine_left_def)
next
  fix e r g e'
  assume s: "engine_step cfg requirements e r = (False, e')"
  then have "e' = snd (record_failure cfg requirements (fst r) (snd r) e)"
    by (auto simp: engine_step_def split: prod.splits)
  then show "engine_left cfg e' \<le> engine_left cfg e" by (simp add: engine_left_def)
qed simp

text \<open>C39: The engine never grants more retries than the configuration allows: over any sequence of
  failures, from a fresh engine, at most \<open>max_attempts - 1\<close> decisions are retryable.\<close>

theorem engine_grants_bounded:
  "length (filter id (fst (run_steps (engine_step cfg requirements) engine_init fs)))
     \<le> nat (rc_max_attempts cfg - 1)"
proof -
  obtain gs e where r: "run_steps (engine_step cfg requirements) engine_init fs = (gs, e)" by fastforce
  have "engine_left cfg engine_init = nat (rc_max_attempts cfg - 1)"
    by (simp add: engine_left_def attempts_used_def engine_init_def)
  then show ?thesis using engine.grants_bounded [OF TrueI r] by (simp add: r)
qed

text \<open>Runs of the engine: failures and successes in any order.\<close>

datatype engine_event = FailureEvent string failure_context | SuccessEvent string string

fun engine_apply :: "retry_config \<Rightarrow> string \<Rightarrow> engine_event \<Rightarrow> retry_engine \<Rightarrow> retry_engine" where
  "engine_apply cfg req (FailureEvent now f) e = snd (record_failure cfg req now f e)"
| "engine_apply cfg req (SuccessEvent now summary) e = record_success now summary e"

definition engine_run :: "retry_config \<Rightarrow> string \<Rightarrow> engine_event list \<Rightarrow> retry_engine" where
  "engine_run cfg req evs = fold (engine_apply cfg req) evs engine_init"

text \<open>The failures that block, whatever the attempts.\<close>

fun blocking :: "engine_event \<Rightarrow> bool" where
  "blocking (SuccessEvent now summary) = False"
| "blocking (FailureEvent now f) =
     (fc_policy_violation f \<or> fc_unsafe_path f \<or> fc_secret_exposure f \<or> fc_dirty_repo f \<or>
      fc_git_integrity f \<or> fc_category f = Git \<or> fc_provider_auth f \<or> fc_provider_billing f \<or>
      fc_provider_unavailable f)"

fun succeeds :: "engine_event \<Rightarrow> bool" where
  "succeeds (SuccessEvent now summary) = True"
| "succeeds (FailureEvent now f) = False"

lemma record_failure_blocked:
  "re_blocked (snd (record_failure cfg req now f e)) \<longleftrightarrow> re_blocked e \<or> blocking (FailureEvent now f)"
  by (simp add: record_failure_def Let_def evaluate_failure_def decision_def)

lemma engine_apply_effect:
  "attempts_used (engine_apply cfg req ev e) = attempts_used e + 1"
  "list_ex ra_succeeded (re_attempts (engine_apply cfg req ev e)) \<longleftrightarrow>
     list_ex ra_succeeded (re_attempts e) \<or> succeeds ev"
  "re_blocked (engine_apply cfg req ev e) \<longleftrightarrow> re_blocked e \<or> blocking ev"
proof -
  show "attempts_used (engine_apply cfg req ev e) = attempts_used e + 1"
  proof (cases ev)
    case (SuccessEvent now summary)
    then show ?thesis by (simp add: record_success_def attempts_used_def)
  qed simp
  show "list_ex ra_succeeded (re_attempts (engine_apply cfg req ev e)) \<longleftrightarrow>
     list_ex ra_succeeded (re_attempts e) \<or> succeeds ev"
    by (cases ev) (simp_all add: record_success_def record_failure_def Let_def)
  show "re_blocked (engine_apply cfg req ev e) \<longleftrightarrow> re_blocked e \<or> blocking ev"
    by (cases ev) (simp_all add: record_success_def record_failure_blocked del: blocking.simps(2))
qed

lemma engine_fold_effect:
  "attempts_used (fold (engine_apply cfg req) evs e) = attempts_used e + int (length evs) \<and>
   (list_ex ra_succeeded (re_attempts (fold (engine_apply cfg req) evs e)) \<longleftrightarrow>
      list_ex ra_succeeded (re_attempts e) \<or> list_ex succeeds evs) \<and>
   (re_blocked (fold (engine_apply cfg req) evs e) \<longleftrightarrow> re_blocked e \<or> list_ex blocking evs)"
  by (induction evs arbitrary: e) (auto simp: engine_apply_effect)

text \<open>The final status reads off the whole history: succeeded when any attempt succeeded, else
  blocked when any failure was a blocking one, else exhausted when the attempts reached the
  limit, else failed.\<close>

theorem final_status_of_history:
  "final_status cfg (engine_run cfg req evs) =
     (if list_ex succeeds evs then FinalSucceeded
      else if list_ex blocking evs then FinalBlocked
      else if int (length evs) \<ge> rc_max_attempts cfg then FinalExhausted
      else FinalFailed)"
  using engine_fold_effect [of cfg req evs engine_init]
  by (simp add: final_status_def engine_run_def) (simp add: engine_init_def attempts_used_def)

text \<open>No error output longer than the configured number of bytes is ever stored: every recorded
  snippet's encoding fits the limit.\<close>

theorem snippets_bounded:
  "\<forall>a \<in> set (re_attempts (engine_run cfg req evs)).
     case ra_snippet a of None \<Rightarrow> True | Some out \<Rightarrow> length (utf8 out) \<le> nat (rc_safe_bytes cfg)"
proof -
  let ?ok = "\<lambda>a. case ra_snippet a of None \<Rightarrow> True | Some out \<Rightarrow> length (utf8 out) \<le> nat (rc_safe_bytes cfg)"
  have fits: "length (utf8 (truncate_utf8 s n)) \<le> n" for s n
    using prefix_fitting [of "fitting s n" s n] by (simp add: truncate_fitting)
  have "list_all ?ok (re_attempts e) \<Longrightarrow> list_all ?ok (re_attempts (engine_apply cfg req ev e))" for ev e
    using fits by (cases ev) (auto simp: record_success_def record_failure_def Let_def
        sanitize_error_output_def split: option.split)
  then have "list_all ?ok (re_attempts e) \<Longrightarrow> list_all ?ok (re_attempts (fold (engine_apply cfg req) evs e))" for e
    by (induction evs arbitrary: e) auto
  from this [of engine_init] show ?thesis by (simp add: engine_run_def engine_init_def list_all_iff)
qed

end
