(* ===== verification/PyMonad.thy ===== *)
theory PyMonad
  imports PyPrelude
begin

text \<open>
  Methods that read and change a component's state and may raise: a function of the state that
  returns the exception or the result, with the state as it is at that point.  What was
  written before an exception stays written.
\<close>

type_synonym ('s, 'e, 'a) action = "'s \<Rightarrow> ('e + 'a) \<times> 's"

definition mret :: "'a \<Rightarrow> ('s, 'e, 'a) action" where
  "mret x = (\<lambda>s. (Inr x, s))"

definition mraise :: "'e \<Rightarrow> ('s, 'e, 'a) action" where
  "mraise e = (\<lambda>s. (Inl e, s))"

definition mbind :: "('s, 'e, 'a) action \<Rightarrow> ('a \<Rightarrow> ('s, 'e, 'b) action) \<Rightarrow> ('s, 'e, 'b) action" where
  "mbind m f = (\<lambda>s. case m s of (Inl e, s') \<Rightarrow> (Inl e, s') | (Inr x, s') \<Rightarrow> f x s')"

text \<open>A computation that only may raise, a test that raises, reading and writing the state.\<close>

definition mlift :: "'e + 'a \<Rightarrow> ('s, 'e, 'a) action" where
  "mlift r = (\<lambda>s. (r, s))"

definition mcheck :: "bool \<Rightarrow> 'e \<Rightarrow> ('s, 'e, unit) action" where
  "mcheck ok e = (if ok then mret () else mraise e)"

definition mget :: "('s, 'e, 's) action" where
  "mget = (\<lambda>s. (Inr s, s))"

definition mput :: "('s \<Rightarrow> 's) \<Rightarrow> ('s, 'e, unit) action" where
  "mput f = (\<lambda>s. (Inr (), f s))"

named_theorems m_simps \<open>running methods\<close>

lemma mret_run [simp, m_simps]: "mret x s = (Inr x, s)"
  and mraise_run [simp, m_simps]: "mraise e s = (Inl e, s)"
  and mlift_run [simp, m_simps]: "mlift r s = (r, s)"
  and mget_run [simp, m_simps]: "mget s = (Inr s, s)"
  and mput_run [simp, m_simps]: "mput f s = (Inr (), f s)"
  and mcheck_run [simp, m_simps]: "mcheck ok e s = (if ok then Inr () else Inl e, s)"
  by (simp_all add: mret_def mraise_def mlift_def mget_def mput_def mcheck_def)

lemma mbind_eq_Inr [m_simps]:
  "mbind m f s = (Inr y, s') \<longleftrightarrow> (\<exists>x s1. m s = (Inr x, s1) \<and> f x s1 = (Inr y, s'))"
  by (auto simp: mbind_def split: prod.splits sum.splits)

lemma mbind_Inr [simp]: "m s = (Inr x, s1) \<Longrightarrow> mbind m f s = f x s1"
  by (simp add: mbind_def)

lemma mbind_Inl [simp]: "m s = (Inl e, s1) \<Longrightarrow> mbind m f s = (Inl e, s1)"
  by (simp add: mbind_def)

lemma mbind_mlift [simp]:
  "mbind (mlift r) f s = (case r of Inl e \<Rightarrow> (Inl e, s) | Inr x \<Rightarrow> f x s)"
  by (simp add: mbind_def split: sum.split)

lemma mbind_mcheck [simp]: "mbind (mcheck ok e) f s = (if ok then f () s else (Inl e, s))"
  by (simp add: mbind_def)

lemma mbind_mget [simp]: "mbind mget f s = f s s"
  by (simp add: mbind_def)

lemma mbind_mput [simp]: "mbind (mput g) f s = f () (g s)"
  by (simp add: mbind_def)

lemma mbind_mret [simp]: "mbind (mret x) f = f x"
  by (rule ext) (simp add: mbind_def)

end
