(* ===== verification/PyTime.thy ===== *)
theory PyTime
  imports PyValue
begin

text \<open>
  UTC time stamps.  An instant is a number of microseconds since 0001-01-01T00:00:00; the text
  form is the one the agent writes, \<open>%Y-%m-%dT%H:%M:%S.%fZ\<close>, with every field padded.  Reading
  accepts exactly the padded form (\<open>strptime\<close> also takes unpadded fields, which the agent never
  writes).  Years are 1000 to 9999, where \<open>%Y\<close> has four digits.
\<close>

section \<open>The calendar\<close>

definition leap_year :: "nat \<Rightarrow> bool" where
  "leap_year y \<longleftrightarrow> (y mod 4 = 0 \<and> y mod 100 \<noteq> 0) \<or> y mod 400 = 0"

definition year_days :: "nat \<Rightarrow> nat" where
  "year_days y = (if leap_year y then 366 else 365)"

definition month_lengths :: "nat \<Rightarrow> nat list" where
  "month_lengths y = [31, if leap_year y then 29 else 28, 31, 30, 31, 30, 31, 31, 30, 31, 30, 31]"

text \<open>Splitting a day number off a list of lengths: the index of the part and the day in it.\<close>

fun split_days :: "nat list \<Rightarrow> nat \<Rightarrow> nat \<times> nat" where
  "split_days [] d = (0, d)"
| "split_days (l # ls) d = (if d < l then (0, d) else (case split_days ls (d - l) of (i, r) \<Rightarrow> (Suc i, r)))"

function split_years :: "nat \<Rightarrow> nat \<Rightarrow> nat \<times> nat" where
  "split_years y d = (if d < year_days y then (y, d) else split_years (Suc y) (d - year_days y))"
  by pat_completeness auto
termination by (relation "measure snd") (auto simp: year_days_def)

declare split_years.simps [simp del]

fun years_before :: "nat \<Rightarrow> nat" where
  "years_before 0 = 0"
| "years_before (Suc n) = years_before n + year_days (Suc n)"

lemma split_years_inverse:
  "split_years (Suc n) d = (y, r) \<Longrightarrow>
     n < y \<and> r < year_days y \<and> years_before (y - 1) + r = years_before n + d"
proof (induction d arbitrary: n rule: less_induct)
  case (less d)
  show ?case
  proof (cases "d < year_days (Suc n)")
    case True
    then have "y = Suc n" "r = d" using less.prems by (auto simp: split_years.simps [of "Suc n" d])
    then show ?thesis using True by simp
  next
    case False
    then have s: "split_years (Suc (Suc n)) (d - year_days (Suc n)) = (y, r)"
      using less.prems by (subst (asm) split_years.simps) simp
    have "d - year_days (Suc n) < d" using False by (auto simp: year_days_def split: if_splits)
    from less.IH [OF this s] False show ?thesis by simp
  qed
qed

lemma split_days_inverse:
  "split_days ls d = (i, r) \<Longrightarrow> d < sum_list ls \<Longrightarrow>
     i < length ls \<and> r < ls ! i \<and> sum_list (take i ls) + r = d"
proof (induction ls arbitrary: d i)
  case (Cons l ls)
  show ?case
  proof (cases "d < l")
    case False
    then obtain j where "split_days ls (d - l) = (j, r)" "i = Suc j"
      using Cons.prems(1) by (auto split: prod.splits)
    moreover have "d - l < sum_list ls" using Cons.prems(2) False by auto
    ultimately have "j < length ls \<and> r < ls ! j \<and> sum_list (take j ls) + r = d - l"
      using Cons.IH by blast
    moreover have "l + (d - l) = d" using False by simp
    ultimately show ?thesis using \<open>i = Suc j\<close> by simp
  qed (use Cons.prems in auto)
qed simp

lemma sum_month_lengths: "sum_list (month_lengths y) = year_days y"
  by (simp add: month_lengths_def year_days_def)

section \<open>Text\<close>

definition pad :: "nat \<Rightarrow> nat \<Rightarrow> string" where
  "pad w n = replicate (w - length (nat_str n)) (CHR ''0'') @ nat_str n"

definition usec :: int where "usec = 1000000"

definition isoformat :: "int \<Rightarrow> string" where
  "isoformat t =
     (let n = nat t; us = n mod 1000000; secs = n div 1000000;
          s = secs mod 60; mi = secs div 60 mod 60; h = secs div 3600 mod 24;
          (y, yd) = split_years 1 (secs div 86400);
          (m, d) = split_days (month_lengths y) yd
      in pad 4 y @ ''-'' @ pad 2 (m + 1) @ ''-'' @ pad 2 (d + 1) @ ''T'' @
         pad 2 h @ '':'' @ pad 2 mi @ '':'' @ pad 2 s @ ''.'' @ pad 6 us @ ''Z'')"

definition parse_fields :: "nat \<Rightarrow> nat \<Rightarrow> nat \<Rightarrow> nat \<Rightarrow> nat \<Rightarrow> nat \<Rightarrow> nat \<Rightarrow> int option" where
  "parse_fields y m d h mi s us =
     (if 1 \<le> y \<and> 1 \<le> m \<and> m \<le> 12 \<and> 1 \<le> d \<and> d \<le> month_lengths y ! (m - 1) \<and>
         h < 24 \<and> mi < 60 \<and> s < 60
      then Some (int (((years_before (y - 1) + sum_list (take (m - 1) (month_lengths y)) + (d - 1))
        * 86400 + h * 3600 + mi * 60 + s) * 1000000 + us))
      else None)"

text \<open>Reading a fixed number of digits, and one fixed character.\<close>

definition read_digits :: "nat \<Rightarrow> string \<Rightarrow> (nat \<times> string) option" where
  "read_digits w s = (if length s < w \<or> \<not> list_all is_digit (take w s) then None
     else Some (nat_val (take w s), drop w s))"

definition read_char :: "char \<Rightarrow> string \<Rightarrow> string option" where
  "read_char c s = (case s of [] \<Rightarrow> None | x # r \<Rightarrow> if x = c then Some r else None)"

definition read_field :: "nat \<Rightarrow> char \<Rightarrow> string \<Rightarrow> (nat \<times> string) option" where
  "read_field w c s = Option.bind (read_digits w s) (\<lambda>(n, r).
     Option.bind (read_char c r) (\<lambda>r'. Some (n, r')))"

definition parse_isoformat :: "string \<Rightarrow> int option" where
  "parse_isoformat txt =
     Option.bind (read_field 4 (CHR ''-'') txt) (\<lambda>(y, txt).
     Option.bind (read_field 2 (CHR ''-'') txt) (\<lambda>(m, txt).
     Option.bind (read_field 2 (CHR ''T'') txt) (\<lambda>(d, txt).
     Option.bind (read_field 2 (CHR '':'') txt) (\<lambda>(h, txt).
     Option.bind (read_field 2 (CHR '':'') txt) (\<lambda>(mi, txt).
     Option.bind (read_field 2 (CHR ''.'') txt) (\<lambda>(s, txt).
     Option.bind (read_field 6 (CHR ''Z'') txt) (\<lambda>(us, txt).
       if txt = [] then parse_fields y m d h mi s us else None)))))))"

text \<open>The instants the text form covers.\<close>

definition year_of :: "int \<Rightarrow> nat" where
  "year_of t = fst (split_years 1 (nat t div 1000000 div 86400))"

definition valid_instant :: "int \<Rightarrow> bool" where
  "valid_instant t \<longleftrightarrow> 0 \<le> t \<and> year_of t \<le> 9999"

lemma length_nat_str: "0 < w \<Longrightarrow> n < 10 ^ w \<Longrightarrow> length (nat_str n) \<le> w"
proof (induction n arbitrary: w rule: nat_str.induct)
  case (1 n)
  show ?case
  proof (cases "n < 10")
    case True
    then show ?thesis using "1.prems" by (subst nat_str.simps) simp
  next
    case False
    then have w: "1 < w" using "1.prems" by (cases w; cases "w - 1") auto
    then have "10 ^ w = 10 * (10 :: nat) ^ (w - 1)" by (cases w) auto
    then have "n div 10 < 10 ^ (w - 1)" using "1.prems" by (simp add: div_less_iff_less_mult mult.commute)
    then have "length (nat_str (n div 10)) \<le> w - 1" using "1.IH" [OF False, of "w - 1"] w by simp
    then show ?thesis using w False by (subst nat_str.simps) simp
  qed
qed

lemma nat_val_pad [simp]: "nat_val (pad w n) = n"
proof -
  have "foldl (\<lambda>n c. 10 * n + digit_val c) 0 (replicate k (CHR ''0'')) = 0" for k
    by (induction k) (simp_all add: digit_val_def)
  then show ?thesis using nat_val_nat_str [of n] by (simp add: nat_val_def pad_def)
qed

lemma length_pad: "0 < w \<Longrightarrow> n < 10 ^ w \<Longrightarrow> length (pad w n) = w"
  using length_nat_str [of w n] by (simp add: pad_def)

lemma pad_digits: "list_all is_digit (pad w n)"
  using nat_str_digits [of n] by (auto simp: pad_def list_all_iff is_digit_def)

lemma read_field_pad:
  assumes "0 < w" and "n < 10 ^ w"
  shows "read_field w c (pad w n @ c # r) = Some (n, r)"
  using length_pad [OF assms] pad_digits [of w n]
  by (simp add: read_field_def read_digits_def read_char_def)

lemma day_parts:
  "n div 86400 * 86400 + n div 3600 mod 24 * 3600 + n div 60 mod 60 * 60 + n mod 60 = n" for n :: nat
proof -
  have b: "n div 60 = n div 3600 * 60 + n div 60 mod 60"
    using div_mult_mod_eq [of "n div 60" 60] by (simp add: div_mult2_eq [symmetric])
  have c: "n div 3600 = n div 86400 * 24 + n div 3600 mod 24"
    using div_mult_mod_eq [of "n div 3600" 24] by (simp add: div_mult2_eq [symmetric])
  show ?thesis using div_mult_mod_eq [of n 60] b c by linarith
qed

text \<open>A time stamp is read back as the instant it was written for.\<close>

theorem parse_isoformat_inverse:
  assumes "valid_instant t"
  shows "parse_isoformat (isoformat t) = Some t"
proof -
  let ?n = "nat t"
  let ?us = "?n mod 1000000" and ?secs = "?n div 1000000"
  let ?s = "?secs mod 60" and ?mi = "?secs div 60 mod 60" and ?h = "?secs div 3600 mod 24"
  obtain y yd where y: "split_years (Suc 0) (?secs div 86400) = (y, yd)" by fastforce
  note yy = split_years_inverse [OF y]
  obtain m d where m: "split_days (month_lengths y) yd = (m, d)" by fastforce
  have yd: "yd < sum_list (month_lengths y)" using yy by (simp add: sum_month_lengths)
  note mm = split_days_inverse [OF m yd]
  have len: "length (month_lengths y) = 12" by (simp add: month_lengths_def)
  have m12: "m < 12" using mm len by simp
  have "\<forall>l \<in> set (month_lengths y). l \<le> 31" by (simp add: month_lengths_def)
  then have d31: "d < 31" using mm nth_mem [of m "month_lengths y"] by fastforce
  have y4: "y \<le> 9999" using assms y by (simp add: valid_instant_def year_of_def)
  have days: "years_before (y - 1) + sum_list (take m (month_lengths y)) + d = ?secs div 86400"
    using yy mm by simp
  have parts: "?secs div 86400 * 86400 + ?h * 3600 + ?mi * 60 + ?s = ?secs"
    by (rule day_parts)
  have t: "?secs * 1000000 + ?us = ?n" by simp
  have pf: "parse_fields y (m + 1) (d + 1) ?h ?mi ?s ?us = Some t"
  proof -
    have num: "((years_before (y - 1) + sum_list (take (m + 1 - 1) (month_lengths y)) + (d + 1 - 1)) * 86400
        + ?h * 3600 + ?mi * 60 + ?s) * 1000000 + ?us = ?n"
      using days parts t by simp
    have cond: "1 \<le> y \<and> 1 \<le> m + 1 \<and> m + 1 \<le> 12 \<and> 1 \<le> d + 1 \<and>
        d + 1 \<le> month_lengths y ! (m + 1 - 1) \<and> ?h < 24 \<and> ?mi < 60 \<and> ?s < 60"
      using yy mm m12 by simp
    have "0 \<le> t" using assms by (simp add: valid_instant_def)
    then show ?thesis unfolding parse_fields_def if_P [OF cond] num by simp
  qed
  have rd: "read_field 4 c (pad 4 y @ c # r) = Some (y, r)"
    "read_field 2 c (pad 2 (m + 1) @ c # r) = Some (m + 1, r)"
    "read_field 2 c (pad 2 (d + 1) @ c # r) = Some (d + 1, r)"
    "read_field 2 c (pad 2 ?h @ c # r) = Some (?h, r)"
    "read_field 2 c (pad 2 ?mi @ c # r) = Some (?mi, r)"
    "read_field 2 c (pad 2 ?s @ c # r) = Some (?s, r)"
    "read_field 6 c (pad 6 ?us @ c # r) = Some (?us, r)" for c r
    using y4 m12 d31 by (simp_all add: read_field_pad)
  have body: "isoformat t = pad 4 y @ CHR ''-'' # pad 2 (m + 1) @ CHR ''-'' # pad 2 (d + 1) @ CHR ''T'' #
      pad 2 ?h @ CHR '':'' # pad 2 ?mi @ CHR '':'' # pad 2 ?s @ CHR ''.'' # pad 6 ?us @ [CHR ''Z'']"
    using y m by (simp add: isoformat_def Let_def)
  show ?thesis unfolding parse_isoformat_def body by (simp only: rd bind.simps prod.case pf simp_thms if_True)
qed

end
