(* ===== verification/RateLimiter.thy ===== *)
theory RateLimiter
  imports PyMonad PyTime PyJson
begin

text \<open>
  \<^verbatim>\<open>agent/providers/provider_rate_limiter.py\<close>: the per-project sliding-window limiter.  Its
  state is the text of each project's \<^verbatim>\<open>state.json\<close> and of \<^verbatim>\<open>events.json\<close>; a method
  runs under the project's lock and is one step.  \<open>clock\<close> is what the injected clock returns
  during the call, \<open>known\<close> the project resolver.
\<close>

section \<open>State\<close>

record limiter =
  lm_projects :: "string dict"
  lm_events :: "string option"

datatype limiter_error =
    LimValue string
  | LimRuntime string
  | LimShape   \<comment> \<open>TypeError, KeyError or AttributeError on a persisted value of the wrong shape\<close>

record limit_decision =
  dc_allowed :: bool
  dc_reason :: "string option"
  dc_remaining :: "int option"
  dc_reset :: "string option"
  dc_project :: string
  dc_request :: string
  dc_evaluated :: string

type_synonym 'a limiter_method = "(limiter, limiter_error, 'a) action"

definition limiter_init :: limiter where
  "limiter_init = \<lparr>lm_projects = [], lm_events = Some (json_dumps False (PList []))\<rparr>"

section \<open>Checks\<close>

definition id_char :: "char \<Rightarrow> bool" where
  "id_char c = (let n = of_char c :: nat in
     48 \<le> n \<and> n \<le> 57 \<or> 65 \<le> n \<and> n \<le> 90 \<or> 97 \<le> n \<and> n \<le> 122 \<or> n = 95 \<or> n = 45)"

definition safe_project_id :: "string \<Rightarrow> bool" where
  "safe_project_id s \<longleftrightarrow> s \<noteq> [] \<and> length s \<le> 128 \<and> list_all id_char s"

definition known_project :: "(string \<Rightarrow> bool) \<Rightarrow> string \<Rightarrow> limiter_error + unit" where
  "known_project known pid =
     (if \<not> safe_project_id pid then Inl (LimValue ''invalid project_id'')
      else if \<not> known pid then Inl (LimValue ''unknown project'') else Inr ())"

definition valid_request_id :: "string \<Rightarrow> limiter_error + unit" where
  "valid_request_id rid =
     (if rid = [] \<or> length rid > 256 then Inl (LimValue ''invalid request_id'')
      else if list_ex (\<lambda>c. c \<in> {CHR ''/'', CHR 0x5C, CHR 0x0A, CHR 0x0D, CHR 0x09}) rid
        then Inl (LimValue ''invalid request_id characters'')
      else Inr ())"

definition is_int :: "pyval \<Rightarrow> bool" where
  "is_int v = (case v of PInt _ \<Rightarrow> True | PBool _ \<Rightarrow> True | _ \<Rightarrow> False)"

definition int_of :: "pyval \<Rightarrow> int" where
  "int_of v = (case py_int v of Inl _ \<Rightarrow> 0 | Inr i \<Rightarrow> i)"

definition is_bool :: "pyval \<Rightarrow> bool" where
  "is_bool v = (case v of PBool _ \<Rightarrow> True | _ \<Rightarrow> False)"

definition positive_int :: "pyval \<Rightarrow> bool" where
  "positive_int v \<longleftrightarrow> is_int v \<and> 0 < int_of v"

definition burst_ok :: "pyval \<Rightarrow> bool" where
  "burst_ok v \<longleftrightarrow> v = PNone \<or> is_int v \<and> 0 \<le> int_of v"

definition burst_value :: "pyval \<Rightarrow> pyval" where
  "burst_value v = (if v = PNone then PNone else PInt (int_of v))"

text \<open>\<open>isinstance(x, int)\<close> holds for booleans; \<open>int(x)\<close> then makes them 0 or 1.\<close>

definition limits_ok :: "pyval dict \<Rightarrow> limiter_error + unit" where
  "limits_ok c =
     (if \<not> is_bool (dget c ''enabled'') then Inl (LimValue ''enabled must be boolean'')
      else if \<not> positive_int (dget c ''request_limit'')
        then Inl (LimValue ''request_limit must be a positive integer'')
      else if \<not> positive_int (dget c ''window_seconds'')
        then Inl (LimValue ''window_seconds must be a positive integer'')
      else if \<not> burst_ok (dget c ''burst_limit'')
        then Inl (LimValue ''burst_limit must be non-negative integer or null'')
      else Inr ())"

definition config_dict :: "string \<Rightarrow> pyval dict \<Rightarrow> pyval \<Rightarrow> pyval \<Rightarrow> pyval dict" where
  "config_dict pid c created updated =
     [(''project_id'', PStr pid), (''enabled'', dget c ''enabled''),
      (''request_limit'', PInt (int_of (dget c ''request_limit''))),
      (''window_seconds'', PInt (int_of (dget c ''window_seconds''))),
      (''burst_limit'', burst_value (dget c ''burst_limit'')),
      (''created_at'', created), (''updated_at'', updated)]"

definition required_fields :: "string list" where
  "required_fields = [''project_id'', ''enabled'', ''request_limit'', ''window_seconds'', ''burst_limit'']"

definition validate_new_config :: "int \<Rightarrow> string \<Rightarrow> pyval dict \<Rightarrow> limiter_error + pyval dict" where
  "validate_new_config clock pid config =
     (case List.find (\<lambda>(k, v). k \<notin> set required_fields \<union> {''created_at'', ''updated_at''}) config of
        Some (k, v) \<Rightarrow> Inl (LimValue (''unknown config field: '' @ k))
      | None \<Rightarrow>
          if \<not> list_all (\<lambda>k. k \<in> fst ` set config) required_fields
          then Inl (LimValue ''missing config field'')
          else if dget config ''project_id'' \<noteq> PStr pid
          then Inl (LimValue ''project_id mismatch in config'')
          else ebind (limits_ok config) (\<lambda>_.
            let created = (if py_truth (dget config ''created_at'') then dget config ''created_at''
                           else PStr (isoformat clock));
                updated = (if py_truth (dget config ''updated_at'') then dget config ''updated_at''
                           else created)
            in Inr (config_dict pid config created updated)))"

definition update_fields :: "string list" where
  "update_fields = [''enabled'', ''request_limit'', ''window_seconds'', ''burst_limit'']"

definition validate_update_fields :: "pyval dict \<Rightarrow> limiter_error + unit" where
  "validate_update_fields changes =
     (case List.find (\<lambda>(k, v). k \<notin> set update_fields) changes of
        Some (k, v) \<Rightarrow> Inl (LimValue (''unknown update field: '' @ k))
      | None \<Rightarrow>
          let given = (\<lambda>k. k \<in> fst ` set changes) in
          if given ''enabled'' \<and> \<not> is_bool (dget changes ''enabled'')
            then Inl (LimValue ''enabled must be boolean'')
          else if given ''request_limit'' \<and> \<not> positive_int (dget changes ''request_limit'')
            then Inl (LimValue ''request_limit must be a positive integer'')
          else if given ''window_seconds'' \<and> \<not> positive_int (dget changes ''window_seconds'')
            then Inl (LimValue ''window_seconds must be a positive integer'')
          else if given ''burst_limit'' \<and> \<not> burst_ok (dget changes ''burst_limit'')
            then Inl (LimValue ''burst_limit must be non-negative integer or null'')
          else Inr ())"

definition validate_existing_config :: "int \<Rightarrow> pyval dict \<Rightarrow> limiter_error + pyval dict" where
  "validate_existing_config clock c =
     (case dget c ''project_id'' of
        PStr pid \<Rightarrow>
          if safe_project_id pid then
            ebind (limits_ok c) (\<lambda>_.
              let stamp = (\<lambda>v. if is_str v then v else PStr (isoformat clock)) in
              Inr (config_dict pid c (stamp (dget c ''created_at'')) (stamp (dget c ''updated_at''))))
          else Inl (LimValue ''invalid project_id in existing config'')
      | _ \<Rightarrow> Inl (LimValue ''invalid project_id in existing config''))"

section \<open>Windows\<close>

text \<open>The entries of a window map request ids to time stamps.\<close>

definition stamp_of :: "pyval \<Rightarrow> int option" where
  "stamp_of v = (case v of PStr s \<Rightarrow> parse_isoformat s | _ \<Rightarrow> None)"

definition prune_entries :: "int \<Rightarrow> int \<Rightarrow> pyval dict \<Rightarrow> pyval dict" where
  "prune_entries now window entries = filter (\<lambda>(rid, ts). case stamp_of ts of
       None \<Rightarrow> False | Some t \<Rightarrow> \<not> t \<le> now - window * usec) entries"

definition compute_reset_at :: "pyval dict \<Rightarrow> int \<Rightarrow> string option" where
  "compute_reset_at entries window =
     (if entries = [] \<or> list_ex (\<lambda>(rid, ts). stamp_of ts = None) entries then None
      else Some (isoformat (Min (set (map (\<lambda>(rid, ts). the (stamp_of ts)) entries)) + window * usec)))"

definition sorted_entries :: "pyval dict \<Rightarrow> pyval dict" where
  "sorted_entries entries =
     (if list_ex (\<lambda>(rid, ts). stamp_of ts = None) entries then sort_key fst entries
      else sort_key (\<lambda>(rid, ts). (the (stamp_of ts), rid)) entries)"

section \<open>Storage\<close>

definition write_text :: "string \<Rightarrow> pyval dict \<Rightarrow> unit limiter_method" where
  "write_text pid st = mput (\<lambda>lm. lm\<lparr>lm_projects :=
     AList.update pid (json_dumps False (PDict st)) (lm_projects lm)\<rparr>)"

definition new_window :: "string \<Rightarrow> pyval" where
  "new_window now = PDict [(''entries'', PDict []), (''last_evaluated_at'', PStr now)]"

definition new_state :: "string \<Rightarrow> string \<Rightarrow> pyval dict" where
  "new_state pid now = [(''version'', PInt 1), (''project_id'', PStr pid), (''config'', PNone),
     (''window'', new_window now), (''updated_at'', PStr now)]"

definition read_state :: "string \<Rightarrow> string \<Rightarrow> limiter_error + pyval dict" where
  "read_state pid raw = (case json_loads raw of
       None \<Rightarrow> Inl (LimRuntime ''corrupted storage: invalid JSON'')
     | Some (PDict d) \<Rightarrow>
         if dget d ''project_id'' = PStr pid \<and> map_of d ''window'' \<noteq> None then Inr d
         else Inl (LimRuntime ''corrupted storage: invalid structure'')
     | Some _ \<Rightarrow> Inl (LimRuntime ''corrupted storage: invalid structure''))"

definition load_state :: "int \<Rightarrow> string \<Rightarrow> pyval dict limiter_method" where
  "load_state clock pid = mbind mget (\<lambda>lm. case map_of (lm_projects lm) pid of
       None \<Rightarrow> (let st = new_state pid (isoformat clock)
                in mbind (write_text pid st) (\<lambda>_. mret st))
     | Some raw \<Rightarrow> mlift (read_state pid raw))"

text \<open>\<open>_write_state\<close> puts the entries in order first.\<close>

definition write_state :: "string \<Rightarrow> pyval dict \<Rightarrow> unit limiter_method" where
  "write_state pid st = (case dget st ''window'' of
       PDict win \<Rightarrow>
         (case dget_or win ''entries'' (PDict []) of
            PDict es \<Rightarrow> write_text pid (AList.update ''window''
              (PDict (AList.update ''entries'' (PDict (sorted_entries es)) win)) st)
          | _ \<Rightarrow> mraise LimShape)
     | _ \<Rightarrow> write_text pid st)"

definition event_keys :: "string list" where
  "event_keys = [''type'', ''project_id'', ''request_id'', ''timestamp'', ''reason'', ''remaining'',
     ''capacity'', ''window_size'', ''request_limit'', ''window_seconds'', ''burst_limit'',
     ''enabled'', ''unrestricted'']"

definition read_events :: "limiter \<Rightarrow> limiter_error + pyval list" where
  "read_events lm = (case lm_events lm of
       None \<Rightarrow> Inr []
     | Some raw \<Rightarrow> (case json_loads raw of
           None \<Rightarrow> Inl (LimRuntime ''corrupted events storage'')
         | Some (PList evs) \<Rightarrow> Inr (filter is_dict evs)
         | Some _ \<Rightarrow> Inl (LimRuntime ''corrupted events storage structure'')))"

definition emit_event :: "pyval dict \<Rightarrow> unit limiter_method" where
  "emit_event ev = mbind mget (\<lambda>lm. mbind (mlift (read_events lm)) (\<lambda>evs.
     mput (\<lambda>lm. lm\<lparr>lm_events := Some (json_dumps False
       (PList (evs @ [PDict (filter (\<lambda>(k, v). k \<in> set event_keys) ev)])))\<rparr>)))"

section \<open>Reading the state\<close>

text \<open>\<open>not cfg or not cfg.get("enabled", False)\<close>: no active configuration is \<open>None\<close>.\<close>

definition active_config :: "pyval dict \<Rightarrow> limiter_error + pyval dict option" where
  "active_config st = (let cfg = dget st ''config'' in
     if \<not> py_truth cfg then Inr None
     else (case cfg of
         PDict c \<Rightarrow> Inr (if py_truth (dget_or c ''enabled'' (PBool False)) then Some c else None)
       | _ \<Rightarrow> Inl LimShape))"

definition window_entries :: "pyval dict \<Rightarrow> limiter_error + pyval dict" where
  "window_entries st = (case dget_or st ''window'' (PDict []) of
       PDict win \<Rightarrow> (case dget_or win ''entries'' (PDict []) of
           PDict es \<Rightarrow> Inr es | _ \<Rightarrow> Inl LimShape)
     | _ \<Rightarrow> Inl LimShape)"

definition config_int :: "pyval dict \<Rightarrow> string \<Rightarrow> limiter_error + int" where
  "config_int c k = (case map_of c k of
       None \<Rightarrow> Inl LimShape
     | Some v \<Rightarrow> (case py_int v of Inl _ \<Rightarrow> Inl LimShape | Inr i \<Rightarrow> Inr i))"

definition capacity_of :: "pyval dict \<Rightarrow> limiter_error + int" where
  "capacity_of c = (if dget c ''burst_limit'' \<noteq> PNone then config_int c ''burst_limit''
                    else config_int c ''request_limit'')"

definition unrestricted :: "string \<Rightarrow> string \<Rightarrow> int \<Rightarrow> limit_decision" where
  "unrestricted pid rid now = \<lparr>dc_allowed = True, dc_reason = None, dc_remaining = None,
     dc_reset = None, dc_project = pid, dc_request = rid, dc_evaluated = isoformat now\<rparr>"

section \<open>The public methods\<close>

definition configure_limit ::
    "(string \<Rightarrow> bool) \<Rightarrow> int \<Rightarrow> string \<Rightarrow> pyval dict \<Rightarrow> pyval dict limiter_method" where
  "configure_limit known clock pid config =
     mbind (mlift (known_project known pid)) (\<lambda>_.
     mbind (mlift (validate_new_config clock pid config)) (\<lambda>cfg.
     mbind (load_state clock pid) (\<lambda>st.
     let now = isoformat clock;
         st = AList.update ''config'' (PDict cfg) st;
         st = AList.update ''updated_at'' (PStr now) st;
         st = AList.update ''window'' (new_window now) st
     in mbind (write_state pid st) (\<lambda>_.
        mbind (emit_event
          [(''type'', PStr ''rate_limit_configured''), (''project_id'', PStr pid),
           (''timestamp'', dget cfg ''updated_at''),
           (''request_limit'', dget cfg ''request_limit''),
           (''window_seconds'', dget cfg ''window_seconds''),
           (''burst_limit'', dget cfg ''burst_limit''), (''enabled'', dget cfg ''enabled'')]) (\<lambda>_.
        mret cfg)))))"

definition update_limit ::
    "(string \<Rightarrow> bool) \<Rightarrow> int \<Rightarrow> string \<Rightarrow> pyval dict \<Rightarrow> pyval dict limiter_method" where
  "update_limit known clock pid changes =
     mbind (mlift (known_project known pid)) (\<lambda>_.
     mbind (mlift (validate_update_fields changes)) (\<lambda>_.
     mbind (load_state clock pid) (\<lambda>st.
     (case dget st ''config'' of
        PNone \<Rightarrow> mraise (LimValue ''no active configuration to update'')
      | PDict c \<Rightarrow>
          mbind (mlift (validate_existing_config clock
            (fold (\<lambda>(k, v). AList.update k v) changes c))) (\<lambda>cfg.
          let now = isoformat clock;
              cfg = AList.update ''updated_at'' (PStr now) cfg;
              st = AList.update ''config'' (PDict cfg) st;
              st = AList.update ''updated_at'' (PStr now) st
          in mbind (write_state pid st) (\<lambda>_.
             mbind (emit_event
               [(''type'', PStr ''rate_limit_updated''), (''project_id'', PStr pid),
                (''timestamp'', PStr now), (''request_limit'', dget cfg ''request_limit''),
                (''window_seconds'', dget cfg ''window_seconds''),
                (''burst_limit'', dget cfg ''burst_limit''), (''enabled'', dget cfg ''enabled'')]) (\<lambda>_.
             mret cfg)))
      | _ \<Rightarrow> mraise LimShape))))"

definition get_limit :: "(string \<Rightarrow> bool) \<Rightarrow> int \<Rightarrow> string \<Rightarrow> pyval limiter_method" where
  "get_limit known clock pid =
     mbind (mlift (known_project known pid)) (\<lambda>_.
     mbind (load_state clock pid) (\<lambda>st. mret (dget st ''config'')))"

definition remove_limit :: "(string \<Rightarrow> bool) \<Rightarrow> int \<Rightarrow> string \<Rightarrow> bool limiter_method" where
  "remove_limit known clock pid =
     mbind (mlift (known_project known pid)) (\<lambda>_.
     mbind (load_state clock pid) (\<lambda>st.
     let removed = (dget st ''config'' \<noteq> PNone); now = isoformat clock;
         st = AList.update ''config'' PNone st;
         st = AList.update ''updated_at'' (PStr now) st;
         st = AList.update ''window'' (new_window now) st
     in mbind (write_state pid st) (\<lambda>_.
        mbind (if removed then emit_event
            [(''type'', PStr ''rate_limit_removed''), (''project_id'', PStr pid),
             (''timestamp'', PStr now)] else mret ()) (\<lambda>_.
        mret removed))))"

definition check_request ::
    "(string \<Rightarrow> bool) \<Rightarrow> int \<Rightarrow> string \<Rightarrow> string \<Rightarrow> int option \<Rightarrow> limit_decision limiter_method" where
  "check_request known clock pid rid ts =
     mbind (mlift (known_project known pid)) (\<lambda>_.
     mbind (mlift (valid_request_id rid)) (\<lambda>_.
     let now = (case ts of None \<Rightarrow> clock | Some t \<Rightarrow> t) in
     mbind (load_state clock pid) (\<lambda>st.
     mbind (mlift (active_config st)) (\<lambda>active.
     (case active of
        None \<Rightarrow> mret (unrestricted pid rid now)
      | Some c \<Rightarrow>
          mbind (mlift (window_entries st)) (\<lambda>entries.
          mbind (mlift (config_int c ''window_seconds'')) (\<lambda>window.
          let entries = prune_entries now window entries in
          if rid \<in> fst ` set entries then
            mret \<lparr>dc_allowed = False, dc_reason = Some ''duplicate_request'',
              dc_remaining = Some (int (length entries) - 1),
              dc_reset = compute_reset_at entries window, dc_project = pid, dc_request = rid,
              dc_evaluated = isoformat now\<rparr>
          else
            mbind (mlift (capacity_of c)) (\<lambda>capacity.
            let remaining = max 0 (capacity - int (length entries)) in
            mret \<lparr>dc_allowed = (remaining > 0),
              dc_reason = (if remaining > 0 then None else Some ''rate_limit_exceeded''),
              dc_remaining = Some remaining, dc_reset = compute_reset_at entries window,
              dc_project = pid, dc_request = rid, dc_evaluated = isoformat now\<rparr>))))))))"

definition check_and_register ::
    "(string \<Rightarrow> bool) \<Rightarrow> int \<Rightarrow> string \<Rightarrow> string \<Rightarrow> int option \<Rightarrow> limit_decision limiter_method" where
  "check_and_register known clock pid rid ts =
     mbind (mlift (known_project known pid)) (\<lambda>_.
     mbind (mlift (valid_request_id rid)) (\<lambda>_.
     let now = (case ts of None \<Rightarrow> clock | Some t \<Rightarrow> t); at = PStr (isoformat now) in
     mbind (load_state clock pid) (\<lambda>st.
     mbind (mlift (active_config st)) (\<lambda>active.
     (case active of
        None \<Rightarrow>
          mbind (emit_event
            [(''type'', PStr ''request_registered''), (''project_id'', PStr pid),
             (''request_id'', PStr rid), (''timestamp'', at), (''unrestricted'', PBool True)]) (\<lambda>_.
          mret (unrestricted pid rid now))
      | Some c \<Rightarrow>
          mbind (mlift (config_int c ''window_seconds'')) (\<lambda>window.
          mbind (mlift (window_entries st)) (\<lambda>entries.
          let entries = prune_entries now window entries;
              blocked = (\<lambda>reason remaining.
                \<lparr>dc_allowed = False, dc_reason = Some reason, dc_remaining = remaining,
                 dc_reset = compute_reset_at entries window, dc_project = pid, dc_request = rid,
                 dc_evaluated = isoformat now\<rparr>) in
          if rid \<in> fst ` set entries then
            mbind (emit_event
              [(''type'', PStr ''rate_limit_blocked''), (''project_id'', PStr pid),
               (''request_id'', PStr rid), (''timestamp'', at),
               (''reason'', PStr ''duplicate_request'')]) (\<lambda>_.
            mret (blocked ''duplicate_request'' None))
          else
            mbind (mlift (capacity_of c)) (\<lambda>capacity.
            if max 0 (capacity - int (length entries)) \<le> 0 then
              mbind (emit_event
                [(''type'', PStr ''rate_limit_blocked''), (''project_id'', PStr pid),
                 (''request_id'', PStr rid), (''timestamp'', at),
                 (''reason'', PStr ''rate_limit_exceeded''), (''window_size'', PInt window),
                 (''capacity'', PInt capacity)]) (\<lambda>_.
              mret (blocked ''rate_limit_exceeded'' (Some 0)))
            else
              let entries = AList.update rid at entries;
                  st = AList.update ''window'' (PDict [(''entries'', PDict (sorted_entries entries)),
                         (''last_evaluated_at'', at)]) st;
                  st = AList.update ''updated_at'' at st;
                  remaining = max 0 (capacity - int (length entries)) in
              mbind (write_state pid st) (\<lambda>_.
              mbind (emit_event
                [(''type'', PStr ''request_registered''), (''project_id'', PStr pid),
                 (''request_id'', PStr rid), (''timestamp'', at), (''remaining'', PInt remaining)]) (\<lambda>_.
              mbind (if remaining \<le> max 1 (capacity div 10) then emit_event
                [(''type'', PStr ''rate_limit_warning''), (''project_id'', PStr pid),
                 (''timestamp'', at), (''remaining'', PInt remaining), (''capacity'', PInt capacity)]
                else mret ()) (\<lambda>_.
              mret \<lparr>dc_allowed = True, dc_reason = None, dc_remaining = Some remaining,
                dc_reset = compute_reset_at entries window, dc_project = pid, dc_request = rid,
                dc_evaluated = isoformat now\<rparr>)))))))))))"

definition register_request ::
    "(string \<Rightarrow> bool) \<Rightarrow> int \<Rightarrow> string \<Rightarrow> string \<Rightarrow> int option \<Rightarrow> limit_decision limiter_method" where
  "register_request = check_and_register"

definition remaining_requests ::
    "(string \<Rightarrow> bool) \<Rightarrow> int \<Rightarrow> string \<Rightarrow> int option \<Rightarrow> int option limiter_method" where
  "remaining_requests known clock pid ts =
     mbind (mlift (known_project known pid)) (\<lambda>_.
     let now = (case ts of None \<Rightarrow> clock | Some t \<Rightarrow> t) in
     mbind (load_state clock pid) (\<lambda>st.
     mbind (mlift (active_config st)) (\<lambda>active.
     (case active of
        None \<Rightarrow> mret None
      | Some c \<Rightarrow>
          mbind (mlift (window_entries st)) (\<lambda>entries.
          mbind (mlift (config_int c ''window_seconds'')) (\<lambda>window.
          mbind (mlift (capacity_of c)) (\<lambda>capacity.
          mret (Some (max 0 (capacity - int (length (prune_entries now window entries))))))))))))"

definition project_status :: "int \<Rightarrow> string \<Rightarrow> pyval dict limiter_method" where
  "project_status clock pid =
     mbind (load_state clock pid) (\<lambda>st.
     mbind (mlift (window_entries st)) (\<lambda>entries.
     mbind (mlift (active_config st)) (\<lambda>active.
     let now = isoformat clock; cfg = dget st ''config''; set_cfg = (cfg \<noteq> PNone);
         field = (\<lambda>k. case cfg of PDict c \<Rightarrow> dget c k | _ \<Rightarrow> PNone);
         opt = (\<lambda>r. case r of None \<Rightarrow> PNone | Some s \<Rightarrow> PStr s) in
     (case active of
        None \<Rightarrow> mret
          [(''project_id'', PStr pid), (''configured'', PBool set_cfg),
           (''enabled'', if set_cfg then PBool False else PNone),
           (''request_limit'', field ''request_limit''), (''window_seconds'', field ''window_seconds''),
           (''burst_limit'', field ''burst_limit''), (''current_count'', PInt (int (length entries))),
           (''remaining'', PNone), (''reset_at'', PNone), (''updated_at'', dget st ''updated_at''),
           (''now'', PStr now)]
      | Some c \<Rightarrow>
          mbind (mlift (config_int c ''window_seconds'')) (\<lambda>window.
          mbind (mlift (capacity_of c)) (\<lambda>capacity.
          mbind (mlift (config_int c ''request_limit'')) (\<lambda>limit.
          let entries = prune_entries clock window entries in mret
          [(''project_id'', PStr pid), (''configured'', PBool True), (''enabled'', PBool True),
           (''request_limit'', PInt limit), (''window_seconds'', PInt window),
           (''burst_limit'', dget c ''burst_limit''), (''current_count'', PInt (int (length entries))),
           (''remaining'', PInt (max 0 (capacity - int (length entries)))),
           (''reset_at'', opt (compute_reset_at entries window)),
           (''updated_at'', dget st ''updated_at''), (''now'', PStr now)])))))))"

fun statuses :: "int \<Rightarrow> string list \<Rightarrow> (string \<times> pyval) list limiter_method" where
  "statuses clock [] = mret []"
| "statuses clock (pid # pids) =
     mbind (project_status clock pid) (\<lambda>st.
     mbind (statuses clock pids) (\<lambda>rest. mret ((pid, PDict st) # rest)))"

definition limiter_status :: "(string \<Rightarrow> bool) \<Rightarrow> int \<Rightarrow> string option \<Rightarrow> (string \<times> pyval) list limiter_method" where
  "limiter_status known clock project = (case project of
       Some pid \<Rightarrow> mbind (mlift (known_project known pid)) (\<lambda>_. statuses clock [pid])
     | None \<Rightarrow> mbind mget (\<lambda>lm. statuses clock
         (filter safe_project_id (sort (map fst (lm_projects lm))))))"

definition latest_events :: "int \<Rightarrow> string option \<Rightarrow> pyval list limiter_method" where
  "latest_events limit project =
     (if limit \<le> 0 then mret []
      else mbind mget (\<lambda>lm. mbind (mlift (read_events lm)) (\<lambda>evs.
        mbind (case project of
            None \<Rightarrow> mret evs
          | Some pid \<Rightarrow> mbind (mcheck (safe_project_id pid) (LimValue ''invalid project_id'')) (\<lambda>_.
              mret (filter (\<lambda>ev. case ev of PDict d \<Rightarrow> dget d ''project_id'' = PStr pid | _ \<Rightarrow> False) evs)))
          (\<lambda>evs. mret (drop (length evs - nat limit) evs)))))"

end
