(* ===== verification/RateWindow.thy ===== *)
theory RateWindow
  imports RateLimiter "HOL-Library.Multiset"
begin

text \<open>
  What the limiter guarantees: requests admitted for a project never exceed the capacity in any
  window of the configured length, and the read-only check agrees with the registration.
\<close>

section \<open>The window of a project file\<close>

definition stamps :: "(string \<times> int) list \<Rightarrow> pyval dict" where
  "stamps es = map (\<lambda>(k, t). (k, PStr (isoformat t))) es"

definition live :: "int \<Rightarrow> int \<Rightarrow> (string \<times> int) list \<Rightarrow> (string \<times> int) list" where
  "live now w es = filter (\<lambda>(k, t). now - w * usec < t) es"

definition entries_ok :: "(string \<times> int) list \<Rightarrow> bool" where
  "entries_ok es \<longleftrightarrow> distinct (map fst es) \<and> (\<forall>(k, t) \<in> set es. valid_instant t)"

text \<open>The file of a project holds an active configuration with window \<open>w\<close> and capacity \<open>cap\<close>, and
  the entries \<open>es\<close>.\<close>

definition holds_window :: "pyval dict \<Rightarrow> int \<Rightarrow> int \<Rightarrow> (string \<times> int) list \<Rightarrow> bool" where
  "holds_window st w cap es \<longleftrightarrow>
     (\<exists>c win. dget st ''config'' = PDict c \<and> dget c ''enabled'' = PBool True \<and>
        config_int c ''window_seconds'' = Inr w \<and> capacity_of c = Inr cap \<and>
        map_of st ''window'' = Some (PDict win) \<and> map_of win ''entries'' = Some (PDict (stamps es)))"

definition limited :: "limiter \<Rightarrow> string \<Rightarrow> int \<Rightarrow> int \<Rightarrow> (string \<times> int) list \<Rightarrow> bool" where
  "limited lm pid w cap es \<longleftrightarrow> entries_ok es \<and>
     (\<exists>raw st. map_of (lm_projects lm) pid = Some raw \<and> read_state pid raw = Inr st \<and>
        json_wf (PDict st) \<and> holds_window st w cap es)"

definition events_ok :: "limiter \<Rightarrow> bool" where
  "events_ok lm \<longleftrightarrow> (\<exists>evs. lm_events lm = Some (json_dumps False (PList evs)) \<and> json_wf (PList evs))"

lemma stamps_keys [simp]: "fst ` set (stamps es) = fst ` set es" "map fst (stamps es) = map fst es"
  by (force simp: stamps_def)+

lemma stamp_of_iso [simp]: "valid_instant t \<Longrightarrow> stamp_of (PStr (isoformat t)) = Some t"
  by (simp add: stamp_of_def parse_isoformat_inverse)

lemma entries_ok_live: "entries_ok es \<Longrightarrow> entries_ok (live now w es)"
  by (auto simp: entries_ok_def live_def distinct_map_filter)

lemma prune_stamps: "entries_ok es \<Longrightarrow> prune_entries now w (stamps es) = stamps (live now w es)"
  unfolding entries_ok_def
  by (induction es) (auto simp: prune_entries_def stamps_def live_def)

lemma update_stamps: "k \<notin> fst ` set es \<Longrightarrow>
    AList.update k (PStr (isoformat t)) (stamps es) = stamps (es @ [(k, t)])"
  by (induction es) (auto simp: stamps_def)

lemma sort_stamps:
  "sort_key f (stamps es) = stamps (sort_key (f \<circ> (\<lambda>(k, t). (k, PStr (isoformat t)))) es)"
  unfolding stamps_def by (rule sort_key_map)

lemma sorted_stamps:
  obtains es' where "sorted_entries (stamps es) = stamps es'" and "mset es' = mset es"
  by (cases "list_ex (\<lambda>(rid, ts). stamp_of ts = None) (stamps es)")
    (auto simp: sorted_entries_def sort_stamps intro: that mset_sort)

lemma entries_ok_mset: "mset es' = mset es \<Longrightarrow> entries_ok es' \<longleftrightarrow> entries_ok es"
proof -
  assume m: "mset es' = mset es"
  then have "set es' = set es" by (metis set_mset_mset)
  moreover have "mset (map fst es') = mset (map fst es)" using m by simp
  then have "distinct (map fst es') \<longleftrightarrow> distinct (map fst es)"
    by (metis distinct_count_atmost_1 set_mset_mset)
  ultimately show ?thesis by (simp add: entries_ok_def)
qed

lemma json_sort_stamps: "entries_ok es \<Longrightarrow>
    \<exists>es'. json_sort (PDict (stamps es)) = PDict (stamps es') \<and> mset es' = mset es"
proof -
  have "map (\<lambda>(k, v). (k, json_sort v)) (stamps es) = stamps es" by (auto simp: stamps_def)
  then have "json_sort (PDict (stamps es)) = PDict (stamps (sort_key (fst \<circ> (\<lambda>(k, t). (k, PStr (isoformat t)))) es))"
    unfolding stamps_def by (simp only: json_sort.simps sort_key_map)
  then show ?thesis by (intro exI) auto
qed

section \<open>Events\<close>

lemma emit_event_ok:
  assumes "events_ok lm" and "json_wf (PDict ev)"
  obtains lm' where "emit_event ev lm = (Inr (), lm')" and "events_ok lm'"
    and "lm_projects lm' = lm_projects lm"
proof -
  obtain evs where evs: "lm_events lm = Some (json_dumps False (PList evs))" "json_wf (PList evs)"
    using assms(1) by (auto simp: events_ok_def)
  have read: "read_events lm = Inr (filter is_dict (map json_sort evs))"
    using json_loads_dumps [OF evs(2), of False] by (simp add: read_events_def evs(1))
  let ?ev = "filter (\<lambda>(k, v). k \<in> set event_keys) ev"
  have "json_wf (PDict ?ev)" using assms(2) by (auto simp: distinct_map_filter list_all_iff)
  then have wf: "json_wf (PList (filter is_dict (map json_sort evs) @ [PDict ?ev]))"
    using evs(2) by (auto simp: list_all_iff)
  show ?thesis
    by (rule that [of "lm\<lparr>lm_events := Some (json_dumps False
          (PList (filter is_dict (map json_sort evs) @ [PDict ?ev])))\<rparr>"])
      (use wf read in \<open>auto simp: emit_event_def events_ok_def\<close>)
qed

lemma limited_events: "lm_projects lm' = lm_projects lm \<Longrightarrow> limited lm' pid w cap es = limited lm pid w cap es"
  by (simp add: limited_def)

section \<open>Writing and reading a window\<close>

lemma config_int_sorted:
  "(\<And>k. map_of c' k = map_option json_sort (map_of c k)) \<Longrightarrow> config_int c' k = config_int c k"
  by (auto simp: config_int_def py_int_def split: option.splits pyval.splits)

lemma capacity_sorted:
  assumes "\<And>k. map_of c' k = map_option json_sort (map_of c k)"
  shows "capacity_of c' = capacity_of c"
proof -
  have "dget c' k = PNone \<longleftrightarrow> dget c k = PNone" for k
    using assms [of k] by (cases "map_of c k"; cases "the (map_of c k)") (auto simp: dget_def)
  then show ?thesis using config_int_sorted [OF assms] by (simp add: capacity_of_def)
qed

lemma holds_window_sorted:
  assumes wf: "json_wf (PDict st)" and h: "holds_window st w cap es" and ok: "entries_ok es"
    and st': "\<And>k. map_of st' k = map_option json_sort (map_of st k)"
  obtains es' where "holds_window st' w cap es'" and "mset es' = mset es"
proof -
  obtain c win where c: "dget st ''config'' = PDict c" "dget c ''enabled'' = PBool True"
      "config_int c ''window_seconds'' = Inr w" "capacity_of c = Inr cap"
      "map_of st ''window'' = Some (PDict win)" "map_of win ''entries'' = Some (PDict (stamps es))"
    using h unfolding holds_window_def by blast
  have mc: "map_of st ''config'' = Some (PDict c)" using c(1) by (auto simp: dget_def split: option.splits)
  have wfs: "json_wf (PDict c)" "json_wf (PDict win)"
    using json_wf_lookup [OF wf] mc c(5) by blast+
  obtain c' where c': "json_sort (PDict c) = PDict c'" "\<And>k. map_of c' k = map_option json_sort (map_of c k)"
    using json_sort_dict [OF wfs(1)] by metis
  obtain win' where win': "json_sort (PDict win) = PDict win'"
      "\<And>k. map_of win' k = map_option json_sort (map_of win k)"
    using json_sort_dict [OF wfs(2)] by metis
  obtain es' where es': "json_sort (PDict (stamps es)) = PDict (stamps es')" "mset es' = mset es"
    using json_sort_stamps [OF ok] by blast
  have "dget st' ''config'' = PDict c'" using mc c'(1) by (simp add: dget_def st')
  moreover have "dget c' ''enabled'' = PBool True"
    using c(2) c'(2) [of "''enabled''"] by (auto simp: dget_def split: option.splits)
  moreover have "map_of st' ''window'' = Some (PDict win')" using c(5) win'(1) by (simp add: st')
  moreover have "map_of win' ''entries'' = Some (PDict (stamps es'))"
    using c(6) win'(2) es'(1) by simp
  ultimately have "holds_window st' w cap es'"
    using config_int_sorted [of c' c] capacity_sorted [of c' c] c'(2) c(3,4) unfolding holds_window_def by auto
  then show ?thesis using that es'(2) by blast
qed

text \<open>Writing a state that holds a window makes the project limited by it.\<close>

lemma write_text_limited:
  assumes wf: "json_wf (PDict st)" and h: "holds_window st w cap es" and ok: "entries_ok es"
    and pid: "dget st ''project_id'' = PStr pid"
  obtains es' lm' where "write_text pid st lm = (Inr (), lm')" and "lm_events lm' = lm_events lm"
    and "limited lm' pid w cap es'" and "mset es' = mset es"
proof -
  obtain st' where st': "json_sort (PDict st) = PDict st'" "json_wf (PDict st')"
      "\<And>k. map_of st' k = map_option json_sort (map_of st k)"
    using json_sort_dict [OF wf] by metis
  obtain es' where es': "holds_window st' w cap es'" "mset es' = mset es"
    using holds_window_sorted [OF wf h ok st'(3)] by blast
  have win: "map_of st' ''window'' \<noteq> None" using es'(1) by (auto simp: holds_window_def)
  have "dget st' ''project_id'' = PStr pid"
    using pid st'(3) [of "''project_id''"] by (auto simp: dget_def split: option.splits)
  then have "read_state pid (json_dumps False (PDict st)) = Inr st'"
    using win json_loads_dumps [OF wf, of False] st'(1) by (simp add: read_state_def)
  then show ?thesis
    using that [of _ es'] es' st'(2) entries_ok_mset [OF es'(2)] ok
    by (simp add: write_text_def limited_def)
qed

section \<open>One request\<close>

lemma limited_load:
  assumes "limited lm pid w cap es"
  obtains st c where "load_state clock pid lm = (Inr st, lm)" and "json_wf (PDict st)"
    and "dget st ''project_id'' = PStr pid" and "dget st ''config'' = PDict c"
    and "dget c ''enabled'' = PBool True" and "active_config st = Inr (Some c)"
    and "window_entries st = Inr (stamps es)" and "config_int c ''window_seconds'' = Inr w"
    and "capacity_of c = Inr cap" and "entries_ok es"
proof -
  obtain raw st where st: "map_of (lm_projects lm) pid = Some raw" "read_state pid raw = Inr st"
      "json_wf (PDict st)" "holds_window st w cap es" and ok: "entries_ok es"
    using assms by (auto simp: limited_def)
  obtain c win where c: "dget st ''config'' = PDict c" "dget c ''enabled'' = PBool True"
      "config_int c ''window_seconds'' = Inr w" "capacity_of c = Inr cap"
      "map_of st ''window'' = Some (PDict win)" "map_of win ''entries'' = Some (PDict (stamps es))"
    using st(4) unfolding holds_window_def by blast
  have "dget st ''project_id'' = PStr pid"
    using st(2) by (auto simp: read_state_def split: option.splits pyval.splits if_splits)
  moreover have "c \<noteq> []" using c(2) by (auto simp: dget_def)
  moreover have "dget_or c ''enabled'' (PBool False) = PBool True"
    using c(2) by (auto simp: dget_def dget_or_def split: option.splits)
  ultimately show ?thesis
    using that [of st c] st c ok
    by (simp add: load_state_def active_config_def py_truth_def window_entries_def dget_or_def)
qed

text \<open>An admitted request is added to the live entries of the file.\<close>

lemma write_window:
  assumes wf: "json_wf (PDict st)" and pid: "dget st ''project_id'' = PStr pid"
    and c: "dget st ''config'' = PDict c" "dget c ''enabled'' = PBool True"
      "config_int c ''window_seconds'' = Inr w" "capacity_of c = Inr cap"
    and ok: "entries_ok es"
    and win: "dget st ''window'' = PDict win" "dget_or win ''entries'' (PDict []) = PDict (stamps es)"
  obtains es' lm' where "write_state pid st lm = (Inr (), lm')" and "lm_events lm' = lm_events lm"
    and "limited lm' pid w cap es'" and "mset es' = mset es"
proof -
  obtain es1 where es1: "sorted_entries (stamps es) = stamps es1" "mset es1 = mset es"
    by (rule sorted_stamps)
  let ?win = "AList.update ''entries'' (PDict (stamps es1)) win"
  let ?st = "AList.update ''window'' (PDict ?win) st"
  have wfwin: "json_wf (PDict win)"
    using win(1) json_wf_dget [OF wf, of "''window''"] by simp
  have "entries_ok es1" using ok es1(2) entries_ok_mset by blast
  then have "json_wf (PDict (stamps es1))"
    by (auto simp: entries_ok_def stamps_def list_all_iff comp_def case_prod_unfold)
  then have "json_wf (PDict ?st)" using json_wf_update wf wfwin by blast
  moreover have "holds_window ?st w cap es1"
    using c by (simp add: holds_window_def map_of_update)
  moreover have "dget ?st ''project_id'' = PStr pid" using pid by simp
  ultimately obtain es' lm' where *: "write_text pid ?st lm = (Inr (), lm')" "lm_events lm' = lm_events lm"
      "limited lm' pid w cap es'" "mset es' = mset es1"
    using write_text_limited [of ?st w cap es1 pid lm] \<open>entries_ok es1\<close> by blast
  moreover have "write_state pid st lm = write_text pid ?st lm"
    by (simp add: write_state_def win es1(1))
  ultimately show ?thesis using that es1(2) by simp
qed

lemma blocked_event:
  assumes "events_ok lm" and "limited lm pid w cap es" and "json_wf (PDict ev)"
  obtains lm' where "emit_event ev lm = (Inr (), lm')" and "events_ok lm'" and "limited lm' pid w cap es"
  using emit_event_ok [OF assms(1,3)] limited_events assms(2) by metis

lemma register_refused:
  assumes lim: "limited lm pid w cap es" and ev: "events_ok lm"
    and known: "known_project known pid = Inr ()" "valid_request_id rid = Inr ()"
    and full: "rid \<in> fst ` set (live now w es) \<or> cap \<le> int (length (live now w es))"
  obtains d lm' where "check_and_register known clock pid rid (Some now) lm = (Inr d, lm')"
    and "\<not> dc_allowed d" and "events_ok lm'" and "limited lm' pid w cap es"
proof -
  obtain st c where l: "load_state clock pid lm = (Inr st, lm)" "active_config st = Inr (Some c)"
      "window_entries st = Inr (stamps es)" "config_int c ''window_seconds'' = Inr w"
      "capacity_of c = Inr cap" "entries_ok es"
    using limited_load [OF lim] by metis
  note pr = prune_stamps [OF l(6)]
  have len: "length (stamps xs) = length xs" for xs by (simp add: stamps_def)
  let ?dup = "[(''type'', PStr ''rate_limit_blocked''), (''project_id'', PStr pid),
      (''request_id'', PStr rid), (''timestamp'', PStr (isoformat now)),
      (''reason'', PStr ''duplicate_request'')]"
  let ?full = "[(''type'', PStr ''rate_limit_blocked''), (''project_id'', PStr pid),
      (''request_id'', PStr rid), (''timestamp'', PStr (isoformat now)),
      (''reason'', PStr ''rate_limit_exceeded''), (''window_size'', PInt w), (''capacity'', PInt cap)]"
  obtain l1 where l1: "emit_event ?dup lm = (Inr (), l1)" "events_ok l1" "limited l1 pid w cap es"
    using blocked_event [OF ev lim, of ?dup] by auto
  obtain l2 where l2: "emit_event ?full lm = (Inr (), l2)" "events_ok l2" "limited l2 pid w cap es"
    using blocked_event [OF ev lim, of ?full] by auto
  show ?thesis
    using that known l pr l1 l2 full
    by (cases "rid \<in> fst ` set (live now w es)") (simp_all add: check_and_register_def Let_def len)
qed

lemma register_admitted:
  assumes lim: "limited lm pid w cap es" and ev: "events_ok lm"
    and known: "known_project known pid = Inr ()" "valid_request_id rid = Inr ()"
    and now: "valid_instant now"
    and room: "rid \<notin> fst ` set (live now w es)" "int (length (live now w es)) < cap"
  obtains d lm' es' where "check_and_register known clock pid rid (Some now) lm = (Inr d, lm')"
    and "dc_allowed d" and "events_ok lm'" and "limited lm' pid w cap es'"
    and "mset es' = add_mset (rid, now) (mset (live now w es))"
proof -
  obtain st c where l: "load_state clock pid lm = (Inr st, lm)" "json_wf (PDict st)"
      "dget st ''project_id'' = PStr pid" "dget st ''config'' = PDict c"
      "dget c ''enabled'' = PBool True" "active_config st = Inr (Some c)"
      "window_entries st = Inr (stamps es)" "config_int c ''window_seconds'' = Inr w"
      "capacity_of c = Inr cap" "entries_ok es"
    using limited_load [OF lim] by metis
  note pr = prune_stamps [OF l(10)]
  let ?es = "live now w es @ [(rid, now)]"
  have ok: "entries_ok ?es"
    using entries_ok_live [OF l(10), of now w] room(1) now by (auto simp: entries_ok_def)
  obtain es1 where es1: "sorted_entries (stamps ?es) = stamps es1" "mset es1 = mset ?es"
    by (rule sorted_stamps)
  have ok1: "entries_ok es1" using ok es1(2) entries_ok_mset by blast
  let ?at = "PStr (isoformat now)"
  let ?st = "AList.update ''updated_at'' ?at (AList.update ''window''
      (PDict [(''entries'', PDict (stamps es1)), (''last_evaluated_at'', ?at)]) st)"
  have wfs: "json_wf (PDict (stamps es1))"
    using ok1 by (auto simp: entries_ok_def stamps_def list_all_iff comp_def case_prod_unfold)
  have "json_wf (PDict ?st)" by (intro json_wf_update l(2)) (use wfs in simp_all)
  then obtain es' lm1 where w1: "write_state pid ?st lm = (Inr (), lm1)" "lm_events lm1 = lm_events lm"
      "limited lm1 pid w cap es'" "mset es' = mset es1"
    by (rule write_window [of ?st pid c w cap es1
        "[(''entries'', PDict (stamps es1)), (''last_evaluated_at'', ?at)]" lm]) (use l ok1 in simp_all)
  have ev1: "events_ok lm1" using ev w1(2) by (simp add: events_ok_def)
  define rem where "rem = cap - int (length (stamps ?es))"
  let ?reg = "[(''type'', PStr ''request_registered''), (''project_id'', PStr pid),
      (''request_id'', PStr rid), (''timestamp'', ?at), (''remaining'', PInt rem)]"
  let ?warn = "[(''type'', PStr ''rate_limit_warning''), (''project_id'', PStr pid),
      (''timestamp'', ?at), (''remaining'', PInt rem), (''capacity'', PInt cap)]"
  obtain lm2 where l2: "emit_event ?reg lm1 = (Inr (), lm2)" "events_ok lm2" "limited lm2 pid w cap es'"
    using blocked_event [OF ev1 w1(3), of ?reg] by auto
  obtain lm3 where l3: "emit_event ?warn lm2 = (Inr (), lm3)" "events_ok lm3" "limited lm3 pid w cap es'"
    using blocked_event [OF l2(2,3), of ?warn] by auto
  have len: "length (stamps xs) = length xs" for xs by (simp add: stamps_def)
  have upd: "AList.update rid ?at (stamps (live now w es)) = stamps ?es"
    by (rule update_stamps [OF room(1)])
  have ms: "mset es' = add_mset (rid, now) (mset (live now w es))" using w1(4) es1(2) by simp
  have run: "\<exists>d. check_and_register known clock pid rid (Some now) lm =
      (Inr d, if rem \<le> max 1 (cap div 10) then lm3 else lm2) \<and> dc_allowed d"
  proof -
    have rem: "cap - int (length (stamps ?es)) = rem" "max 0 rem = rem" "0 \<le> max 1 (cap div 10)"
      using room(2) by (simp_all add: rem_def len)
    have cap: "\<not> max 0 (cap - int (length (stamps (live now w es)))) \<le> 0" using room(2) by (simp add: len)
    show ?thesis
      using known l pr upd es1(1) w1(1) l2(1) l3(1) room(1) rem cap
      by (simp add: check_and_register_def Let_def)
  qed
  show ?thesis
  proof (cases "rem \<le> max 1 (cap div 10)")
    case True
    then show ?thesis using run that [OF _ _ l3(2,3) ms] by auto
  next
    case False
    then show ?thesis using run that [OF _ _ l2(2,3) ms] by auto
  qed
qed

section \<open>Runs of requests\<close>

text \<open>The times of the requests a run admits, each given with its own time stamp.\<close>

fun request_run ::
    "(string \<Rightarrow> bool) \<Rightarrow> int \<Rightarrow> string \<Rightarrow> (string \<times> int) list \<Rightarrow> limiter \<Rightarrow> int list \<times> limiter" where
  "request_run known clock pid [] lm = ([], lm)"
| "request_run known clock pid ((rid, t) # rs) lm =
     (case check_and_register known clock pid rid (Some t) lm of
        (r, lm1) \<Rightarrow> (case request_run known clock pid rs lm1 of
            (ts, lm2) \<Rightarrow> ((case r of Inr d \<Rightarrow> if dc_allowed d then [t] else [] | Inl _ \<Rightarrow> []) @ ts, lm2)))"

definition in_window :: "int \<Rightarrow> int \<Rightarrow> int list \<Rightarrow> nat" where
  "in_window w t xs = length (filter (\<lambda>x. t - w * usec < x \<and> x \<le> t) xs)"

lemma in_window_simps [simp]:
  "in_window w t [] = 0"
  "in_window w t (xs @ ys) = in_window w t xs + in_window w t ys"
  "in_window w t (x # xs) = (if t - w * usec < x \<and> x \<le> t then 1 else 0) + in_window w t xs"
  by (simp_all add: in_window_def)

lemma in_window_le: "in_window w t xs \<le> length xs"
  by (simp add: in_window_def)

lemma in_window_mset: "mset xs = mset ys \<Longrightarrow> in_window w t xs = in_window w t ys"
  unfolding in_window_def by (metis mset_filter size_mset)

lemma in_window_later: "\<forall>x \<in> set xs. t < x \<Longrightarrow> in_window w t xs = 0"
  by (induction xs) auto

text \<open>Entries that a request at \<open>now\<close> finds expired are outside every later window.\<close>

lemma in_window_live:
  "now \<le> t \<Longrightarrow> in_window w t (map snd es) = in_window w t (map snd (live now w es))"
  by (induction es) (auto simp: live_def)

lemma request_run_times:
  "set (fst (request_run known clock pid rs lm)) \<subseteq> snd ` set rs"
proof (induction rs arbitrary: lm)
  case (Cons r rs)
  obtain rid t where r: "r = (rid, t)" by (cases r)
  obtain x lm1 where c: "check_and_register known clock pid rid (Some t) lm = (x, lm1)" by fastforce
  show ?case
    using Cons.IH [of lm1] by (auto simp: r c split: sum.splits prod.splits if_splits)
qed simp

lemma run_window:
  assumes "known_project known pid = Inr ()"
  shows "limited lm pid w cap es \<Longrightarrow> events_ok lm \<Longrightarrow> sorted (map snd rs) \<Longrightarrow>
    \<forall>r \<in> set rs. valid_instant (snd r) \<Longrightarrow> int (length es) \<le> cap \<Longrightarrow>
    int (in_window w t (map snd es @ fst (request_run known clock pid rs lm))) \<le> cap"
proof (induction rs arbitrary: lm es)
  case Nil
  have "in_window w t (map snd es) \<le> length es" using in_window_le [of w t "map snd es"] by simp
  then show ?case using Nil.prems(5) by simp
next
  case (Cons r rs)
  obtain rid now where r: "r = (rid, now)" by (cases r)
  have rest: "sorted (map snd rs)" "\<forall>x \<in> set rs. valid_instant (snd x)" "\<forall>x \<in> set rs. now \<le> snd x"
    "valid_instant now"
    using Cons.prems(3,4) by (auto simp: r)
  have skip: ?case if "check_and_register known clock pid rid (Some now) lm = (x, lm1)"
      "(case x of Inr d \<Rightarrow> \<not> dc_allowed d | Inl e \<Rightarrow> True)" "limited lm1 pid w cap es" "events_ok lm1" for x lm1
    using Cons.IH [OF that(3,4) rest(1,2) Cons.prems(5)] that(1,2)
    by (auto simp: r split: prod.split sum.splits)
  show ?case
  proof (cases "valid_request_id rid")
    case (Inl e)
    then have "check_and_register known clock pid rid (Some now) lm = (Inl e, lm)"
      by (simp add: check_and_register_def assms)
    then show ?thesis using skip Cons.prems(1,2) by simp
  next
    case (Inr u)
    then have vr: "valid_request_id rid = Inr ()" by simp
    show ?thesis
    proof (cases "rid \<in> fst ` set (live now w es) \<or> cap \<le> int (length (live now w es))")
      case True
      obtain d lm1 where "check_and_register known clock pid rid (Some now) lm = (Inr d, lm1)"
          "\<not> dc_allowed d" "events_ok lm1" "limited lm1 pid w cap es"
        using register_refused [OF Cons.prems(1,2) assms vr True] .
      then show ?thesis using skip by simp
    next
      case False
      obtain d lm1 es' where c: "check_and_register known clock pid rid (Some now) lm = (Inr d, lm1)"
          "dc_allowed d" "events_ok lm1" "limited lm1 pid w cap es'"
          "mset es' = add_mset (rid, now) (mset (live now w es))"
        using register_admitted [OF Cons.prems(1,2) assms vr rest(4)] False by (metis linorder_not_le)
      have len: "int (length es') \<le> cap"
        using arg_cong [OF c(5), of size] False by simp
      let ?adm = "fst (request_run known clock pid rs lm1)"
      have adm: "fst (request_run known clock pid (r # rs) lm) = now # ?adm"
        using c(1,2) by (simp add: r split: prod.split)
      have IH: "int (in_window w t (map snd es' @ ?adm)) \<le> cap"
        using Cons.IH [OF c(4,3) rest(1,2) len] .
      show ?thesis
      proof (cases "now \<le> t")
        case True
        have "in_window w t (map snd es') = in_window w t (map snd ((rid, now) # live now w es))"
          by (rule in_window_mset) (use arg_cong [OF c(5), of "image_mset snd"] in simp)
        then show ?thesis
          using IH in_window_live [OF True, of w es] unfolding adm by simp
      next
        case False
        have "\<forall>x \<in> set (now # ?adm). t < x"
          using request_run_times [of known clock pid rs lm1] rest(3) False by fastforce
        then have "in_window w t (now # ?adm) = 0" by (rule in_window_later)
        moreover have "in_window w t (map snd es) \<le> length es"
          using in_window_le [of w t "map snd es"] by simp
        ultimately show ?thesis using Cons.prems(5) unfolding adm by (simp only: in_window_simps)
      qed
    qed
  qed
qed

section \<open>Configuring\<close>

text \<open>The capacity a configuration asks for.\<close>

definition asked_capacity :: "pyval dict \<Rightarrow> int" where
  "asked_capacity config = (if dget config ''burst_limit'' = PNone
     then int_of (dget config ''request_limit'') else int_of (dget config ''burst_limit''))"

lemma load_state_ok:
  assumes "load_state clock pid lm = (Inr st, lm1)"
  shows "json_wf (PDict st) \<and> dget st ''project_id'' = PStr pid \<and> lm_events lm1 = lm_events lm"
proof (cases "map_of (lm_projects lm) pid")
  case None
  then show ?thesis using assms
    by (auto simp: load_state_def Let_def write_text_def new_state_def new_window_def)
next
  case (Some raw)
  then have "read_state pid raw = Inr st" "lm1 = lm" using assms by (simp_all add: load_state_def)
  then show ?thesis
    using json_loads_wf [of raw] by (auto simp: read_state_def split: option.splits pyval.splits if_splits)
qed

lemma configure_writes:
  assumes k: "known_project known pid = Inr ()"
    and v: "validate_new_config clock pid config = Inr cfg"
    and l: "load_state clock pid lm = (Inr st, lm1)"
    and ev: "events_ok lm" and wfcfg: "json_wf (PDict config)"
    and on: "dget config ''enabled'' = PBool True"
  obtains lm' where "configure_limit known clock pid config lm = (Inr cfg, lm')"
    and "limited lm' pid (int_of (dget config ''window_seconds'')) (asked_capacity config) []"
    and "events_ok lm'" and "0 \<le> asked_capacity config"
proof -
  let ?now = "isoformat clock"
  let ?w = "int_of (dget config ''window_seconds'')"
  obtain created updated where cfg: "cfg = config_dict pid config created updated"
      and ok: "limits_ok config = Inr ()" and wfcu: "json_wf created" "json_wf updated"
    using v json_wf_dget [OF wfcfg]
    by (auto simp: validate_new_config_def Let_def err_simps split: option.splits if_splits)
  have wfc: "json_wf (PDict cfg)"
    using wfcu json_wf_dget [OF wfcfg, of "''enabled''"]
    by (simp add: cfg config_dict_def burst_value_def)
  have burst: "dget config ''burst_limit'' \<noteq> PNone \<Longrightarrow> 0 \<le> int_of (dget config ''burst_limit'')"
    and req: "0 < int_of (dget config ''request_limit'')"
    using ok by (auto simp: limits_ok_def burst_ok_def positive_int_def split: if_splits)
  let ?st = "AList.update ''window'' (new_window ?now) (AList.update ''updated_at'' (PStr ?now)
      (AList.update ''config'' (PDict cfg) st))"
  note ls = load_state_ok [OF l]
  have wf: "json_wf (PDict ?st)"
    by (intro json_wf_update) (use ls wfc in \<open>simp_all add: new_window_def\<close>)
  obtain es' lm2 where w2: "write_state pid ?st lm1 = (Inr (), lm2)" "lm_events lm2 = lm_events lm1"
      "limited lm2 pid ?w (asked_capacity config) es'" "mset es' = mset []"
  proof (rule write_window [of ?st pid cfg ?w "asked_capacity config" "[]"
        "[(''entries'', PDict []), (''last_evaluated_at'', PStr ?now)]" lm1, OF wf])
    show "dget ?st ''project_id'' = PStr pid" "dget ?st ''config'' = PDict cfg"
      "dget ?st ''window'' = PDict [(''entries'', PDict []), (''last_evaluated_at'', PStr ?now)]"
      using ls by (simp_all add: new_window_def)
    show "dget cfg ''enabled'' = PBool True" "config_int cfg ''window_seconds'' = Inr ?w"
      using on by (simp_all add: cfg config_dict_def config_int_def)
    show "capacity_of cfg = Inr (asked_capacity config)"
      by (simp add: cfg config_dict_def capacity_of_def config_int_def asked_capacity_def burst_value_def)
  qed (auto simp: entries_ok_def stamps_def)
  have ev2: "events_ok lm2" using ev ls w2(2) by (simp add: events_ok_def)
  let ?ev = "[(''type'', PStr ''rate_limit_configured''), (''project_id'', PStr pid),
           (''timestamp'', dget cfg ''updated_at''),
           (''request_limit'', dget cfg ''request_limit''),
           (''window_seconds'', dget cfg ''window_seconds''),
           (''burst_limit'', dget cfg ''burst_limit''), (''enabled'', dget cfg ''enabled'')]"
  have "json_wf (PDict ?ev)" using json_wf_dget [OF wfc] by simp
  then obtain lm3 where e: "emit_event ?ev lm2 = (Inr (), lm3)" "events_ok lm3"
      "limited lm3 pid ?w (asked_capacity config) es'"
    using blocked_event [OF ev2 w2(3)] by blast
  have "es' = []" using w2(4) by simp
  then show ?thesis
    using that [of lm3] k v l w2(1) e burst req
    by (simp add: configure_limit_def Let_def asked_capacity_def)
qed

lemma configure_limited:
  assumes "configure_limit known clock pid config lm = (Inr cfg, lm')" and "events_ok lm"
    and "json_wf (PDict config)" and "dget config ''enabled'' = PBool True"
  shows "limited lm' pid (int_of (dget config ''window_seconds'')) (asked_capacity config) [] \<and>
    events_ok lm' \<and> known_project known pid = Inr () \<and> 0 \<le> asked_capacity config"
proof -
  obtain st lm1 where k: "known_project known pid = Inr ()"
      and v: "validate_new_config clock pid config = Inr cfg"
      and l: "load_state clock pid lm = (Inr st, lm1)"
    using assms(1) by (auto simp: configure_limit_def m_simps Let_def simp del: mbind_mlift)
  show ?thesis
    by (rule configure_writes [OF k v l assms(2-4)]) (use assms(1) k in simp)
qed

text \<open>C5: A rate limit holds in every window: after a project is configured with an enabled limit,
  however the requests repeat their ids and whatever their times as long as these do not go
  back, no interval of the configured length contains more admitted requests than the
  capacity (the burst limit when one is set, the request limit otherwise).\<close>

theorem admitted_within_capacity:
  assumes "configure_limit known clock pid config lm = (Inr cfg, lm')" and "events_ok lm"
    and "json_wf (PDict config)" and "dget config ''enabled'' = PBool True"
    and "sorted (map snd rs)" and "\<forall>r \<in> set rs. valid_instant (snd r)"
  shows "int (in_window (int_of (dget config ''window_seconds'')) t
      (fst (request_run known clock' pid rs lm'))) \<le> asked_capacity config"
  using run_window [of known pid lm' _ _ "[]" rs t clock'] configure_limited [OF assms(1-4)] assms(5,6)
  by simp

definition demo_config :: "pyval dict" where
  "demo_config = [(''project_id'', PStr ''p''), (''enabled'', PBool True), (''request_limit'', PInt 2),
     (''window_seconds'', PInt 60), (''burst_limit'', PNone)]"

lemma events_ok_init: "events_ok limiter_init"
  unfolding events_ok_def limiter_init_def by (intro exI [of _ "[]"]) simp

lemma demo_loads: "load_state 0 ''p'' limiter_init =
    (Inr (new_state ''p'' (isoformat 0)), snd (write_text ''p'' (new_state ''p'' (isoformat 0)) limiter_init))"
  by (simp add: load_state_def Let_def limiter_init_def write_text_def)

lemma demo_known: "known_project (\<lambda>_. True) ''p'' = Inr ()" by code_simp

lemma demo_valid: "\<exists>cfg. validate_new_config 0 ''p'' demo_config = Inr cfg"
  by (simp add: validate_new_config_def demo_config_def required_fields_def Let_def limits_ok_def
      is_bool_def positive_int_def burst_ok_def is_int_def int_of_def)

lemma demo_configured:
  obtains cfg lm where "configure_limit (\<lambda>_. True) 0 ''p'' demo_config limiter_init = (Inr cfg, lm)"
proof -
  obtain cfg where v: "validate_new_config 0 ''p'' demo_config = Inr cfg" using demo_valid by blast
  show ?thesis
    by (rule configure_writes [OF demo_known v demo_loads events_ok_init])
      (auto simp: demo_config_def intro: that)
qed

theorem admitted_within_capacity_witness:
  "\<exists>cfg lm. configure_limit (\<lambda>_. True) 0 ''p'' demo_config limiter_init = (Inr cfg, lm) \<and>
     int (in_window 60 usec (fst (request_run (\<lambda>_. True) 0 ''p''
       [(''a'', 0), (''b'', 0), (''c'', usec)] lm))) \<le> 2"
proof -
  obtain cfg lm where c: "configure_limit (\<lambda>_. True) 0 ''p'' demo_config limiter_init = (Inr cfg, lm)"
    by (rule demo_configured)
  have v: "valid_instant 0" "valid_instant usec"
    by (simp_all add: valid_instant_def year_of_def usec_def split_years.simps year_days_def)
  have "int (in_window (int_of (dget demo_config ''window_seconds'')) usec
      (fst (request_run (\<lambda>_. True) 0 ''p'' [(''a'', 0), (''b'', 0), (''c'', usec)] lm)))
    \<le> asked_capacity demo_config"
    by (rule admitted_within_capacity [OF c events_ok_init])
      (use v in \<open>simp_all add: demo_config_def usec_def\<close>)
  then show ?thesis
    using c by (simp add: demo_config_def asked_capacity_def int_of_def)
qed

text \<open>C31: The read-only check and the registration agree: on the same file, at the same time, both
  allow or both refuse a request, for the same reason.\<close>

theorem check_agrees_with_register:
  assumes "check_request known clock pid rid (Some now) lm = (Inr d, lm1)"
    and "check_and_register known clock pid rid (Some now) lm = (Inr d', lm2)"
  shows "dc_allowed d = dc_allowed d' \<and> dc_reason d = dc_reason d'"
proof -
  obtain st l a where k: "known_project known pid = Inr ()" "valid_request_id rid = Inr ()"
      "load_state clock pid lm = (Inr st, l)" "active_config st = Inr a"
    using assms(1) by (auto simp: check_request_def m_simps Let_def simp del: mbind_mlift)
  show ?thesis
  proof (cases a)
    case None
    then show ?thesis using assms k
      by (auto simp: check_request_def check_and_register_def Let_def m_simps)
  next
    case (Some c)
    obtain es w where e: "window_entries st = Inr es" "config_int c ''window_seconds'' = Inr w"
      using assms(1) k Some by (auto simp: check_request_def m_simps Let_def simp del: mbind_mlift)
    let ?es = "prune_entries now w es"
    show ?thesis
    proof (cases "rid \<in> fst ` set ?es")
      case True
      then show ?thesis using assms k e Some
        by (auto simp: check_request_def check_and_register_def Let_def m_simps)
    next
      case False
      obtain cap where cap: "capacity_of c = Inr cap"
        using assms(1) k e Some False by (auto simp: check_request_def m_simps Let_def simp del: mbind_mlift)
      show ?thesis using assms k e Some False cap
        by (cases "cap \<le> int (length ?es)")
          (auto simp: check_request_def check_and_register_def Let_def m_simps)
    qed
  qed
qed

theorem check_agrees_with_register_witness:
  "\<exists>d lm1 d' lm2. check_request (\<lambda>_. True) 0 ''p'' ''a'' (Some 0) limiter_init = (Inr d, lm1) \<and>
     check_and_register (\<lambda>_. True) 0 ''p'' ''a'' (Some 0) limiter_init = (Inr d', lm2) \<and>
     dc_allowed d = dc_allowed d'"
proof -
  let ?lm = "snd (write_text ''p'' (new_state ''p'' (isoformat 0)) limiter_init)"
  have ok: "valid_request_id ''a'' = Inr ()" by code_simp
  have off: "active_config (new_state ''p'' (isoformat 0)) = Inr None"
    by (simp add: active_config_def new_state_def py_truth_def)
  have ev: "events_ok ?lm" using events_ok_init by (simp add: write_text_def events_ok_def)
  obtain lm2 where "emit_event [(''type'', PStr ''request_registered''), (''project_id'', PStr ''p''),
      (''request_id'', PStr ''a''), (''timestamp'', PStr (isoformat 0)), (''unrestricted'', PBool True)]
      ?lm = (Inr (), lm2)"
    by (rule emit_event_ok [OF ev, of "[(''type'', PStr ''request_registered''),
      (''project_id'', PStr ''p''), (''request_id'', PStr ''a''), (''timestamp'', PStr (isoformat 0)),
      (''unrestricted'', PBool True)]"]) simp_all
  then have "check_request (\<lambda>_. True) 0 ''p'' ''a'' (Some 0) limiter_init =
        (Inr (unrestricted ''p'' ''a'' 0), ?lm)"
      and "check_and_register (\<lambda>_. True) 0 ''p'' ''a'' (Some 0) limiter_init =
        (Inr (unrestricted ''p'' ''a'' 0), lm2)"
    by (simp_all add: check_request_def check_and_register_def demo_known ok demo_loads off Let_def)
  with check_agrees_with_register [OF this] show ?thesis by blast
qed

end
