(* ===== verification/FlowSpec.thy ===== *)
theory FlowSpec
  imports PyJson "HOL-Library.Multiset"
begin

text \<open>
  \<^verbatim>\<open>agent/runtime/flowspec.py\<close>: flow documents.  A document is a parsed JSON value; parsing
  checks it, strips the identifiers and sorts each step's dependencies.  Steps are put in order
  with a worklist of the steps that wait for nothing, smallest identifier first.
\<close>

section \<open>Data\<close>

record flow_step =
  fs_id :: string
  fs_task :: string
  fs_deps :: "string list"
  fs_payload :: "pyval dict"

record flow_spec =
  fl_version :: string
  fl_id :: string
  fl_project :: string
  fl_steps :: "flow_step list"
  fl_metadata :: "pyval dict"

datatype flow_error =
    FlowInvalid string   \<comment> \<open>FlowSpecValidationError\<close>
  | FlowKeyError string  \<comment> \<open>KeyError: a dependency that is no step\<close>

definition flow_version :: string where "flow_version = ''1.0.0''"

section \<open>Order\<close>

text \<open>\<open>steps_by_id\<close> keeps the last step of an identifier.\<close>

definition find_step :: "flow_step list \<Rightarrow> string \<Rightarrow> flow_step option" where
  "find_step steps = map_of (rev (map (\<lambda>s. (fs_id s, s)) steps))"

definition indegree :: "flow_step list \<Rightarrow> string \<Rightarrow> int" where
  "indegree steps i = (case find_step steps i of None \<Rightarrow> 0 | Some s \<Rightarrow> int (length (fs_deps s)))"

definition dependents :: "flow_step list \<Rightarrow> string \<Rightarrow> string list" where
  "dependents steps i = sort (dedup (map fs_id (filter (\<lambda>s. i \<in> set (fs_deps s)) steps)))"

text \<open>Popping a step lowers the degree of its dependents; those that reach zero become ready.\<close>

fun release :: "string list \<Rightarrow> (string \<Rightarrow> int) \<Rightarrow> string list \<Rightarrow> (string \<Rightarrow> int) \<times> string list" where
  "release [] deg ready = (deg, ready)"
| "release (d # ds) deg ready = (let deg = deg(d := deg d - 1) in
     release ds deg (if deg d = 0 then sort (ready @ [d]) else ready))"

text \<open>Each pop shortens the worklist or moves a unit of degree out of the table.\<close>

definition degree_left :: "flow_step list \<Rightarrow> (string \<Rightarrow> int) \<Rightarrow> nat" where
  "degree_left steps deg = (\<Sum>i \<in> fs_id ` set steps. nat (deg i))"

lemma set_dependents: "set (dependents steps i) = fs_id ` {s \<in> set steps. i \<in> set (fs_deps s)}"
  by (auto simp: dependents_def)

lemma distinct_dependents: "distinct (dependents steps i)"
  by (simp add: dependents_def)

lemma release_measure:
  "set ds \<subseteq> fs_id ` set steps \<Longrightarrow> release ds deg ready = (deg', ready') \<Longrightarrow>
     length ready' + degree_left steps deg' \<le> length ready + degree_left steps deg"
proof (induction ds arbitrary: deg ready)
  case (Cons d ds)
  let ?deg = "deg(d := deg d - 1)" and ?ids = "fs_id ` set steps"
  let ?ready = "if ?deg d = 0 then sort (ready @ [d]) else ready"
  have d: "d \<in> ?ids" "finite ?ids" using Cons.prems(1) by auto
  have rest: "degree_left steps f = nat (f d) + (\<Sum>i \<in> ?ids - {d}. nat (f i))" for f
    unfolding degree_left_def by (rule sum.remove [OF d(2,1)])
  have "length ?ready + degree_left steps ?deg \<le> length ready + degree_left steps deg"
    by (auto simp: rest)
  moreover have "length ready' + degree_left steps deg' \<le> length ?ready + degree_left steps ?deg"
    by (rule Cons.IH) (use Cons.prems in \<open>simp_all add: Let_def fun_upd_def\<close>)
  ultimately show ?case by simp
qed simp

lemma release_dependents:
  assumes "release (dependents steps i) deg ready = (deg', ready')"
  shows "length ready' + degree_left steps deg' < Suc (length ready + degree_left steps deg)"
proof -
  have "set (dependents steps i) \<subseteq> fs_id ` set steps" by (auto simp: set_dependents)
  from release_measure [OF this assms] show ?thesis by simp
qed

function topo_loop :: "flow_step list \<Rightarrow> (string \<Rightarrow> int) \<Rightarrow> string list \<Rightarrow> string list" where
  "topo_loop steps deg [] = []"
| "topo_loop steps deg (i # ready) =
     (case release (dependents steps i) deg ready of (deg, ready) \<Rightarrow> i # topo_loop steps deg ready)"
  by pat_completeness auto
termination topo_loop
  by (relation "measure (\<lambda>(steps, deg, ready). length ready + degree_left steps deg)")
    (auto split: prod.split intro: release_dependents)

definition topo_ids :: "flow_step list \<Rightarrow> string list" where
  "topo_ids steps = (let deg = indegree steps in
     topo_loop steps deg (sort (filter (\<lambda>i. deg i = 0) (dedup (map fs_id steps)))))"

definition order_steps :: "flow_step list \<Rightarrow> flow_error + flow_step list" where
  "order_steps steps =
     (case List.find (\<lambda>d. d \<notin> fs_id ` set steps) (concat (map fs_deps steps)) of
        Some d \<Rightarrow> Inl (FlowKeyError d)
      | None \<Rightarrow>
          let ordered = topo_ids steps in
          if length ordered \<noteq> length steps
          then Inl (FlowInvalid ''FlowSpec contains a dependency cycle'')
          else Inr (map (\<lambda>i. the (find_step steps i)) ordered))"

definition topological_steps :: "flow_spec \<Rightarrow> flow_error + flow_step list" where
  "topological_steps spec = order_steps (fl_steps spec)"

section \<open>Parsing\<close>

definition required_string :: "pyval dict \<Rightarrow> string \<Rightarrow> flow_error + string" where
  "required_string d field = (case dget d field of
       PStr s \<Rightarrow> (if strip s = [] then Inl (FlowInvalid (field @ '' is required'')) else Inr (strip s))
     | _ \<Rightarrow> Inl (FlowInvalid (field @ '' must be a string'')))"

definition unsafe_name :: "string \<Rightarrow> bool" where
  "unsafe_name s \<longleftrightarrow> CHR ''/'' \<in> set s \<or> CHR 0x5C \<in> set s \<or> s = ''.'' \<or> s = ''..''"

definition safe_identifier :: "string \<Rightarrow> string \<Rightarrow> flow_error + string" where
  "safe_identifier value field = (let cleaned = strip value in
     if unsafe_name cleaned then Inl (FlowInvalid (''unsafe '' @ field)) else Inr cleaned)"

definition identifier_field :: "pyval dict \<Rightarrow> string \<Rightarrow> flow_error + string" where
  "identifier_field d field = ebind (required_string d field) (\<lambda>s. safe_identifier s field)"

definition no_unknown :: "string \<Rightarrow> string list \<Rightarrow> pyval dict \<Rightarrow> flow_error + unit" where
  "no_unknown what allowed d = (let unknown = filter (\<lambda>k. k \<notin> set allowed) (map fst d) in
     if unknown \<noteq> [] then Inl (FlowInvalid (what @ join_with '', '' (sort unknown))) else Inr ())"

definition parse_dependency :: "pyval \<Rightarrow> flow_error + string" where
  "parse_dependency v = (case v of
       PStr s \<Rightarrow> safe_identifier s ''dependency''
     | _ \<Rightarrow> Inl (FlowInvalid ''step dependency must be a string''))"

definition step_fields :: "string list" where
  "step_fields = [''step_id'', ''task_type'', ''dependencies'', ''payload'']"

definition parse_step :: "pyval \<Rightarrow> flow_error + flow_step" where
  "parse_step raw = (case raw of
       PDict d \<Rightarrow>
         ebind (no_unknown ''Unknown step fields: '' step_fields d) (\<lambda>_.
         ebind (identifier_field d ''step_id'') (\<lambda>i.
         ebind (identifier_field d ''task_type'') (\<lambda>task.
         (case dget_or d ''dependencies'' (PList []) of
            PList raws \<Rightarrow>
              ebind (emap parse_dependency raws) (\<lambda>deps.
              if \<not> distinct deps then Inl (FlowInvalid ''step dependencies must be unique'')
              else (case dget_or d ''payload'' (PDict []) of
                  PDict payload \<Rightarrow>
                    Inr \<lparr>fs_id = i, fs_task = task, fs_deps = sort deps, fs_payload = payload\<rparr>
                | _ \<Rightarrow> Inl (FlowInvalid ''step payload must be an object'')))
          | _ \<Rightarrow> Inl (FlowInvalid ''step dependencies must be an array'')))))
     | _ \<Rightarrow> Inl (FlowInvalid ''Every step must be an object''))"

definition check_dependency :: "flow_step list \<Rightarrow> flow_step \<Rightarrow> string \<Rightarrow> flow_error + unit" where
  "check_dependency steps s d =
     (if d = fs_id s then Inl (FlowInvalid ''step cannot depend on itself'')
      else if d \<notin> fs_id ` set steps
        then Inl (FlowInvalid (''unknown dependency '' @ d @ '' for step '' @ fs_id s))
      else Inr ())"

definition validate_dependencies :: "flow_step list \<Rightarrow> flow_error + unit" where
  "validate_dependencies steps =
     ebind (emap (\<lambda>s. emap (check_dependency steps s) (fs_deps s)) steps) (\<lambda>_. Inr ())"

definition validate_unique_step_ids :: "flow_step list \<Rightarrow> flow_error + unit" where
  "validate_unique_step_ids steps =
     (if \<not> distinct (map fs_id steps) then Inl (FlowInvalid ''step_id values must be unique'')
      else Inr ())"

definition validate_acyclic :: "flow_step list \<Rightarrow> flow_error + unit" where
  "validate_acyclic steps =
     ebind (topological_steps \<lparr>fl_version = flow_version, fl_id = ''validation'',
       fl_project = ''validation'', fl_steps = steps, fl_metadata = []\<rparr>) (\<lambda>_. Inr ())"

definition validate_steps :: "flow_step list \<Rightarrow> flow_error + unit" where
  "validate_steps steps =
     ebind (validate_unique_step_ids steps) (\<lambda>_.
     ebind (validate_dependencies steps) (\<lambda>_. validate_acyclic steps))"

definition root_fields :: "string list" where
  "root_fields = [''schema_version'', ''flow_id'', ''project_id'', ''steps'', ''metadata'']"

definition parse_flow :: "pyval \<Rightarrow> flow_error + flow_spec" where
  "parse_flow document = (case document of
       PDict d \<Rightarrow>
         ebind (no_unknown ''Unknown FlowSpec fields: '' root_fields d) (\<lambda>_.
         ebind (required_string d ''schema_version'') (\<lambda>version.
         if version \<noteq> flow_version
         then Inl (FlowInvalid (''Unsupported FlowSpec schema_version: '' @ version))
         else ebind (identifier_field d ''flow_id'') (\<lambda>i.
         ebind (identifier_field d ''project_id'') (\<lambda>project.
         (case dget d ''steps'' of
            PList raws \<Rightarrow>
              if raws = [] then Inl (FlowInvalid ''steps must not be empty'')
              else (case dget_or d ''metadata'' (PDict []) of
                  PDict metadata \<Rightarrow>
                    ebind (emap parse_step raws) (\<lambda>steps.
                    ebind (validate_steps steps) (\<lambda>_.
                    Inr \<lparr>fl_version = version, fl_id = i, fl_project = project, fl_steps = steps,
                      fl_metadata = metadata\<rparr>))
                | _ \<Rightarrow> Inl (FlowInvalid ''metadata must be an object''))
          | _ \<Rightarrow> Inl (FlowInvalid ''steps must be an array''))))))
     | _ \<Rightarrow> Inl (FlowInvalid ''FlowSpec root must be an object''))"

definition parse_flow_json :: "string \<Rightarrow> flow_error + flow_spec" where
  "parse_flow_json content = (case json_loads content of
       None \<Rightarrow> Inl (FlowInvalid ''FlowSpec is not valid JSON'')
     | Some data \<Rightarrow> if is_dict data then parse_flow data
                    else Inl (FlowInvalid ''FlowSpec root must be an object''))"

section \<open>The canonical form\<close>

definition step_document :: "flow_step \<Rightarrow> pyval" where
  "step_document s = PDict [(''step_id'', PStr (fs_id s)), (''task_type'', PStr (fs_task s)),
     (''dependencies'', PList (map PStr (fs_deps s))), (''payload'', PDict (fs_payload s))]"

definition canonical_document :: "flow_spec \<Rightarrow> flow_error + pyval" where
  "canonical_document spec = ebind (topological_steps spec) (\<lambda>ordered.
     Inr (PDict [(''schema_version'', PStr (fl_version spec)), (''flow_id'', PStr (fl_id spec)),
       (''project_id'', PStr (fl_project spec)), (''steps'', PList (map step_document ordered)),
       (''metadata'', PDict (fl_metadata spec))]))"

definition canonical_json :: "flow_spec \<Rightarrow> flow_error + string" where
  "canonical_json spec = ebind (canonical_document spec) (\<lambda>d. Inr (json_dumps False d))"

end
