(* ===== verification/FlowOrder.thy ===== *)
theory FlowOrder
  imports FlowSpec
begin

text \<open>
  The order of a flow's steps.  On steps with distinct identifiers and known dependencies the
  worklist computes the least arrangement, in the dictionary order of the identifiers, that puts
  every step behind its dependencies, and fails exactly when the dependencies have a cycle.
\<close>

section \<open>Arrangements of steps\<close>

definition valid_steps :: "flow_step list \<Rightarrow> bool" where
  "valid_steps steps \<longleftrightarrow> distinct (map fs_id steps) \<and>
     list_all (\<lambda>s. distinct (fs_deps s) \<and> set (fs_deps s) \<subseteq> fs_id ` set steps) steps"

fun deps_first :: "string set \<Rightarrow> flow_step list \<Rightarrow> bool" where
  "deps_first seen [] = True"
| "deps_first seen (s # steps) = (set (fs_deps s) \<subseteq> seen \<and> deps_first (insert (fs_id s) seen) steps)"

definition arrangement :: "flow_step list \<Rightarrow> flow_step list \<Rightarrow> bool" where
  "arrangement steps ys \<longleftrightarrow> mset ys = mset steps \<and> deps_first {} ys"

definition depends_rel :: "flow_step list \<Rightarrow> (string \<times> string) set" where
  "depends_rel steps = {(d, fs_id s) | d s. s \<in> set steps \<and> d \<in> set (fs_deps s)}"

text \<open>The same on identifiers, for any table of dependencies.\<close>

fun ordered_from :: "('a \<Rightarrow> 'a set) \<Rightarrow> 'a set \<Rightarrow> 'a list \<Rightarrow> bool" where
  "ordered_from D E [] = True"
| "ordered_from D E (i # is) = (D i \<subseteq> E \<and> ordered_from D (insert i E) is)"

lemma ordered_from_mono: "ordered_from D E is \<Longrightarrow> E \<subseteq> F \<Longrightarrow> ordered_from D F is"
proof (induction "is" arbitrary: E F)
  case (Cons i "is")
  have "insert i E \<subseteq> insert i F" using Cons.prems(2) by blast
  then show ?case using Cons.IH [of "insert i E" "insert i F"] Cons.prems by auto
qed simp

lemma ordered_from_remove1: "ordered_from D E is \<Longrightarrow> ordered_from D (insert i E) (remove1 i is)"
proof (induction "is" arbitrary: E)
  case (Cons j "is")
  then show ?case
    using Cons.IH [of "insert j E"] by (auto simp: insert_commute [of i j])
qed simp

lemma ordered_from_deps: "ordered_from D E is \<Longrightarrow> i \<in> set is \<Longrightarrow> D i \<subseteq> E \<union> set is"
  by (induction "is" arbitrary: E) fastforce+

section \<open>The worklist\<close>

definition deps_of :: "flow_step list \<Rightarrow> string \<Rightarrow> string set" where
  "deps_of steps i = (case find_step steps i of None \<Rightarrow> {} | Some s \<Rightarrow> set (fs_deps s))"

lemma find_step_iff:
  "distinct (map fs_id steps) \<Longrightarrow> find_step steps i = Some s \<longleftrightarrow> s \<in> set steps \<and> fs_id s = i"
  unfolding find_step_def by (subst map_of_eq_Some_iff) (auto simp: comp_def rev_map [symmetric])

lemma find_step_of [simp]:
  "distinct (map fs_id steps) \<Longrightarrow> s \<in> set steps \<Longrightarrow> find_step steps (fs_id s) = Some s"
  by (simp add: find_step_iff)

lemma deps_of_step [simp]:
  "distinct (map fs_id steps) \<Longrightarrow> s \<in> set steps \<Longrightarrow> deps_of steps (fs_id s) = set (fs_deps s)"
  by (simp add: deps_of_def)

lemma dependents_iff:
  "distinct (map fs_id steps) \<Longrightarrow>
     j \<in> set (dependents steps i) \<longleftrightarrow> j \<in> fs_id ` set steps \<and> i \<in> deps_of steps j"
  by (auto simp: set_dependents)

lemma release_result:
  "distinct ds \<Longrightarrow> release ds deg ready = (deg', ready') \<Longrightarrow>
     deg' = (\<lambda>j. if j \<in> set ds then deg j - 1 else deg j) \<and>
     mset ready' = mset ready + mset (filter (\<lambda>d. deg d = 1) ds) \<and> (sorted ready \<longrightarrow> sorted ready')"
proof (induction ds arbitrary: deg ready)
  case (Cons d ds)
  let ?deg = "deg(d := deg d - 1)"
  let ?ready = "if ?deg d = 0 then sort (ready @ [d]) else ready"
  have step: "release ds ?deg ?ready = (deg', ready')" using Cons.prems(2) by (simp add: Let_def)
  have "distinct ds" "d \<notin> set ds" using Cons.prems(1) by simp_all
  note ih = Cons.IH [OF \<open>distinct ds\<close> step]
  have same: "mset (filter (\<lambda>d. ?deg d = 1) ds) = mset (filter (\<lambda>d. deg d = 1) ds)"
    using \<open>d \<notin> set ds\<close> by (intro arg_cong [of _ _ mset] filter_cong) auto
  have "deg' = (\<lambda>j. if j \<in> set (d # ds) then deg j - 1 else deg j)"
    using ih \<open>d \<notin> set ds\<close> by (intro ext) auto
  moreover have "mset ready' = mset ready + mset (filter (\<lambda>d. deg d = 1) (d # ds))"
  proof -
    have "mset ready' = mset ?ready + mset (filter (\<lambda>d. ?deg d = 1) ds)" using ih by blast
    then show ?thesis unfolding same by simp
  qed
  moreover have "sorted ready \<longrightarrow> sorted ready'"
    using ih by auto
  ultimately show ?case by blast
qed simp

text \<open>What holds of the worklist when the steps in \<open>E\<close> have been put in order.\<close>

definition worklist :: "flow_step list \<Rightarrow> string set \<Rightarrow> (string \<Rightarrow> int) \<Rightarrow> string list \<Rightarrow> bool" where
  "worklist steps E deg ready \<longleftrightarrow>
     E \<subseteq> fs_id ` set steps \<and> (\<forall>i \<in> E. deps_of steps i \<subseteq> E) \<and>
     (\<forall>i \<in> fs_id ` set steps. deg i = int (card (deps_of steps i - E))) \<and>
     distinct ready \<and> sorted ready \<and>
     set ready = {i \<in> fs_id ` set steps. deps_of steps i \<subseteq> E} - E"

lemma finite_deps_of [simp]: "finite (deps_of steps i)"
  by (auto simp: deps_of_def split: option.split)

lemma worklist_pop:
  assumes v: "distinct (map fs_id steps)" and w: "worklist steps E deg (i # ready)"
    and r: "release (dependents steps i) deg ready = (deg', ready')"
  shows "worklist steps (insert i E) deg' ready'"
proof -
  let ?ids = "fs_id ` set steps" and ?D = "deps_of steps"
  have E: "E \<subseteq> ?ids" "\<And>j. j \<in> E \<Longrightarrow> ?D j \<subseteq> E"
    and deg: "\<And>j. j \<in> ?ids \<Longrightarrow> deg j = int (card (?D j - E))"
    and rd: "distinct (i # ready)" "sorted (i # ready)"
      "set (i # ready) = {i \<in> ?ids. ?D i \<subseteq> E} - E"
    using w by (auto simp: worklist_def)
  have i: "i \<in> ?ids" "?D i \<subseteq> E" "i \<notin> E" using rd(3) by auto
  have res: "deg' = (\<lambda>j. if j \<in> set (dependents steps i) then deg j - 1 else deg j)"
      "mset ready' = mset ready + mset (filter (\<lambda>d. deg d = 1) (dependents steps i))" "sorted ready'"
    using release_result [OF distinct_dependents r] rd(2) by auto
  have dep: "j \<in> set (dependents steps i) \<longleftrightarrow> j \<in> ?ids \<and> i \<in> ?D j" for j
    by (rule dependents_iff [OF v])
  have card: "int (card (?D j - insert i E)) = (if i \<in> ?D j then deg j - 1 else deg j)"
    if "j \<in> ?ids" for j
  proof (cases "i \<in> ?D j")
    case True
    have "?D j - insert i E = (?D j - E) - {i}" by blast
    moreover have "i \<in> ?D j - E" using True i by simp
    ultimately have "card (?D j - insert i E) = card (?D j - E) - 1" "card (?D j - E) > 0"
      by (auto simp: card_gt_0_iff)
    then show ?thesis using True deg [OF that] by simp
  next
    case False
    then have "?D j - insert i E = ?D j - E" by blast
    then show ?thesis using False deg [OF that] by simp
  qed
  have one: "deg j = 1 \<longleftrightarrow> ?D j \<subseteq> insert i E" if "j \<in> set (dependents steps i)" for j
  proof -
    have "j \<in> ?ids" "i \<in> ?D j" using that dep by simp_all
    then have "int (card (?D j - insert i E)) = deg j - 1" using card [of j] by simp
    then have "deg j = 1 \<longleftrightarrow> card (?D j - insert i E) = 0" by linarith
    also have "\<dots> \<longleftrightarrow> ?D j - insert i E = {}" by simp
    also have "\<dots> \<longleftrightarrow> ?D j \<subseteq> insert i E" by blast
    finally show ?thesis .
  qed
  have set': "set ready' = set ready \<union> {j \<in> set (dependents steps i). ?D j \<subseteq> insert i E}"
    using arg_cong [OF res(2), of set_mset] one by auto
  have new: "j \<notin> E \<and> j \<noteq> i \<and> j \<notin> set ready" if "j \<in> set (dependents steps i)" for j
  proof -
    have "i \<in> ?D j" using that dep by simp
    then have "\<not> ?D j \<subseteq> E" using i(3) by blast
    moreover have "set ready \<subseteq> {i \<in> ?ids. ?D i \<subseteq> E}" using rd(3) by auto
    ultimately show ?thesis using E(2) i(2) by blast
  qed
  have "distinct ready'"
  proof -
    have "distinct (ready @ filter (\<lambda>d. deg d = 1) (dependents steps i))"
      using rd(1) new by (auto simp: distinct_dependents)
    moreover have "mset ready' = mset (ready @ filter (\<lambda>d. deg d = 1) (dependents steps i))"
      using res(2) by simp
    ultimately show ?thesis using mset_eq_imp_distinct_iff by blast
  qed
  moreover have "set ready' = {j \<in> ?ids. ?D j \<subseteq> insert i E} - insert i E"
  proof (intro equalityI subsetI)
    fix j assume "j \<in> set ready'"
    then show "j \<in> {j \<in> ?ids. ?D j \<subseteq> insert i E} - insert i E"
      using set' new dep rd by auto
  next
    fix j assume j: "j \<in> {j \<in> ?ids. ?D j \<subseteq> insert i E} - insert i E"
    show "j \<in> set ready'"
    proof (cases "i \<in> ?D j")
      case True
      then show ?thesis using j set' dep by auto
    next
      case False
      then have "?D j \<subseteq> E" using j by blast
      then have "j \<in> set (i # ready)" using j rd(3) by blast
      then show ?thesis using j set' by auto
    qed
  qed
  moreover have "\<forall>j \<in> ?ids. deg' j = int (card (?D j - insert i E))"
    using card res(1) dep by auto
  moreover have "\<forall>j \<in> insert i E. ?D j \<subseteq> insert i E" using E(2) i(2) by blast
  moreover have "insert i E \<subseteq> ?ids" using E(1) i(1) by blast
  ultimately show ?thesis using res(3) unfolding worklist_def by blast
qed

text \<open>Whatever can be arranged is arranged, with the least identifiers first.\<close>

lemma topo_loop_ordered:
  assumes "distinct (map fs_id steps)" and "worklist steps E deg ready"
  shows "distinct (topo_loop steps deg ready) \<and>
    set (topo_loop steps deg ready) \<subseteq> fs_id ` set steps - E \<and>
    ordered_from (deps_of steps) E (topo_loop steps deg ready) \<and>
    (\<forall>i \<in> fs_id ` set steps - E - set (topo_loop steps deg ready).
       \<not> deps_of steps i \<subseteq> E \<union> set (topo_loop steps deg ready))"
  using assms
proof (induction steps deg ready arbitrary: E rule: topo_loop.induct)
  case (2 steps deg i ready)
  obtain deg' ready' where r: "release (dependents steps i) deg ready = (deg', ready')" by fastforce
  have w: "worklist steps (insert i E) deg' ready'"
    by (rule worklist_pop [OF 2(2,3) r])
  have "i \<in> fs_id ` set steps" "deps_of steps i \<subseteq> E" "i \<notin> E"
    using 2(3) by (auto simp: worklist_def)
  then show ?case using 2(1) [OF r [symmetric] 2(2) w] r by auto
qed (auto simp: worklist_def)

lemma topo_loop_least:
  assumes "distinct (map fs_id steps)" and "worklist steps E deg ready"
    and "ordered_from (deps_of steps) E zs" and "distinct zs" and "set zs = fs_id ` set steps - E"
  shows "set (topo_loop steps deg ready) = fs_id ` set steps - E \<and> topo_loop steps deg ready \<le> zs"
  using assms
proof (induction steps deg ready arbitrary: E zs rule: topo_loop.induct)
  case (1 steps deg)
  have "zs = []"
  proof (cases zs)
    case (Cons z zs')
    then have "z \<in> {i \<in> fs_id ` set steps. deps_of steps i \<subseteq> E} - E" using 1 by auto
    then show ?thesis using 1(2) unfolding worklist_def by auto
  qed simp
  then show ?case using 1 by simp
next
  case (2 steps deg i ready)
  obtain deg' ready' where r: "release (dependents steps i) deg ready = (deg', ready')" by fastforce
  have w: "worklist steps (insert i E) deg' ready'"
    by (rule worklist_pop [OF 2(2,3) r])
  have i: "i \<in> fs_id ` set steps" "i \<notin> E" using 2(3) by (auto simp: worklist_def)
  have ordered: "ordered_from (deps_of steps) (insert i E) (remove1 i zs)"
    by (rule ordered_from_remove1 [OF 2(4)])
  have rest: "distinct (remove1 i zs)" "set (remove1 i zs) = fs_id ` set steps - insert i E"
    using 2(5,6) by auto
  note ih = 2(1) [OF r [symmetric] 2(2) w ordered rest]
  obtain z zs' where zs: "zs = z # zs'" using i 2(6) by (cases zs) auto
  have "z \<in> set (i # ready)" using 2(3,4,6) zs by (auto simp: worklist_def)
  then have "i \<le> z" using 2(3) by (auto simp: worklist_def)
  moreover have "i # topo_loop steps deg' ready' \<le> i # zs'" if "z = i"
    using ih zs that by simp
  ultimately have "i # topo_loop steps deg' ready' \<le> zs"
    using zs by (cases "z = i") (auto simp: le_less)
  then show ?case using ih i r by auto
qed

lemma worklist_start:
  assumes "valid_steps steps"
  shows "worklist steps {} (indegree steps)
    (sort (filter (\<lambda>i. indegree steps i = 0) (dedup (map fs_id steps))))"
proof -
  have d: "distinct (map fs_id steps)" using assms by (simp add: valid_steps_def)
  have deg: "indegree steps (fs_id s) = int (card (deps_of steps (fs_id s)))" if "s \<in> set steps" for s
    using assms d that by (simp add: indegree_def valid_steps_def list_all_iff distinct_card)
  then show ?thesis using d by (auto simp: worklist_def)
qed

section \<open>The order of the steps\<close>

lemma deps_first_iff:
  "distinct (map fs_id steps) \<Longrightarrow> set ys \<subseteq> set steps \<Longrightarrow>
     deps_first E ys \<longleftrightarrow> ordered_from (deps_of steps) E (map fs_id ys)"
  by (induction ys arbitrary: E) auto

lemma order_steps_valid:
  assumes "valid_steps steps"
  shows "order_steps steps =
    (if length (topo_ids steps) = length steps
     then Inr (map (\<lambda>i. the (find_step steps i)) (topo_ids steps))
     else Inl (FlowInvalid ''FlowSpec contains a dependency cycle''))"
proof -
  have "List.find (\<lambda>d. d \<notin> fs_id ` set steps) (concat (map fs_deps steps)) = None"
    using assms by (auto simp: find_None_iff valid_steps_def list_all_iff)
  then show ?thesis by (simp add: order_steps_def Let_def)
qed

lemma topo_ids_ordered:
  assumes "valid_steps steps"
  shows "distinct (topo_ids steps) \<and> set (topo_ids steps) \<subseteq> fs_id ` set steps \<and>
    ordered_from (deps_of steps) {} (topo_ids steps) \<and>
    (\<forall>i \<in> fs_id ` set steps - set (topo_ids steps). \<not> deps_of steps i \<subseteq> set (topo_ids steps))"
  using topo_loop_ordered [OF _ worklist_start [OF assms]] assms
  by (simp add: topo_ids_def Let_def valid_steps_def)

lemma complete_iff:
  assumes "valid_steps steps"
  shows "length (topo_ids steps) = length steps \<longleftrightarrow> set (topo_ids steps) = fs_id ` set steps"
proof -
  let ?o = "topo_ids steps"
  note o = topo_ids_ordered [OF assms]
  have d: "distinct (map fs_id steps)" using assms by (simp add: valid_steps_def)
  have "length ?o = card (set ?o)" using o by (simp add: distinct_card)
  moreover have "length steps = card (fs_id ` set steps)"
    using distinct_card [OF d] by simp
  ultimately show ?thesis using card_subset_eq [of "fs_id ` set steps" "set ?o"] o by auto
qed

lemma ids_to_steps:
  assumes "valid_steps steps" and "distinct is" and "set is = fs_id ` set steps"
    and "ordered_from (deps_of steps) {} is"
  defines "ys \<equiv> map (\<lambda>i. the (find_step steps i)) is"
  shows "arrangement steps ys \<and> map fs_id ys = is"
proof -
  have d: "distinct (map fs_id steps)" using assms(1) by (simp add: valid_steps_def)
  have f: "\<exists>s \<in> set steps. fs_id s = i \<and> find_step steps i = Some s" if "i \<in> set is" for i
    using that assms(3) d by auto
  have ids: "map fs_id ys = is"
    unfolding ys_def map_map comp_def by (rule map_idI) (use f in force)
  have "set ys = set steps"
    unfolding ys_def set_map assms(3) image_image using d by simp
  moreover have "distinct ys" using ids assms(2) by (metis distinct_map)
  moreover have "distinct steps" using d by (simp add: distinct_map)
  ultimately have "mset ys = mset steps" using set_eq_iff_mset_eq_distinct by blast
  moreover have "deps_first {} ys"
    using deps_first_iff [OF d, of ys] \<open>set ys = set steps\<close> ids assms(4) by simp
  ultimately show ?thesis using ids by (simp add: arrangement_def)
qed

lemma arrangement_ids:
  assumes "valid_steps steps" and "arrangement steps zs"
  shows "distinct (map fs_id zs)" and "set (map fs_id zs) = fs_id ` set steps"
    and "ordered_from (deps_of steps) {} (map fs_id zs)"
proof -
  have d: "distinct (map fs_id steps)" using assms(1) by (simp add: valid_steps_def)
  have m: "mset zs = mset steps" using assms(2) by (simp add: arrangement_def)
  have eq: "set zs = set steps" by (rule mset_eq_setD [OF m])
  have "mset (map fs_id zs) = mset (map fs_id steps)" using m by simp
  then show "distinct (map fs_id zs)" using d mset_eq_imp_distinct_iff by blast
  show "set (map fs_id zs) = fs_id ` set steps" using eq by simp
  show "ordered_from (deps_of steps) {} (map fs_id zs)"
    using deps_first_iff [OF d, of zs "{}"] eq assms(2) by (simp add: arrangement_def)
qed

lemma order_steps_Inr:
  assumes "valid_steps steps" and "order_steps steps = Inr ys"
  shows "arrangement steps ys" and "map fs_id ys = topo_ids steps"
proof -
  have l: "length (topo_ids steps) = length steps"
    and ys: "ys = map (\<lambda>i. the (find_step steps i)) (topo_ids steps)"
    using assms by (simp_all add: order_steps_valid split: if_splits)
  show "arrangement steps ys" "map fs_id ys = topo_ids steps"
    using ids_to_steps [OF assms(1), of "topo_ids steps"] topo_ids_ordered [OF assms(1)]
      complete_iff [OF assms(1)] l ys by blast+
qed

lemma arranged_steps:
  assumes v: "valid_steps steps" and "arrangement steps zs"
  shows "\<exists>ys. order_steps steps = Inr ys \<and> map fs_id ys \<le> map fs_id zs"
proof -
  note a = arrangement_ids [OF assms]
  have d: "distinct (map fs_id steps)" using v by (simp add: valid_steps_def)
  have o: "set (topo_ids steps) = fs_id ` set steps" "topo_ids steps \<le> map fs_id zs"
    using topo_loop_least [OF d worklist_start [OF v] a(3,1)] a(2)
    by (simp_all add: topo_ids_def Let_def)
  then have "length (topo_ids steps) = length steps" using complete_iff [OF v] by simp
  then obtain ys where "order_steps steps = Inr ys" using order_steps_valid [OF v] by simp
  with order_steps_Inr(2) [OF v this] o(2) show ?thesis by auto
qed

text \<open>Steps that come behind their dependencies depend on each other in no cycle.\<close>

lemma ordered_from_index:
  "ordered_from D E is \<Longrightarrow> i \<in> set is \<Longrightarrow> d \<in> D i \<Longrightarrow> d \<notin> E \<Longrightarrow>
     length (takeWhile (\<lambda>j. j \<noteq> d) is) < length (takeWhile (\<lambda>j. j \<noteq> i) is)"
  by (induction "is" arbitrary: E) auto

lemma arrangement_acyclic:
  assumes "valid_steps steps" and "arrangement steps zs"
  shows "acyclic (depends_rel steps)"
proof -
  let ?ids = "map fs_id zs"
  note a = arrangement_ids [OF assms]
  have d: "distinct (map fs_id steps)" using assms(1) by (simp add: valid_steps_def)
  have "depends_rel steps \<subseteq> measure (\<lambda>i. length (takeWhile (\<lambda>j. j \<noteq> i) ?ids))"
  proof
    fix p assume "p \<in> depends_rel steps"
    then obtain s x where p: "p = (x, fs_id s)" "s \<in> set steps" "x \<in> set (fs_deps s)"
      by (auto simp: depends_rel_def)
    show "p \<in> measure (\<lambda>i. length (takeWhile (\<lambda>j. j \<noteq> i) ?ids))"
      using ordered_from_index [OF a(3), of "fs_id s" x] a(2) p d by auto
  qed
  then show ?thesis using wf_subset [OF wf_measure] wf_acyclic by blast
qed

lemma acyclic_ordered:
  assumes v: "valid_steps steps" and "acyclic (depends_rel steps)"
  shows "is_ok (order_steps steps)"
proof -
  have d: "distinct (map fs_id steps)" using v by (simp add: valid_steps_def)
  have "depends_rel steps = (\<Union>s \<in> set steps. (\<lambda>x. (x, fs_id s)) ` set (fs_deps s))"
    by (auto simp: depends_rel_def)
  then have "finite (depends_rel steps)" by simp
  then have wf: "wf (depends_rel steps)" using assms(2) finite_acyclic_wf by blast
  note o = topo_ids_ordered [OF v]
  have "set (topo_ids steps) = fs_id ` set steps"
  proof (rule ccontr)
    assume "set (topo_ids steps) \<noteq> fs_id ` set steps"
    then obtain j where "j \<in> fs_id ` set steps - set (topo_ids steps)" using o by blast
    then obtain i where i: "i \<in> fs_id ` set steps - set (topo_ids steps)"
      and least: "\<And>x. (x, i) \<in> depends_rel steps \<Longrightarrow> x \<notin> fs_id ` set steps - set (topo_ids steps)"
      using wfE_min [OF wf] by metis
    obtain s where s: "s \<in> set steps" "fs_id s = i" using i by blast
    have "x \<in> set (topo_ids steps)" if "x \<in> set (fs_deps s)" for x
      using least [of x] that s v by (auto simp: depends_rel_def valid_steps_def list_all_iff)
    then have "deps_of steps i \<subseteq> set (topo_ids steps)" using d s by auto
    then show False using o i by blast
  qed
  then show ?thesis using complete_iff [OF v] by (simp add: order_steps_valid [OF v])
qed

lemma least_arrangement:
  assumes "valid_steps steps" and "arrangement steps ys"
    and "\<forall>zs. arrangement steps zs \<longrightarrow> map fs_id ys \<le> map fs_id zs"
  shows "order_steps steps = Inr ys"
proof -
  obtain ys' where ys': "order_steps steps = Inr ys'" "map fs_id ys' \<le> map fs_id ys"
    using arranged_steps [OF assms(1,2)] by blast
  have a: "arrangement steps ys'" by (rule order_steps_Inr(1) [OF assms(1) ys'(1)])
  have ids: "map fs_id ys' = map fs_id ys" using ys'(2) assms(3) a by (meson order_antisym)
  have "set ys' = set steps" "set ys = set steps"
    using a assms(2) by (auto simp: arrangement_def dest: mset_eq_setD)
  moreover have "inj_on fs_id (set steps)"
    using assms(1) by (simp add: valid_steps_def distinct_map)
  ultimately have "ys' = ys" using ids map_inj_on [of fs_id ys' ys] by simp
  then show ?thesis using ys'(1) by simp
qed

lemma order_steps_idem:
  assumes "valid_steps steps" and "order_steps steps = Inr ys"
  shows "valid_steps ys \<and> order_steps ys = Inr ys"
proof -
  have a: "arrangement steps ys" by (rule order_steps_Inr(1) [OF assms])
  then have m: "mset ys = mset steps" by (simp add: arrangement_def)
  have "set ys = set steps" by (rule mset_eq_setD [OF m])
  moreover have "distinct (map fs_id ys)" by (rule arrangement_ids(1) [OF assms(1) a])
  ultimately have v: "valid_steps ys" using assms(1) by (simp add: valid_steps_def list_all_iff)
  have same: "arrangement ys zs \<longleftrightarrow> arrangement steps zs" for zs by (simp add: arrangement_def m)
  have "\<forall>zs. arrangement steps zs \<longrightarrow> map fs_id ys \<le> map fs_id zs"
    using arranged_steps [OF assms(1)] assms(2) by fastforce
  then have "order_steps ys = Inr ys" using least_arrangement [OF v] a same by simp
  with v show ?thesis by blast
qed

text \<open>C12: The worklist computes the least arrangement: steps with distinct identifiers and known
  dependencies are returned in an order exactly when that order has the same steps, puts each
  behind its dependencies, and no other such order is smaller in the dictionary order of the
  identifiers.\<close>

theorem order_steps_least:
  assumes "valid_steps steps"
  shows "order_steps steps = Inr ys \<longleftrightarrow>
    arrangement steps ys \<and> (\<forall>zs. arrangement steps zs \<longrightarrow> map fs_id ys \<le> map fs_id zs)"
proof
  assume o: "order_steps steps = Inr ys"
  show "arrangement steps ys \<and> (\<forall>zs. arrangement steps zs \<longrightarrow> map fs_id ys \<le> map fs_id zs)"
    using order_steps_Inr(1) [OF assms o] arranged_steps [OF assms] o by fastforce
next
  assume l: "arrangement steps ys \<and> (\<forall>zs. arrangement steps zs \<longrightarrow> map fs_id ys \<le> map fs_id zs)"
  then show "order_steps steps = Inr ys" using least_arrangement [OF assms] by blast
qed

definition demo_steps :: "flow_step list" where
  "demo_steps = [\<lparr>fs_id = ''deploy'', fs_task = ''run'', fs_deps = [''build''], fs_payload = []\<rparr>,
     \<lparr>fs_id = ''test'', fs_task = ''run'', fs_deps = [], fs_payload = []\<rparr>,
     \<lparr>fs_id = ''build'', fs_task = ''run'', fs_deps = [], fs_payload = []\<rparr>]"

lemma demo_steps_valid: "valid_steps demo_steps"
  by (simp add: valid_steps_def demo_steps_def)

theorem order_steps_least_witness:
  "\<exists>ys. order_steps demo_steps = Inr ys \<and>
     (\<forall>zs. arrangement demo_steps zs \<longrightarrow> map fs_id ys \<le> map fs_id zs)"
proof -
  have "arrangement demo_steps (rev demo_steps)"
    by (simp add: arrangement_def demo_steps_def)
  then obtain ys where "order_steps demo_steps = Inr ys"
    using arranged_steps [OF demo_steps_valid] by blast
  then show ?thesis using order_steps_least [OF demo_steps_valid] by blast
qed

text \<open>C14: Ordering fails on steps with distinct identifiers and known dependencies exactly when the
  dependencies have a cycle.\<close>

theorem order_steps_cycle:
  assumes "valid_steps steps"
  shows "order_steps steps = Inl (FlowInvalid ''FlowSpec contains a dependency cycle'') \<longleftrightarrow>
    \<not> acyclic (depends_rel steps)"
proof
  assume "order_steps steps = Inl (FlowInvalid ''FlowSpec contains a dependency cycle'')"
  then show "\<not> acyclic (depends_rel steps)"
    using acyclic_ordered [OF assms] by auto
next
  assume "\<not> acyclic (depends_rel steps)"
  then have "order_steps steps \<noteq> Inr ys" for ys
    using order_steps_Inr(1) [OF assms] arrangement_acyclic [OF assms] by blast
  then show "order_steps steps = Inl (FlowInvalid ''FlowSpec contains a dependency cycle'')"
    using order_steps_valid [OF assms] by (auto split: if_splits)
qed

theorem order_steps_cycle_witness:
  "order_steps [\<lparr>fs_id = ''a'', fs_task = ''run'', fs_deps = [''a''], fs_payload = []\<rparr>] =
     Inl (FlowInvalid ''FlowSpec contains a dependency cycle'')"
proof -
  let ?steps = "[\<lparr>fs_id = ''a'', fs_task = ''run'', fs_deps = [''a''], fs_payload = []\<rparr>]"
  have "valid_steps ?steps" by (simp add: valid_steps_def)
  moreover have "\<not> acyclic (depends_rel ?steps)"
    by (auto simp: acyclic_def depends_rel_def)
  ultimately show ?thesis using order_steps_cycle [of ?steps] by blast
qed

end
