(* ===== verification/FlowDocument.thy ===== *)
theory FlowDocument
  imports FlowOrder
begin

text \<open>
  Documents of flows: what parsing establishes, and the canonical form.  Canonical text is read
  back, and writing what was read gives the same text again.
\<close>

section \<open>What parsing establishes\<close>

definition good_name :: "string \<Rightarrow> bool" where
  "good_name s \<longleftrightarrow> s \<noteq> [] \<and> strip s = s \<and> \<not> unsafe_name s"

definition good_step :: "flow_step \<Rightarrow> bool" where
  "good_step s \<longleftrightarrow> good_name (fs_id s) \<and> good_name (fs_task s) \<and>
     list_all (\<lambda>d. strip d = d \<and> \<not> unsafe_name d) (fs_deps s) \<and>
     distinct (fs_deps s) \<and> sorted (fs_deps s) \<and> fs_id s \<notin> set (fs_deps s) \<and>
     json_wf (PDict (fs_payload s))"

definition good_flow :: "flow_spec \<Rightarrow> bool" where
  "good_flow f \<longleftrightarrow> fl_version f = flow_version \<and> good_name (fl_id f) \<and> good_name (fl_project f) \<and>
     fl_steps f \<noteq> [] \<and> list_all good_step (fl_steps f) \<and> valid_steps (fl_steps f) \<and>
     is_ok (order_steps (fl_steps f)) \<and> json_wf (PDict (fl_metadata f))"

lemma required_string_Inr:
  "required_string d k = Inr s \<longleftrightarrow> (\<exists>r. dget d k = PStr r \<and> s = strip r \<and> strip r \<noteq> [])"
  by (auto simp: required_string_def split: pyval.splits)

lemma safe_identifier_Inr:
  "safe_identifier v k = Inr s \<longleftrightarrow> s = strip v \<and> \<not> unsafe_name (strip v)"
  by (auto simp: safe_identifier_def Let_def)

lemma identifier_field_Inr:
  "identifier_field d k = Inr s \<longleftrightarrow> good_name s \<and> (\<exists>r. dget d k = PStr r \<and> s = strip r)"
  by (auto simp: identifier_field_def required_string_Inr safe_identifier_Inr good_name_def err_simps)

lemma parse_dependency_Inr:
  "parse_dependency v = Inr s \<longleftrightarrow> (\<exists>r. v = PStr r \<and> s = strip r \<and> \<not> unsafe_name s)"
  by (auto simp: parse_dependency_def safe_identifier_Inr split: pyval.splits)

lemma no_unknown_Inr: "no_unknown w ks d = Inr u \<longleftrightarrow> fst ` set d \<subseteq> set ks"
  by (auto simp: no_unknown_def Let_def filter_empty_conv)

lemma parse_step_Inr:
  "parse_step v = Inr s \<longleftrightarrow>
     (\<exists>d raws deps. v = PDict d \<and> fst ` set d \<subseteq> set step_fields \<and>
        identifier_field d ''step_id'' = Inr (fs_id s) \<and>
        identifier_field d ''task_type'' = Inr (fs_task s) \<and>
        dget_or d ''dependencies'' (PList []) = PList raws \<and>
        emap parse_dependency raws = Inr deps \<and> distinct deps \<and> fs_deps s = sort deps \<and>
        dget_or d ''payload'' (PDict []) = PDict (fs_payload s))"
  unfolding parse_step_def
  by (cases s) (auto simp: no_unknown_Inr ebind_eq_Inr shape_simps)

lemma parse_flow_Inr:
  "parse_flow v = Inr f \<longleftrightarrow>
     (\<exists>d raws. v = PDict d \<and> fst ` set d \<subseteq> set root_fields \<and>
        required_string d ''schema_version'' = Inr (fl_version f) \<and> fl_version f = flow_version \<and>
        identifier_field d ''flow_id'' = Inr (fl_id f) \<and>
        identifier_field d ''project_id'' = Inr (fl_project f) \<and>
        dget d ''steps'' = PList raws \<and> raws \<noteq> [] \<and> emap parse_step raws = Inr (fl_steps f) \<and>
        dget_or d ''metadata'' (PDict []) = PDict (fl_metadata f) \<and>
        validate_steps (fl_steps f) = Inr ())"
  unfolding parse_flow_def
  by (cases f) (auto simp: no_unknown_Inr ebind_eq_Inr shape_simps)

lemma validate_steps_Inr:
  "validate_steps steps = Inr u \<longleftrightarrow> distinct (map fs_id steps) \<and>
     (\<forall>s \<in> set steps. \<forall>d \<in> set (fs_deps s). d \<noteq> fs_id s \<and> d \<in> fs_id ` set steps) \<and>
     is_ok (order_steps steps)"
proof -
  have "is_ok (check_dependency steps s d) \<longleftrightarrow> d \<noteq> fs_id s \<and> d \<in> fs_id ` set steps" for s d
    by (simp add: check_dependency_def)
  then have "validate_dependencies steps = Inr v \<longleftrightarrow>
      (\<forall>s \<in> set steps. \<forall>d \<in> set (fs_deps s). d \<noteq> fs_id s \<and> d \<in> fs_id ` set steps)" for v
    by (simp add: validate_dependencies_def is_ok_ebind_unit is_ok_emap)
  then show ?thesis by (simp add: validate_steps_def validate_unique_step_ids_def validate_acyclic_def
      topological_steps_def ebind_eq_Inr is_ok_iff)
qed

lemma dget_or_wf: "json_wf (PDict d) \<Longrightarrow> json_wf x \<Longrightarrow> json_wf (dget_or d k x)"
  using json_wf_lookup by (auto simp: dget_or_def split: option.split)

lemma parse_step_good:
  assumes "parse_step v = Inr s" and "json_wf v" and "fs_id s \<notin> set (fs_deps s)"
  shows "good_step s"
proof -
  obtain d raws deps where p: "v = PDict d" "identifier_field d ''step_id'' = Inr (fs_id s)"
      "identifier_field d ''task_type'' = Inr (fs_task s)" "emap parse_dependency raws = Inr deps"
      "distinct deps" "fs_deps s = sort deps" "dget_or d ''payload'' (PDict []) = PDict (fs_payload s)"
    using assms(1) by (auto simp: parse_step_Inr)
  have "\<forall>x \<in> set deps. strip x = x \<and> \<not> unsafe_name x"
    using emap_Inr_mem [OF p(4)] by (fastforce simp: parse_dependency_Inr)
  moreover have "json_wf (PDict (fs_payload s))"
    using dget_or_wf [of d "PDict []" "''payload''"] assms(2) p(1,7) by simp
  ultimately show ?thesis
    using p assms(3) by (simp add: good_step_def identifier_field_Inr list_all_iff)
qed

lemma parse_flow_good:
  assumes "parse_flow v = Inr f" and "json_wf v"
  shows "good_flow f"
proof -
  obtain d raws where p: "v = PDict d" "identifier_field d ''flow_id'' = Inr (fl_id f)"
      "identifier_field d ''project_id'' = Inr (fl_project f)" "fl_version f = flow_version"
      "dget d ''steps'' = PList raws" "raws \<noteq> []" "emap parse_step raws = Inr (fl_steps f)"
      "dget_or d ''metadata'' (PDict []) = PDict (fl_metadata f)"
      "validate_steps (fl_steps f) = Inr ()"
    using assms(1) by (auto simp: parse_flow_Inr)
  note v = p(9) [unfolded validate_steps_Inr]
  have good: "good_step s" if s: "s \<in> set (fl_steps f)" for s
  proof -
    obtain r where "r \<in> set raws" "parse_step r = Inr s"
      using emap_Inr_mem [OF p(7) s] by blast
    moreover have "json_wf (PList raws)" using json_wf_dget [of d "''steps''"] assms(2) p(1,5) by simp
    moreover have "fs_id s \<notin> set (fs_deps s)" using v s by blast
    ultimately show ?thesis using parse_step_good [of r s] by (simp add: list_all_iff)
  qed
  moreover have "json_wf (PDict (fl_metadata f))"
    using dget_or_wf [of d "PDict []" "''metadata''"] assms(2) p(1,8) by simp
  moreover have "fl_steps f \<noteq> []" using p(6,7) emap_length by force
  ultimately show ?thesis
    using p(2,3,4) v by (auto simp: good_flow_def identifier_field_Inr list_all_iff valid_steps_def good_step_def)
qed

section \<open>The canonical form\<close>

definition sorted_payload :: "flow_step \<Rightarrow> flow_step" where
  "sorted_payload s = s\<lparr>fs_payload := sorted_dict (fs_payload s)\<rparr>"

lemma json_sort_PStrs [simp]: "map (json_sort \<circ> PStr) xs = map PStr xs"
  by simp

lemma sorted_payload_simps [simp]:
  "fs_id (sorted_payload s) = fs_id s" "fs_task (sorted_payload s) = fs_task s"
  "fs_deps (sorted_payload s) = fs_deps s"
  "fs_payload (sorted_payload s) = sorted_dict (fs_payload s)"
  by (simp_all add: sorted_payload_def)

lemma parse_dependencies_again:
  "list_all (\<lambda>d. strip d = d \<and> \<not> unsafe_name d) ds \<Longrightarrow> emap parse_dependency (map PStr ds) = Inr ds"
  by (induction ds) (auto simp: parse_dependency_def safe_identifier_def Let_def)

lemma parse_step_document:
  assumes "good_step s"
  shows "parse_step (json_sort (step_document s)) = Inr (sorted_payload s)"
proof -
  let ?d = "[(''step_id'', PStr (fs_id s)), (''task_type'', PStr (fs_task s)),
     (''dependencies'', PList (map PStr (fs_deps s))), (''payload'', PDict (fs_payload s))]"
  have d: "distinct (map fst ?d)" by simp
  have doc: "json_sort (step_document s) = PDict (sorted_dict ?d)"
    unfolding step_document_def by (rule json_sort_PDict)
  have "emap parse_dependency (map PStr (fs_deps s)) = Inr (fs_deps s)"
    using assms by (intro parse_dependencies_again) (simp add: good_step_def)
  moreover have "sort (fs_deps s) = fs_deps s"
    using assms by (simp add: good_step_def sort_key_id_if_sorted)
  ultimately show ?thesis
    using assms unfolding doc parse_step_Inr
    by (simp add: sorted_dict_dget [OF d] sorted_dict_dget_or [OF d] sorted_dict_keys identifier_field_Inr
        good_step_def good_name_def step_fields_def json_sort_PDict del: json_sort.simps(2))
qed

lemma find_payload: "find_step (map sorted_payload steps) i = map_option sorted_payload (find_step steps i)"
  unfolding find_step_def
  by (induction steps) (auto simp: map_of_append map_add_def split: option.split)

lemma topo_ids_payload: "topo_ids (map sorted_payload steps) = topo_ids steps"
proof -
  have d: "dependents (map sorted_payload steps) i = dependents steps i" for steps i
    by (simp add: dependents_def filter_map comp_def)
  have g: "indegree (map sorted_payload steps) = indegree steps"
    by (simp add: fun_eq_iff indegree_def find_payload option.case_eq_if option.map_sel)
  have "topo_loop (map sorted_payload steps) deg ready = topo_loop steps deg ready" for deg ready
    by (induction steps deg ready rule: topo_loop.induct) (auto simp: d split: prod.split)
  then show ?thesis by (simp add: topo_ids_def g comp_def)
qed

lemma valid_steps_payload: "valid_steps (map sorted_payload steps) = valid_steps steps"
  by (simp add: valid_steps_def comp_def list_all_iff image_image)

lemma order_steps_payload:
  assumes "valid_steps steps" and "order_steps steps = Inr ys"
  shows "order_steps (map sorted_payload steps) = Inr (map sorted_payload ys)"
proof -
  have "distinct (map fs_id steps)" using assms(1) by (simp add: valid_steps_def)
  then have "\<forall>i \<in> set (topo_ids steps). find_step steps i \<noteq> None"
    using topo_ids_ordered [OF assms(1)] by fastforce
  then show ?thesis
    using assms by (auto simp: order_steps_valid valid_steps_payload topo_ids_payload find_payload
        option.map_sel split: if_splits)
qed

definition canonical :: "flow_spec \<Rightarrow> flow_step list \<Rightarrow> pyval dict" where
  "canonical f ys = [(''schema_version'', PStr (fl_version f)), (''flow_id'', PStr (fl_id f)),
     (''project_id'', PStr (fl_project f)), (''steps'', PList (map step_document ys)),
     (''metadata'', PDict (fl_metadata f))]"

definition reread :: "flow_spec \<Rightarrow> flow_step list \<Rightarrow> flow_spec" where
  "reread f ys = f\<lparr>fl_steps := map sorted_payload ys, fl_metadata := sorted_dict (fl_metadata f)\<rparr>"

lemma canonical_document_eq:
  "topological_steps f = Inr ys \<Longrightarrow> canonical_document f = Inr (PDict (canonical f ys))"
  by (simp add: canonical_document_def canonical_def)

lemma canonical_wf:
  "list_all good_step ys \<Longrightarrow> json_wf (PDict (fl_metadata f)) \<Longrightarrow> json_wf (PDict (canonical f ys))"
  by (auto simp: canonical_def step_document_def good_step_def list_all_iff)

lemma canonical_json_eq:
  "topological_steps f = Inr ys \<Longrightarrow> canonical_json f = Inr (json_dumps False (PDict (canonical f ys)))"
  by (simp add: canonical_json_def canonical_document_eq)

lemma strip_version: "strip flow_version = flow_version" "flow_version \<noteq> []"
  by code_simp+

lemma parse_canonical:
  assumes g: "good_flow f" and o: "order_steps (fl_steps f) = Inr ys"
  shows "parse_flow (json_sort (PDict (canonical f ys))) = Inr (reread f ys)"
proof -
  have v: "valid_steps (fl_steps f)" using g by (simp add: good_flow_def)
  have m: "mset ys = mset (fl_steps f)"
    using order_steps_Inr(1) [OF v o] by (simp add: arrangement_def)
  have eq: "set ys = set (fl_steps f)" by (rule mset_eq_setD [OF m])
  have idem: "valid_steps ys" "order_steps ys = Inr ys" using order_steps_idem [OF v o] by simp_all
  have good: "list_all good_step ys" using g eq by (simp add: good_flow_def list_all_iff)
  have d: "distinct (map fst (canonical f ys))" by (simp add: canonical_def)
  have "ys \<noteq> []" using eq g by (auto simp: good_flow_def)
  moreover have "emap parse_step (map (json_sort \<circ> step_document) ys) = Inr (map sorted_payload ys)"
    using good by (induction ys) (simp_all add: parse_step_document)
  moreover have "validate_steps (map sorted_payload ys) = Inr ()"
  proof -
    have "order_steps (map sorted_payload ys) = Inr (map sorted_payload ys)"
      by (rule order_steps_payload [OF idem])
    then show ?thesis using idem(1) good
      by (auto simp: validate_steps_Inr valid_steps_def list_all_iff good_step_def comp_def image_image)
  qed
  ultimately show ?thesis
    using g unfolding parse_flow_Inr json_sort_PDict
    by (simp add: sorted_dict_dget [OF d] sorted_dict_dget_or [OF d] sorted_dict_keys required_string_Inr
        identifier_field_Inr good_flow_def good_name_def root_fields_def reread_def)
      (simp add: canonical_def strip_version json_sort_PDict del: json_sort.simps(2))
qed

lemma reread_canonical:
  assumes "good_flow f" and "order_steps (fl_steps f) = Inr ys"
  shows "topological_steps (reread f ys) = Inr (fl_steps (reread f ys))"
    and "canonical_json (reread f ys) = canonical_json f"
proof -
  have v: "valid_steps (fl_steps f)" using assms(1) by (simp add: good_flow_def)
  have idem: "valid_steps ys" "order_steps ys = Inr ys" using order_steps_idem [OF v assms(2)] by simp_all
  show t: "topological_steps (reread f ys) = Inr (fl_steps (reread f ys))"
    by (simp add: topological_steps_def reread_def order_steps_payload [OF idem])
  have "json_sort (step_document (sorted_payload s)) = json_sort (step_document s)" for s
  proof -
    have "json_sort (PDict (sorted_dict (fs_payload s))) = json_sort (PDict (fs_payload s))"
      by (metis json_sort_PDict json_sort_idem)
    then show ?thesis by (simp add: step_document_def)
  qed
  then have items: "map (json_sort \<circ> step_document) (map sorted_payload ys) = map (json_sort \<circ> step_document) ys"
    by simp
  have meta: "json_sort (PDict (sorted_dict (fl_metadata f))) = json_sort (PDict (fl_metadata f))"
    by (metis json_sort_PDict json_sort_idem)
  have "json_sort (PDict (canonical (reread f ys) (map sorted_payload ys))) =
      json_sort (PDict (canonical f ys))"
    using items meta by (simp add: canonical_def reread_def)
  then have "json_dumps False (PDict (canonical (reread f ys) (map sorted_payload ys))) =
      json_dumps False (PDict (canonical f ys))" by (rule json_dumps_sorted)
  moreover have "topological_steps f = Inr ys" using assms(2) by (simp add: topological_steps_def)
  moreover have "fl_steps (reread f ys) = map sorted_payload ys" by (simp add: reread_def)
  ultimately show "canonical_json (reread f ys) = canonical_json f"
    using canonical_json_eq [OF t] by (simp only: canonical_json_eq [of f ys])
qed

lemma parse_flow_json_good: "parse_flow_json t = Inr f \<Longrightarrow> good_flow f"
  using parse_flow_good json_loads_wf
  by (auto simp: parse_flow_json_def split: option.splits if_splits)

text \<open>C15: The canonical text of a parsed flow is read back, as a flow whose steps stand in their
  order, and its canonical text is the same text.\<close>

theorem canonical_round_trip:
  assumes "parse_flow_json t = Inr f"
  shows "\<exists>text g. canonical_json f = Inr text \<and> parse_flow_json text = Inr g \<and>
    topological_steps g = Inr (fl_steps g) \<and> canonical_json g = Inr text"
proof -
  have g: "good_flow f" by (rule parse_flow_json_good [OF assms])
  then obtain ys where o: "order_steps (fl_steps f) = Inr ys" by (auto simp: good_flow_def is_ok_iff)
  have v: "valid_steps (fl_steps f)" using g by (simp add: good_flow_def)
  have "mset ys = mset (fl_steps f)" using order_steps_Inr(1) [OF v o] by (simp add: arrangement_def)
  then have "set ys = set (fl_steps f)" by (rule mset_eq_setD)
  then have "json_wf (PDict (canonical f ys))"
    using g by (intro canonical_wf) (simp_all add: good_flow_def list_all_iff)
  then have "json_loads (json_dumps False (PDict (canonical f ys))) =
      Some (json_sort (PDict (canonical f ys)))" by (rule json_loads_dumps)
  then have "parse_flow_json (json_dumps False (PDict (canonical f ys))) = Inr (reread f ys)"
    using parse_canonical [OF g o] by (simp add: parse_flow_json_def)
  moreover have "canonical_json f = Inr (json_dumps False (PDict (canonical f ys)))"
    using o by (simp add: canonical_json_eq topological_steps_def)
  ultimately show ?thesis using reread_canonical [OF g o] by auto
qed

definition demo_flow :: "pyval" where
  "demo_flow = PDict [(''schema_version'', PStr ''1.0.0''), (''flow_id'', PStr ''f''),
     (''project_id'', PStr '' p''), (''steps'', PList [PDict [(''step_id'', PStr ''b''),
        (''task_type'', PStr ''run''), (''dependencies'', PList [PStr ''a''])],
      PDict [(''step_id'', PStr ''a''), (''task_type'', PStr ''run'')]])]"

lemma demo_flow_parses: "is_ok (parse_flow demo_flow)" by code_simp

lemma demo_flow_json: "\<exists>f. parse_flow_json (json_dumps False demo_flow) = Inr f"
proof -
  have "json_loads (json_dumps False demo_flow) = Some (json_sort demo_flow)"
    by (rule json_loads_dumps) (simp add: demo_flow_def)
  moreover have "is_ok (parse_flow (json_sort demo_flow))" by code_simp
  ultimately show ?thesis by (auto simp: parse_flow_json_def is_ok_iff demo_flow_def)
qed

theorem canonical_round_trip_witness:
  "\<exists>f text. parse_flow_json (json_dumps False demo_flow) = Inr f \<and> canonical_json f = Inr text \<and>
     is_ok (parse_flow_json text)"
proof -
  obtain f where f: "parse_flow_json (json_dumps False demo_flow) = Inr f"
    using demo_flow_json by blast
  then show ?thesis using canonical_round_trip [OF f] by (auto simp: is_ok_iff)
qed

end
