(* ===== verification/FlowMaterializer.thy ===== *)
theory FlowMaterializer
  imports FlowDocument PyHash
begin

text \<open>
  \<^verbatim>\<open>agent/runtime/flowspec_materializer.py\<close> turns a flow into mission records in the order of its
  steps, and \<^verbatim>\<open>agent/runtime/flowspec_execution_contract.py\<close> checks such a batch before it is
  executed.  The main result is that the second accepts what the first produces.
\<close>

section \<open>Materialization\<close>

record materialized_flow =
  mf_flow :: string
  mf_project :: string
  mf_missions :: "pyval list"

definition mission_id :: "string \<Rightarrow> string \<Rightarrow> string" where
  "mission_id flow step = ''flow-'' @ take 16 (sha256_hex (strip flow @ ''|'' @ strip step))"

definition preview_mission :: "flow_spec \<Rightarrow> flow_step \<Rightarrow> pyval dict" where
  "preview_mission f s =
     [(''mission_id'', PStr (mission_id (fl_id f) (fs_id s))),
      (''request_id'', PStr (mission_id (fl_id f) (fs_id s))),
      (''project_id'', PStr (fl_project f)), (''plan_id'', PStr (fl_id f)),
      (''step_id'', PStr (fs_id s)), (''task_type'', PStr (fs_task s)),
      (''provider_id'', PStr ''native''), (''status'', PStr ''pending''), (''priority'', PInt 100),
      (''dependencies'', PList (map (\<lambda>d. PStr (mission_id (fl_id f) d)) (fs_deps s))),
      (''max_retries'', PInt 0), (''payload'', PDict (fs_payload s)),
      (''metadata'', PDict [(''source'', PStr ''flowspec_v1''), (''flow_id'', PStr (fl_id f)),
         (''schema_version'', PStr (fl_version f))])]"

definition preview :: "flow_spec \<Rightarrow> flow_error + materialized_flow" where
  "preview f = ebind (topological_steps f) (\<lambda>ordered.
     Inr \<lparr>mf_flow = fl_id f, mf_project = fl_project f,
       mf_missions = map (\<lambda>s. PDict (preview_mission f s)) ordered\<rparr>)"

definition preview_document :: "pyval \<Rightarrow> flow_error + materialized_flow" where
  "preview_document document = ebind (parse_flow document) preview"

section \<open>The execution contract\<close>

datatype contract_error =
    Contract string     \<comment> \<open>FlowExecutionContractError\<close>
  | ContractUnhashable  \<comment> \<open>TypeError: a list or dict in a set\<close>

record validated_flow =
  vf_flow :: string
  vf_project :: string
  vf_missions :: "string list"

definition contract_fields :: "string list" where
  "contract_fields = [''mission_id'', ''request_id'', ''project_id'', ''plan_id'', ''step_id'',
     ''task_type'', ''provider_id'', ''status'', ''priority'', ''dependencies'', ''max_retries'',
     ''payload'', ''metadata'']"

definition contract_string :: "pyval \<Rightarrow> string \<Rightarrow> contract_error + string" where
  "contract_string v field = (case v of
       PStr s \<Rightarrow> (if strip s = [] then Inl (Contract (field @ '' is required'')) else Inr (strip s))
     | _ \<Rightarrow> Inl (Contract (field @ '' must be a string'')))"

definition mission_string :: "pyval dict \<Rightarrow> string \<Rightarrow> contract_error + string" where
  "mission_string m field = contract_string (dget m field) field"

text \<open>What two values have in common when a set keeps one of them: \<open>True\<close> equals 1.\<close>

definition set_key :: "pyval \<Rightarrow> pyval" where
  "set_key v = (case v of PBool b \<Rightarrow> PInt (if b then 1 else 0) | _ \<Rightarrow> v)"

definition contract_dependency ::
    "string \<Rightarrow> string set \<Rightarrow> string set \<Rightarrow> pyval \<Rightarrow> contract_error + unit" where
  "contract_dependency mid ids seen v = (case v of
       PStr d \<Rightarrow>
         (if strip d = [] then Inl (Contract ''dependency must be a non-empty string'')
          else if d = mid then Inl (Contract ''mission cannot depend on itself'')
          else if d \<notin> ids then Inl (Contract ''dependency is outside the materialized flow'')
          else if d \<notin> seen then Inl (Contract ''mission batch is not topologically ordered'')
          else Inr ())
     | _ \<Rightarrow> Inl (Contract ''dependency must be a non-empty string''))"

definition contract_keys :: "pyval dict \<Rightarrow> contract_error + unit" where
  "contract_keys m =
     (let missing = filter (\<lambda>k. k \<notin> fst ` set m) contract_fields;
          unknown = filter (\<lambda>k. k \<notin> set contract_fields) (map fst m) in
      if missing \<noteq> []
        then Inl (Contract (''missing mission fields: '' @ join_with '', '' (sort missing)))
      else if unknown \<noteq> []
        then Inl (Contract (''unknown mission fields: '' @ join_with '', '' (sort unknown)))
      else Inr ())"

definition contract_dependencies ::
    "string \<Rightarrow> string set \<Rightarrow> string set \<Rightarrow> pyval \<Rightarrow> contract_error + unit" where
  "contract_dependencies mid ids seen v = (case v of
       PList deps \<Rightarrow>
         (if list_ex (\<lambda>d. is_list d \<or> is_dict d) deps then Inl ContractUnhashable
          else if \<not> distinct (map set_key deps) then Inl (Contract ''dependencies must be unique'')
          else ebind (emap (contract_dependency mid ids seen) deps) (\<lambda>_. Inr ()))
     | _ \<Rightarrow> Inl (Contract ''dependencies must be a list''))"

definition contract_metadata :: "string \<Rightarrow> pyval \<Rightarrow> contract_error + unit" where
  "contract_metadata flow v = (case v of
       PDict d \<Rightarrow>
         (if dget d ''source'' \<noteq> PStr ''flowspec_v1''
            then Inl (Contract ''invalid FlowSpec source provenance'')
          else if dget d ''flow_id'' \<noteq> PStr flow then Inl (Contract ''metadata flow_id mismatch'')
          else if dget d ''schema_version'' \<noteq> PStr flow_version
            then Inl (Contract ''metadata schema_version mismatch'')
          else Inr ())
     | _ \<Rightarrow> Inl (Contract ''metadata must be an object''))"

definition contract_mission ::
    "string \<Rightarrow> string \<Rightarrow> string set \<Rightarrow> string set \<Rightarrow> pyval dict \<Rightarrow> contract_error + unit" where
  "contract_mission flow project ids seen m =
     ebind (contract_keys m) (\<lambda>_.
     ebind (mission_string m ''mission_id'') (\<lambda>mid.
     ebind (mission_string m ''request_id'') (\<lambda>rid.
     if rid \<noteq> mid then Inl (Contract ''request_id must equal mission_id'')
     else ebind (mission_string m ''project_id'') (\<lambda>p.
     if p \<noteq> project then Inl (Contract ''mission project_id mismatch'')
     else ebind (mission_string m ''plan_id'') (\<lambda>plan.
     if plan \<noteq> flow then Inl (Contract ''mission plan_id mismatch'')
     else ebind (mission_string m ''step_id'') (\<lambda>_.
     ebind (mission_string m ''task_type'') (\<lambda>_.
     ebind (mission_string m ''provider_id'') (\<lambda>provider.
     if provider \<noteq> ''native'' then Inl (Contract ''FlowSpec missions must use provider_id=native'')
     else ebind (mission_string m ''status'') (\<lambda>status.
     if status \<noteq> ''pending''
     then Inl (Contract ''FlowSpec preview mission status must be pending'')
     else (case dget m ''priority'' of
        PInt _ \<Rightarrow>
          (case dget m ''max_retries'' of
             PInt n \<Rightarrow>
               if n < 0 then Inl (Contract ''max_retries must be non-negative'')
               else ebind (contract_dependencies mid ids seen (dget m ''dependencies'')) (\<lambda>_.
                 if \<not> is_dict (dget m ''payload'') then Inl (Contract ''payload must be an object'')
                 else contract_metadata flow (dget m ''metadata''))
           | _ \<Rightarrow> Inl (Contract ''max_retries must be an integer''))
      | _ \<Rightarrow> Inl (Contract ''mission priority must be an integer'')))))))))))"

text \<open>The missions one after another; \<open>seen\<close> holds the identifiers of those before.\<close>

fun contract_missions ::
    "string \<Rightarrow> string \<Rightarrow> string set \<Rightarrow> string set \<Rightarrow> pyval dict list \<Rightarrow> contract_error + unit" where
  "contract_missions flow project ids seen [] = Inr ()"
| "contract_missions flow project ids seen (m # ms) =
     ebind (contract_mission flow project ids seen m) (\<lambda>_.
     contract_missions flow project ids (insert (py_str (dget m ''mission_id'')) seen) ms)"

definition mission_entry :: "pyval \<Rightarrow> contract_error + (pyval dict \<times> string)" where
  "mission_entry v = (case v of
       PDict m \<Rightarrow> ebind (mission_string m ''mission_id'') (\<lambda>i. Inr (m, i))
     | _ \<Rightarrow> Inl (Contract ''every mission must be an object''))"

definition validate_execution :: "materialized_flow \<Rightarrow> contract_error + validated_flow" where
  "validate_execution mf =
     ebind (contract_string (PStr (mf_flow mf)) ''flow_id'') (\<lambda>flow.
     ebind (contract_string (PStr (mf_project mf)) ''project_id'') (\<lambda>project.
     if mf_missions mf = [] then Inl (Contract ''missions must not be empty'')
     else ebind (emap mission_entry (mf_missions mf)) (\<lambda>entries.
     let ids = map snd entries in
     if \<not> distinct ids then Inl (Contract ''mission_id values must be unique'')
     else ebind (contract_missions flow project (set ids) {} (map fst entries)) (\<lambda>_.
     Inr \<lparr>vf_flow = flow, vf_project = project, vf_missions = ids\<rparr>))))"

section \<open>Batches in order\<close>

text \<open>What materialization relies on of the order: it only rearranges the steps, with every step
  behind its dependencies.\<close>

locale step_orderer =
  fixes order :: "flow_step list \<Rightarrow> 'e + flow_step list"
  assumes arranges: "valid_steps steps \<Longrightarrow> order steps = Inr ys \<Longrightarrow> arrangement steps ys"
begin

lemma same_steps: "valid_steps steps \<Longrightarrow> order steps = Inr ys \<Longrightarrow> set ys = set steps"
  using arranges by (auto simp: arrangement_def dest: mset_eq_setD)

lemma distinct_ids: "valid_steps steps \<Longrightarrow> order steps = Inr ys \<Longrightarrow> distinct (map fs_id ys)"
  using arranges arrangement_ids(1) by blast

lemma behind: "valid_steps steps \<Longrightarrow> order steps = Inr ys \<Longrightarrow> deps_first {} ys"
  using arranges by (auto simp: arrangement_def)

end

interpretation flow: step_orderer order_steps
  by unfold_locales (rule order_steps_Inr(1))

lemma hex_digit_solid: "d < 16 \<Longrightarrow> \<not> py_space (hex_digit d)"
  by (auto simp: hex_digit_def py_space_def Let_def)

lemma sha256_hex_solid: "c \<in> set (sha256_hex s) \<Longrightarrow> \<not> py_space c"
proof -
  assume "c \<in> set (sha256_hex s)"
  then obtain b :: "8 word" where "c \<in> set (hex2 (unat b))" by (auto simp: sha256_hex_def)
  moreover have b: "unat b < 256" using unsigned_less [of b] by simp
  moreover have "unat b div 16 < 16" using b by (simp add: less_mult_imp_div_less)
  ultimately show ?thesis using hex_digit_solid [of "unat b div 16"] hex_digit_solid [of "unat b mod 16"]
    by (auto simp: hex2_def)
qed

lemma mission_id_solid [simp]: "strip (mission_id f s) = mission_id f s" "mission_id f s \<noteq> []"
proof -
  have "list_all (\<lambda>c. \<not> py_space c) ''flow-''" by code_simp
  moreover have "\<forall>c \<in> set (take n (sha256_hex x)). \<not> py_space c" for n x
    using sha256_hex_solid in_set_takeD by metis
  ultimately show "strip (mission_id f s) = mission_id f s"
    unfolding mission_id_def by (intro strip_solid) (auto simp: list_all_iff)
  show "mission_id f s \<noteq> []" by (simp add: mission_id_def)
qed

lemma strip_words: "strip ''native'' = ''native''" "strip ''pending'' = ''pending''"
  by code_simp+

lemma contract_keys_preview: "contract_keys (preview_mission f s) = Inr ()"
  by (simp add: contract_keys_def preview_mission_def contract_fields_def)

lemma contract_mission_preview:
  assumes g: "good_flow f" and s: "good_step s"
    and ids: "set (fs_deps s) \<subseteq> A" "fs_id s \<in> A" "inj_on (mission_id (fl_id f)) A"
    and seen: "mission_id (fl_id f) ` set (fs_deps s) \<subseteq> seen"
  shows "contract_mission (fl_id f) (fl_project f) (mission_id (fl_id f) ` A) seen (preview_mission f s) = Inr ()"
proof -
  let ?M = "mission_id (fl_id f)" and ?m = "preview_mission f s"
  have names: "good_name (fl_id f)" "good_name (fl_project f)" "good_name (fs_id s)" "good_name (fs_task s)"
    using g s by (simp_all add: good_flow_def good_step_def)
  have str: "mission_string ?m ''mission_id'' = Inr (?M (fs_id s))"
    "mission_string ?m ''request_id'' = Inr (?M (fs_id s))"
    "mission_string ?m ''project_id'' = Inr (fl_project f)"
    "mission_string ?m ''plan_id'' = Inr (fl_id f)"
    "mission_string ?m ''step_id'' = Inr (fs_id s)"
    "mission_string ?m ''task_type'' = Inr (fs_task s)"
    "mission_string ?m ''provider_id'' = Inr ''native''"
    "mission_string ?m ''status'' = Inr ''pending''"
    using names by (simp_all add: mission_string_def contract_string_def preview_mission_def good_name_def strip_words)
  have dep: "contract_dependency (?M (fs_id s)) (?M ` A) seen (PStr (?M d)) = Inr ()" if "d \<in> set (fs_deps s)" for d
  proof -
    have "d \<in> A" "d \<noteq> fs_id s" "?M d \<in> seen" using that ids(1) seen s by (auto simp: good_step_def)
    moreover have "?M d \<noteq> ?M (fs_id s)" using ids(2,3) calculation(1,2) by (auto dest: inj_onD)
    ultimately show ?thesis by (simp add: contract_dependency_def)
  qed
  have inj: "inj_on ?M (set (fs_deps s))" using ids(1,3) by (rule inj_on_subset [rotated])
  have deps: "contract_dependencies (?M (fs_id s)) (?M ` A) seen (dget ?m ''dependencies'') = Inr ()"
  proof -
    have "emap (contract_dependency (?M (fs_id s)) (?M ` A) seen) (map (\<lambda>d. PStr (?M d)) (fs_deps s)) =
        Inr (map (\<lambda>_. ()) (map (\<lambda>d. PStr (?M d)) (fs_deps s)))"
      by (rule emap_all_ok) (use dep in auto)
    moreover have "distinct (map set_key (map (\<lambda>d. PStr (?M d)) (fs_deps s)))"
      using s inj by (simp add: set_key_def comp_def distinct_map good_step_def inj_on_def)
    ultimately show ?thesis
      by (simp add: contract_dependencies_def preview_mission_def list_ex_iff)
  qed
  have meta: "contract_metadata (fl_id f) (dget ?m ''metadata'') = Inr ()"
    using g by (simp add: contract_metadata_def preview_mission_def good_flow_def)
  have rest: "dget ?m ''priority'' = PInt 100" "dget ?m ''max_retries'' = PInt 0"
    "dget ?m ''payload'' = PDict (fs_payload s)" by (simp_all add: preview_mission_def)
  show ?thesis by (simp add: contract_mission_def contract_keys_preview str deps meta rest)
qed

lemma contract_missions_preview:
  "good_flow f \<Longrightarrow> list_all good_step ys \<Longrightarrow> deps_first E ys \<Longrightarrow> E \<union> fs_id ` set ys \<subseteq> A \<Longrightarrow>
     inj_on (mission_id (fl_id f)) A \<Longrightarrow>
     contract_missions (fl_id f) (fl_project f) (mission_id (fl_id f) ` A) (mission_id (fl_id f) ` E)
       (map (preview_mission f) ys) = Inr ()"
proof (induction ys arbitrary: E)
  case (Cons s ys)
  have "contract_mission (fl_id f) (fl_project f) (mission_id (fl_id f) ` A) (mission_id (fl_id f) ` E)
      (preview_mission f s) = Inr ()"
    by (rule contract_mission_preview) (use Cons.prems in auto)
  moreover have "dget (preview_mission f s) ''mission_id'' = PStr (mission_id (fl_id f) (fs_id s))"
    by (simp add: preview_mission_def)
  ultimately show ?case using Cons.IH [of "insert (fs_id s) E"] Cons.prems by simp
qed simp

text \<open>C16: A flow that was read from text, with distinct digests for its steps, is materialized to a
  batch the execution contract accepts, with the mission identifiers in the order of the steps.\<close>

theorem materialized_accepted:
  assumes "parse_flow_json t = Inr f"
    and "inj_on (mission_id (fl_id f)) (fs_id ` set (fl_steps f))"
  shows "\<exists>ys mf v. topological_steps f = Inr ys \<and> preview f = Inr mf \<and> validate_execution mf = Inr v \<and>
    vf_flow v = fl_id f \<and> vf_project v = fl_project f \<and>
    vf_missions v = map (mission_id (fl_id f) \<circ> fs_id) ys"
proof -
  let ?M = "mission_id (fl_id f)"
  have g: "good_flow f" by (rule parse_flow_json_good [OF assms(1)])
  then obtain ys where o: "order_steps (fl_steps f) = Inr ys" by (auto simp: good_flow_def is_ok_iff)
  have v: "valid_steps (fl_steps f)" using g by (simp add: good_flow_def)
  have same: "set ys = set (fl_steps f)" by (rule flow.same_steps [OF v o])
  have ne: "ys \<noteq> []" using same g by (auto simp: good_flow_def)
  define mf where "mf = \<lparr>mf_flow = fl_id f, mf_project = fl_project f,
    mf_missions = map (\<lambda>s. PDict (preview_mission f s)) ys\<rparr>"
  have entries: "emap mission_entry (mf_missions mf) = Inr (map (\<lambda>s. (preview_mission f s, ?M (fs_id s))) ys)"
    unfolding mf_def by (induction ys)
      (simp_all add: mission_entry_def mission_string_def contract_string_def preview_mission_def)
  have ids: "distinct (map (\<lambda>s. ?M (fs_id s)) ys)"
    using flow.distinct_ids [OF v o] assms(2) same
    by (simp add: distinct_map inj_on_def)
  have ok: "contract_missions (fl_id f) (fl_project f) (?M ` fs_id ` set ys) (?M ` {}) (map (preview_mission f) ys) = Inr ()"
    by (rule contract_missions_preview) (use g same flow.behind [OF v o] assms(2) in
      \<open>auto simp: good_flow_def list_all_iff\<close>)
  have names: "contract_string (PStr (fl_id f)) k = Inr (fl_id f)"
    "contract_string (PStr (fl_project f)) k = Inr (fl_project f)" for k
    using g by (simp_all add: contract_string_def good_flow_def good_name_def)
  have "preview f = Inr mf" by (simp add: preview_def topological_steps_def o mf_def)
  moreover have "validate_execution mf = Inr \<lparr>vf_flow = fl_id f, vf_project = fl_project f,
      vf_missions = map (?M \<circ> fs_id) ys\<rparr>"
  proof -
    have n: "mf_flow mf = fl_id f" "mf_project mf = fl_project f" "mf_missions mf \<noteq> []"
      using ne by (simp_all add: mf_def)
    show ?thesis using ok ids
      by (simp add: validate_execution_def n names entries comp_def image_image)
  qed
  ultimately show ?thesis using o by (auto simp: topological_steps_def)
qed

definition single_flow :: "pyval" where
  "single_flow = PDict [(''schema_version'', PStr ''1.0.0''), (''flow_id'', PStr ''f''),
     (''project_id'', PStr ''p''), (''steps'', PList [PDict [(''step_id'', PStr ''a''),
        (''task_type'', PStr ''run'')]])]"

lemma single_flow_json:
  "\<exists>f. parse_flow_json (json_dumps False single_flow) = Inr f \<and> fs_id ` set (fl_steps f) = {''a''}"
proof -
  have "json_loads (json_dumps False single_flow) = Some (json_sort single_flow)"
    by (rule json_loads_dumps) (simp add: single_flow_def)
  moreover have "parse_flow (json_sort single_flow) = Inr \<lparr>fl_version = ''1.0.0'', fl_id = ''f'',
      fl_project = ''p'', fl_steps = [\<lparr>fs_id = ''a'', fs_task = ''run'', fs_deps = [], fs_payload = []\<rparr>],
      fl_metadata = []\<rparr>" by code_simp
  ultimately show ?thesis by (auto simp: parse_flow_json_def single_flow_def)
qed

theorem materialized_accepted_witness:
  "\<exists>f mf v. parse_flow_json (json_dumps False single_flow) = Inr f \<and> preview f = Inr mf \<and>
     validate_execution mf = Inr v"
proof -
  obtain f where f: "parse_flow_json (json_dumps False single_flow) = Inr f"
      "fs_id ` set (fl_steps f) = {''a''}"
    using single_flow_json by blast
  have "inj_on (mission_id (fl_id f)) (fs_id ` set (fl_steps f))" by (simp add: f(2))
  then show ?thesis using materialized_accepted [OF f(1)] f(1) by blast
qed

section \<open>What acceptance means\<close>

definition batch_deps :: "pyval dict \<Rightarrow> string list option" where
  "batch_deps m = (case dget m ''dependencies'' of
       PList vs \<Rightarrow> if list_all is_str vs then Some (map py_str vs) else None
     | _ \<Rightarrow> None)"

lemma contract_dependency_Inr:
  "contract_dependency mid ids seen v = Inr u \<longleftrightarrow>
     (\<exists>d. v = PStr d \<and> strip d \<noteq> [] \<and> d \<noteq> mid \<and> d \<in> ids \<and> d \<in> seen)"
  by (auto simp: contract_dependency_def shape_simps)

lemma contract_dependencies_Inr:
  assumes "contract_dependencies mid ids seen (dget m ''dependencies'') = Inr u"
  shows "\<exists>ds. batch_deps m = Some ds \<and> distinct ds \<and> set ds \<subseteq> ids \<inter> seen"
proof -
  obtain vs where vs: "dget m ''dependencies'' = PList vs" "distinct (map set_key vs)"
      "is_ok (emap (contract_dependency mid ids seen) vs)"
    using assms by (auto simp: contract_dependencies_def shape_simps is_ok_ebind_unit)
  have each: "\<exists>d. v = PStr d \<and> d \<in> ids \<and> d \<in> seen" if "v \<in> set vs" for v
  proof -
    have "is_ok (contract_dependency mid ids seen v)" using vs(3) that by (simp add: is_ok_emap)
    then show ?thesis by (auto simp: is_ok_iff contract_dependency_Inr)
  qed
  have "distinct vs" using vs(2) by (simp add: distinct_map)
  moreover have "inj_on py_str (set vs)"
  proof (rule inj_onI)
    fix v w assume "v \<in> set vs" "w \<in> set vs" "py_str v = py_str w"
    then show "v = w" using each [of v] each [of w] by auto
  qed
  ultimately have "distinct (map py_str vs)" by (simp add: distinct_map)
  moreover have "list_all is_str vs" unfolding list_all_iff is_str_iff using each by blast
  moreover have "set (map py_str vs) \<subseteq> ids \<inter> seen"
  proof
    fix x assume "x \<in> set (map py_str vs)"
    then obtain v where "v \<in> set vs" "x = py_str v" by auto
    then show "x \<in> ids \<inter> seen" using each [of v] by auto
  qed
  ultimately show ?thesis using vs(1) by (simp add: batch_deps_def)
qed

lemma contract_mission_Inr:
  assumes "contract_mission flow project ids seen m = Inr u"
  shows "\<exists>ds. batch_deps m = Some ds \<and> distinct ds \<and> set ds \<subseteq> ids \<inter> seen"
proof -
  obtain mid u where "contract_dependencies mid ids seen (dget m ''dependencies'') = Inr u"
    using assms unfolding contract_mission_def
    by (auto simp: ebind_eq_Inr shape_simps)
  then show ?thesis by (rule contract_dependencies_Inr)
qed

lemma contract_missions_ordered:
  "contract_missions flow project ids seen ms = Inr u \<Longrightarrow> k < length ms \<Longrightarrow>
     \<exists>ds. batch_deps (ms ! k) = Some ds \<and> distinct ds \<and>
       set ds \<subseteq> ids \<inter> (seen \<union> set (map (\<lambda>m. py_str (dget m ''mission_id'')) (take k ms)))"
proof (induction ms arbitrary: seen k)
  case (Cons m ms)
  have m: "contract_mission flow project ids seen m = Inr ()"
    and ms: "contract_missions flow project ids (insert (py_str (dget m ''mission_id'')) seen) ms = Inr u"
    using Cons.prems(1) by (auto simp: ebind_eq_Inr)
  show ?case
  proof (cases k)
    case 0
    then show ?thesis using contract_mission_Inr [OF m] by simp
  next
    case (Suc j)
    then show ?thesis using Cons.IH [OF ms, of j] Cons.prems(2) by simp
  qed
qed simp

lemma mission_entries:
  assumes "emap mission_entry vs = Inr es" and "k < length es"
  shows "vs ! k = PDict (fst (es ! k)) \<and>
    (\<exists>r. dget (fst (es ! k)) ''mission_id'' = PStr r \<and> snd (es ! k) = strip r)"
proof -
  have "mission_entry (vs ! k) = Inr (es ! k)"
    using assms by (simp add: emap_Inr_iff list_all2_conv_all_nth)
  then show ?thesis
    by (cases "es ! k")
      (auto simp: mission_entry_def shape_simps ebind_eq_Inr mission_string_def contract_string_def)
qed

text \<open>C17: In a batch the contract accepts the mission identifiers are distinct and every mission
  depends only on missions before it.\<close>

theorem accepted_batch_ordered:
  assumes "validate_execution mf = Inr v"
  shows "distinct (vf_missions v) \<and> length (vf_missions v) = length (mf_missions mf) \<and>
    (\<forall>k < length (mf_missions mf). \<exists>m ds. mf_missions mf ! k = PDict m \<and> batch_deps m = Some ds \<and>
       set ds \<subseteq> set (take k (vf_missions v)))"
proof -
  obtain es flow project where e: "emap mission_entry (mf_missions mf) = Inr es"
      and v: "vf_missions v = map snd es" "distinct (map snd es)"
      and c: "contract_missions flow project (set (map snd es)) {} (map fst es) = Inr ()"
    using assms by (auto simp: validate_execution_def ebind_eq_Inr if_Inl_Inr Let_def)
  have len: "length es = length (mf_missions mf)" by (rule emap_length [OF e])
  note entry = mission_entries [OF e]
  have "\<exists>m ds. mf_missions mf ! k = PDict m \<and> batch_deps m = Some ds \<and> set ds \<subseteq> set (take k (vf_missions v))"
    if k: "k < length es" for k
  proof -
    let ?raw = "\<lambda>m. py_str (dget m ''mission_id'')"
    obtain ds where ds: "batch_deps (fst (es ! k)) = Some ds"
        "set ds \<subseteq> set (map snd es) \<inter> set (map ?raw (take k (map fst es)))"
      using contract_missions_ordered [OF c, of k] k by (auto simp: take_map)
    have "d \<in> set (take k (map snd es))" if "d \<in> set ds" for d
    proof -
      note d = that
      obtain j where j: "j < k" "d = ?raw (fst (es ! j))"
      proof -
        have "d \<in> set (take k (map (\<lambda>e. ?raw (fst e)) es))"
          using ds(2) d by (auto simp: take_map image_image)
        then show thesis using that k by (auto simp: in_set_conv_nth)
      qed
      obtain i where i: "i < length es" "d = snd (es ! i)"
      proof -
        have "d \<in> set (map snd es)" using ds(2) d by blast
        then show thesis using that by (auto simp: in_set_conv_nth)
      qed
      have "strip d = d" using entry [OF i(1)] i(2) by auto
      then have "d = snd (es ! j)" using entry [of j] j k by auto
      moreover have "map snd es ! j \<in> set (take k (map snd es))"
        using j(1) k by (auto simp: in_set_conv_nth intro!: exI [of _ j])
      ultimately show ?thesis using j(1) k by simp
    qed
    then have "set ds \<subseteq> set (take k (vf_missions v))" unfolding v(1) by blast
    then show ?thesis using entry [OF k] ds(1) by blast
  qed
  then show ?thesis using v len by simp
qed

definition demo_mission :: "string \<Rightarrow> string list \<Rightarrow> pyval" where
  "demo_mission i deps = PDict
     [(''mission_id'', PStr i), (''request_id'', PStr i), (''project_id'', PStr ''p''),
      (''plan_id'', PStr ''f''), (''step_id'', PStr i), (''task_type'', PStr ''run''),
      (''provider_id'', PStr ''native''), (''status'', PStr ''pending''), (''priority'', PInt 100),
      (''dependencies'', PList (map PStr deps)), (''max_retries'', PInt 0), (''payload'', PDict []),
      (''metadata'', PDict [(''source'', PStr ''flowspec_v1''), (''flow_id'', PStr ''f''),
         (''schema_version'', PStr ''1.0.0'')])]"

definition demo_batch :: "string list \<Rightarrow> materialized_flow" where
  "demo_batch deps = \<lparr>mf_flow = ''f'', mf_project = ''p'',
     mf_missions = [demo_mission ''a'' [], demo_mission ''b'' deps]\<rparr>"

lemma demo_batch_accepted:
  "validate_execution (demo_batch [''a'']) =
     Inr \<lparr>vf_flow = ''f'', vf_project = ''p'', vf_missions = [''a'', ''b'']\<rparr>"
  "validate_execution (demo_batch [''b'']) = Inl (Contract ''mission cannot depend on itself'')"
  by code_simp+

theorem accepted_batch_ordered_witness:
  "\<exists>v. validate_execution (demo_batch [''a'']) = Inr v \<and> distinct (vf_missions v)"
  using accepted_batch_ordered [OF demo_batch_accepted(1)] demo_batch_accepted(1) by blast

end
