(* ===== verification/CapabilityKernel.thy ===== *)
theory CapabilityKernel
  imports PyMonad PyValue
begin

text \<open>
  \<^verbatim>\<open>agent/resilience/capability_kernel.py\<close>: the registry of capability providers, the circuit
  breaker on their health, the detection of missing native capabilities and the router that
  tries providers until one answers.  What a provider does is an argument: \<open>exec\<close> gives the
  result or the text of the exception, and changes a world of its own.
\<close>

section \<open>Data\<close>

datatype provider_kind = Native | External

text \<open>Native providers come first.\<close>

instantiation provider_kind :: linorder
begin

definition less_eq_provider_kind :: "provider_kind \<Rightarrow> provider_kind \<Rightarrow> bool" where
  "less_eq_provider_kind a b \<longleftrightarrow> a = Native \<or> b = External"

definition less_provider_kind :: "provider_kind \<Rightarrow> provider_kind \<Rightarrow> bool" where
  "less_provider_kind a b \<longleftrightarrow> a = Native \<and> b = External"

instance
proof
  fix a b c :: provider_kind
  show "(a < b) = (a \<le> b \<and> \<not> b \<le> a)"
    by (cases a; cases b) (simp_all add: less_eq_provider_kind_def less_provider_kind_def)
  show "a \<le> a" by (cases a) (simp_all add: less_eq_provider_kind_def)
  show "a \<le> b \<Longrightarrow> b \<le> c \<Longrightarrow> a \<le> c" by (auto simp: less_eq_provider_kind_def)
  show "a \<le> b \<Longrightarrow> b \<le> a \<Longrightarrow> a = b" by (cases a; cases b) (auto simp: less_eq_provider_kind_def)
  show "a \<le> b \<or> b \<le> a" by (cases a; cases b) (auto simp: less_eq_provider_kind_def)
qed

end

definition kind_value :: "provider_kind \<Rightarrow> string" where
  "kind_value k = (case k of Native \<Rightarrow> ''native'' | External \<Rightarrow> ''external'')"

datatype provider_state = Healthy | Degraded | Unavailable | Isolated

record provider =
  pv_id :: string
  pv_kind :: provider_kind
  pv_capabilities :: "string list"

record health =
  hl_provider :: string
  hl_state :: provider_state
  hl_failures :: int
  hl_error :: "string option"

record registered =
  rg_provider :: provider
  rg_priority :: int
  rg_health :: health

type_synonym registry = "registered dict"

datatype kernel_error = KernelValue string | KernelKey string | KernelRuntime string

section \<open>The registry\<close>

definition register :: "provider \<Rightarrow> int \<Rightarrow> registry \<Rightarrow> kernel_error + registry" where
  "register p priority reg =
     (let pid = strip (pv_id p) in
      if pid = [] then Inl (KernelValue ''invalid_provider_id'')
      else if map_of reg pid \<noteq> None then Inl (KernelValue ''provider_already_registered'')
      else Inr (AList.update pid \<lparr>rg_provider = p, rg_priority = priority,
        rg_health = \<lparr>hl_provider = pid, hl_state = Healthy, hl_failures = 0, hl_error = None\<rparr>\<rparr> reg))"

definition get_provider :: "registry \<Rightarrow> string \<Rightarrow> kernel_error + registered" where
  "get_provider reg pid = (case map_of reg pid of
     None \<Rightarrow> Inl (KernelKey ''provider_not_found'') | Some r \<Rightarrow> Inr r)"

definition provider_health :: "registry \<Rightarrow> string \<Rightarrow> kernel_error + health" where
  "provider_health reg pid = ebind (get_provider reg pid) (\<lambda>r. Inr (rg_health r))"

definition offers :: "string \<Rightarrow> registered \<Rightarrow> bool" where
  "offers cap r \<longleftrightarrow> cap \<in> set (pv_capabilities (rg_provider r)) \<and>
     hl_state (rg_health r) \<noteq> Unavailable \<and> hl_state (rg_health r) \<noteq> Isolated"

definition routing_key :: "registered \<Rightarrow> provider_kind \<times> int \<times> string" where
  "routing_key r = (pv_kind (rg_provider r), rg_priority r, pv_id (rg_provider r))"

definition providers_for :: "registry \<Rightarrow> string \<Rightarrow> registered list" where
  "providers_for reg cap = sort_key routing_key (filter (offers cap) (map snd reg))"

section \<open>The circuit breaker\<close>

definition make_breaker :: "int \<Rightarrow> kernel_error + int" where
  "make_breaker threshold =
     (if threshold < 1 then Inl (KernelValue ''invalid_failure_threshold'') else Inr threshold)"

text \<open>The breaker changes the health object of a registered provider in place.\<close>

definition change_health :: "string \<Rightarrow> (health \<Rightarrow> health) \<Rightarrow> registry \<Rightarrow> kernel_error + registry" where
  "change_health pid f reg = ebind (get_provider reg pid) (\<lambda>r.
     Inr (AList.update pid (r\<lparr>rg_health := f (rg_health r)\<rparr>) reg))"

definition after_success :: "health \<Rightarrow> health" where
  "after_success h = (let h = h\<lparr>hl_failures := 0, hl_error := None\<rparr> in
     if hl_state h \<noteq> Isolated then h\<lparr>hl_state := Healthy\<rparr> else h)"

definition after_failure :: "int \<Rightarrow> string \<Rightarrow> health \<Rightarrow> health" where
  "after_failure threshold e h =
     (let h = h\<lparr>hl_failures := hl_failures h + 1, hl_error := Some (take 500 e)\<rparr> in
      h\<lparr>hl_state := (if hl_failures h \<ge> threshold then Isolated else Degraded)\<rparr>)"

definition after_isolation :: "string \<Rightarrow> health \<Rightarrow> health" where
  "after_isolation reason h = h\<lparr>hl_state := Isolated, hl_error := Some (take 500 reason)\<rparr>"

definition breaker_success :: "string \<Rightarrow> registry \<Rightarrow> kernel_error + registry" where
  "breaker_success pid = change_health pid after_success"

definition breaker_failure :: "int \<Rightarrow> string \<Rightarrow> string \<Rightarrow> registry \<Rightarrow> kernel_error + registry" where
  "breaker_failure threshold pid e = change_health pid (after_failure threshold e)"

definition breaker_isolate :: "string \<Rightarrow> string \<Rightarrow> registry \<Rightarrow> kernel_error + registry" where
  "breaker_isolate pid reason = change_health pid (after_isolation reason)"

section \<open>Gaps and replacement missions\<close>

record capability_gap =
  gap_capability :: string
  gap_external :: "string option"
  gap_native :: bool
  gap_reason :: string

definition detect_gap :: "registry \<Rightarrow> string \<Rightarrow> capability_gap option" where
  "detect_gap reg cap =
     (let ps = map rg_provider (providers_for reg cap) in
      if list_ex (\<lambda>p. pv_kind p = Native) ps then None
      else Some \<lparr>gap_capability = cap,
        gap_external = map_option pv_id (List.find (\<lambda>p. pv_kind p = External) ps),
        gap_native = False, gap_reason = ''native_capability_missing''\<rparr>)"

record replacement_mission =
  rm_type :: string
  rm_capability :: string
  rm_goal :: string
  rm_source :: "string option"
  rm_constraints :: "string list"

definition build_replacement :: "capability_gap \<Rightarrow> replacement_mission" where
  "build_replacement gap = \<lparr>rm_type = ''native_capability_replacement'',
     rm_capability = gap_capability gap,
     rm_goal = ''Implement a MITIGATE-native replacement for capability '' @ [CHR 0x27] @ gap_capability gap @ [CHR 0x27],
     rm_source = gap_external gap,
     rm_constraints = [''must_not_require_external_provider'', ''must_preserve_existing_core_contracts'',
       ''must_add_regression_tests'', ''must_support_safe_fallback'', ''must_be_portable_via_github'']\<rparr>"

section \<open>The router\<close>

record 'r routed =
  rt_provider :: string
  rt_kind :: string
  rt_fallback :: bool
  rt_result :: 'r

text \<open>The providers one after another.  An exception in the body, also one of the success
  recording, is recorded as a failure of the provider; the text of a \<open>KeyError\<close> is its quoted
  argument.  An exception of the failure recording escapes.\<close>

fun route :: "(provider \<Rightarrow> string \<Rightarrow> 'p \<Rightarrow> 'w \<Rightarrow> (string + 'r) \<times> 'w) \<Rightarrow> int \<Rightarrow> string \<Rightarrow> 'p \<Rightarrow>
    registered list \<Rightarrow> string list \<Rightarrow> (registry \<times> 'w, kernel_error, 'r routed) action" where
  "route exec threshold cap payload [] errors (reg, w) =
     (Inl (KernelRuntime (''capability_execution_failed: '' @ join_with '' | '' errors)), (reg, w))"
| "route exec threshold cap payload (r # rs) errors (reg, w) =
     (let p = rg_provider r; (answer, w) = exec p cap payload w;
          attempt = (case answer of
              Inl e \<Rightarrow> Inl e
            | Inr x \<Rightarrow> (case breaker_success (pv_id p) reg of
                  Inl _ \<Rightarrow> Inl (repr_str ''provider_not_found'')
                | Inr reg' \<Rightarrow> Inr (x, reg')))
      in (case attempt of
            Inr (x, reg') \<Rightarrow>
              (Inr \<lparr>rt_provider = pv_id p, rt_kind = kind_value (pv_kind p),
                 rt_fallback = (pv_kind p \<noteq> Native), rt_result = x\<rparr>, (reg', w))
          | Inl e \<Rightarrow>
              (case breaker_failure threshold (pv_id p) e reg of
                 Inl err \<Rightarrow> (Inl err, (reg, w))
               | Inr reg' \<Rightarrow> route exec threshold cap payload rs
                   (errors @ [pv_id p @ '':'' @ take 200 e]) (reg', w))))"

definition execute_capability :: "(provider \<Rightarrow> string \<Rightarrow> 'p \<Rightarrow> 'w \<Rightarrow> (string + 'r) \<times> 'w) \<Rightarrow> int \<Rightarrow>
    string \<Rightarrow> 'p \<Rightarrow> (registry \<times> 'w, kernel_error, 'r routed) action" where
  "execute_capability exec threshold cap payload s =
     (case providers_for (fst s) cap of
        [] \<Rightarrow> (Inl (KernelRuntime ''capability_unavailable''), s)
      | ps \<Rightarrow> route exec threshold cap payload ps [] s)"

end
