(* ===== verification/CapabilityRouting.thy ===== *)
theory CapabilityRouting
  imports CapabilityKernel "HOL-Library.Multiset"
begin

text \<open>
  What the capability kernel guarantees: an invariant of the registry over all its operations,
  native providers before external ones, and isolated providers out of the way.
\<close>

section \<open>The registry over time\<close>

inductive kernel_step :: "int \<Rightarrow> registry \<Rightarrow> registry \<Rightarrow> bool" for threshold where
  registers: "register p priority reg = Inr reg' \<Longrightarrow> kernel_step threshold reg reg'"
| succeeds: "breaker_success pid reg = Inr reg' \<Longrightarrow> kernel_step threshold reg reg'"
| fails: "breaker_failure threshold pid e reg = Inr reg' \<Longrightarrow> kernel_step threshold reg reg'"
| isolates: "breaker_isolate pid reason reg = Inr reg' \<Longrightarrow> kernel_step threshold reg reg'"

definition health_ok :: "int \<Rightarrow> health \<Rightarrow> bool" where
  "health_ok threshold h \<longleftrightarrow> (case hl_state h of
       Healthy \<Rightarrow> hl_failures h = 0 \<and> hl_error h = None
     | Degraded \<Rightarrow> 0 < hl_failures h \<and> hl_failures h < threshold \<and> hl_error h \<noteq> None
     | Isolated \<Rightarrow> 0 \<le> hl_failures h
     | Unavailable \<Rightarrow> False)"

definition registered_ok :: "int \<Rightarrow> string \<Rightarrow> registered \<Rightarrow> bool" where
  "registered_ok threshold pid r \<longleftrightarrow> pid \<noteq> [] \<and> strip (pv_id (rg_provider r)) = pid \<and>
     hl_provider (rg_health r) = pid \<and> health_ok threshold (rg_health r)"

definition registry_ok :: "int \<Rightarrow> registry \<Rightarrow> bool" where
  "registry_ok threshold reg \<longleftrightarrow> distinct (map fst reg) \<and>
     (\<forall>pid r. map_of reg pid = Some r \<longrightarrow> registered_ok threshold pid r)"

lemma registry_ok_update:
  "registry_ok threshold reg \<Longrightarrow> registered_ok threshold pid r \<Longrightarrow> registry_ok threshold (AList.update pid r reg)"
  by (simp add: registry_ok_def del: map_of_eq_Some_iff)

lemma change_health_Inr:
  "change_health pid f reg = Inr reg' \<longleftrightarrow>
     (\<exists>r. map_of reg pid = Some r \<and> reg' = AList.update pid (r\<lparr>rg_health := f (rg_health r)\<rparr>) reg)"
  by (auto simp: change_health_def get_provider_def err_simps split: option.splits)

lemma change_health_ok:
  assumes "registry_ok threshold reg" and "change_health pid f reg = Inr reg'"
    and "\<And>h. health_ok threshold h \<Longrightarrow> health_ok threshold (f h) \<and> hl_provider (f h) = hl_provider h"
  shows "registry_ok threshold reg'"
proof -
  obtain r where r: "map_of reg pid = Some r" "reg' = AList.update pid (r\<lparr>rg_health := f (rg_health r)\<rparr>) reg"
    using assms(2) by (auto simp: change_health_Inr)
  then have "registered_ok threshold pid r" using assms(1) by (simp add: registry_ok_def)
  then have "registered_ok threshold pid (r\<lparr>rg_health := f (rg_health r)\<rparr>)"
    using assms(3) by (simp add: registered_ok_def)
  then show ?thesis using registry_ok_update [OF assms(1)] r(2) by simp
qed

lemma after_ok:
  assumes "health_ok threshold h"
  shows "health_ok threshold (after_success h) \<and> hl_provider (after_success h) = hl_provider h"
    and "health_ok threshold (after_failure threshold e h) \<and> hl_provider (after_failure threshold e h) = hl_provider h"
    and "health_ok threshold (after_isolation e h) \<and> hl_provider (after_isolation e h) = hl_provider h"
proof -
  have "0 \<le> hl_failures h" using assms by (auto simp: health_ok_def split: provider_state.splits)
  with assms show "health_ok threshold (after_success h) \<and> hl_provider (after_success h) = hl_provider h"
    "health_ok threshold (after_failure threshold e h) \<and> hl_provider (after_failure threshold e h) = hl_provider h"
    "health_ok threshold (after_isolation e h) \<and> hl_provider (after_isolation e h) = hl_provider h"
    by (auto simp: health_ok_def after_success_def after_failure_def after_isolation_def Let_def
        split: provider_state.splits)
qed

lemma kernel_step_ok: "kernel_step threshold reg reg' \<Longrightarrow> registry_ok threshold reg \<Longrightarrow> registry_ok threshold reg'"
proof (induction rule: kernel_step.induct)
  case (registers p priority reg reg')
  then show ?case
    by (auto simp: register_def Let_def registered_ok_def health_ok_def split: if_splits
        intro!: registry_ok_update)
next
  case (succeeds pid reg reg')
  then show ?case using change_health_ok after_ok(1) by (metis breaker_success_def)
next
  case (fails pid e reg reg')
  then show ?case using change_health_ok after_ok(2) by (metis breaker_failure_def)
next
  case (isolates pid reason reg reg')
  then show ?case using change_health_ok after_ok(3) by (metis breaker_isolate_def)
qed

lemma registry_ok_Nil: "registry_ok threshold []"
  by (simp add: registry_ok_def)

lemma registry_reachable_ok: "(kernel_step threshold)\<^sup>*\<^sup>* [] reg \<Longrightarrow> registry_ok threshold reg"
  by (induction rule: rtranclp_induct) (auto intro: kernel_step_ok registry_ok_Nil)


definition demo_provider :: "string \<Rightarrow> provider_kind \<Rightarrow> provider" where
  "demo_provider i k = \<lparr>pv_id = i, pv_kind = k, pv_capabilities = [''deploy'']\<rparr>"

definition demo_registered :: "string \<Rightarrow> provider_kind \<Rightarrow> registered" where
  "demo_registered i k = \<lparr>rg_provider = demo_provider i k, rg_priority = 100,
     rg_health = \<lparr>hl_provider = i, hl_state = Healthy, hl_failures = 0, hl_error = None\<rparr>\<rparr>"

lemma strip_ab [simp]: "strip ''a'' = ''a''" "strip ''b'' = ''b''"
  by code_simp+

lemma demo_registry:
  "(kernel_step 2)\<^sup>*\<^sup>* [] [(''a'', demo_registered ''a'' Native), (''b'', demo_registered ''b'' External)]"
proof (rule rtranclp_trans)
  show "(kernel_step 2)\<^sup>*\<^sup>* [] [(''a'', demo_registered ''a'' Native)]"
    by (intro r_into_rtranclp registers [where p = "demo_provider ''a'' Native" and priority = 100])
      (simp add: register_def demo_provider_def demo_registered_def Let_def)
  show "(kernel_step 2)\<^sup>*\<^sup>* [(''a'', demo_registered ''a'' Native)]
      [(''a'', demo_registered ''a'' Native), (''b'', demo_registered ''b'' External)]"
    by (intro r_into_rtranclp registers [where p = "demo_provider ''b'' External" and priority = 100])
      (simp add: register_def demo_provider_def demo_registered_def Let_def)
qed


section \<open>The router\<close>

text \<open>The table of a registry whose identifiers need no stripping.\<close>

definition plain_ids :: "registry \<Rightarrow> bool" where
  "plain_ids reg \<longleftrightarrow> (\<forall>pid r. map_of reg pid = Some r \<longrightarrow> pv_id (rg_provider r) = pid)"

abbreviation id_of :: "registered \<Rightarrow> string" where
  "id_of r \<equiv> pv_id (rg_provider r)"

definition tried :: "int \<Rightarrow> registry \<Rightarrow> registry \<Rightarrow> string \<Rightarrow> bool" where
  "tried threshold reg reg' pid \<longleftrightarrow> (\<exists>r e. map_of reg pid = Some r \<and>
     map_of reg' pid = Some (r\<lparr>rg_health := after_failure threshold e (rg_health r)\<rparr>))"

definition answered :: "registry \<Rightarrow> registry \<Rightarrow> string \<Rightarrow> bool" where
  "answered reg reg' pid \<longleftrightarrow> (\<exists>r. map_of reg pid = Some r \<and>
     map_of reg' pid = Some (r\<lparr>rg_health := after_success (rg_health r)\<rparr>))"

text \<open>Providers before the one that answers have failed, and no others are touched.\<close>

lemma route_result:
  assumes "route exec threshold cap payload rs errors (reg, w) = (res, (reg', w'))"
    and "distinct (map id_of rs)" and "\<forall>r \<in> set rs. map_of reg (id_of r) \<noteq> None"
  shows "(\<exists>pre r post x. rs = pre @ r # post \<and> res = Inr x \<and> rt_provider x = id_of r \<and>
      rt_fallback x = (pv_kind (rg_provider r) = External) \<and>
      (\<forall>q \<in> set pre. tried threshold reg reg' (id_of q)) \<and> answered reg reg' (id_of r) \<and>
      (\<forall>pid. pid \<notin> id_of ` set (pre @ [r]) \<longrightarrow> map_of reg' pid = map_of reg pid)) \<or>
    ((\<exists>e. res = Inl (KernelRuntime e)) \<and> (\<forall>q \<in> set rs. tried threshold reg reg' (id_of q)) \<and>
      (\<forall>pid. pid \<notin> id_of ` set rs \<longrightarrow> map_of reg' pid = map_of reg pid))"
  using assms
proof (induction rs arbitrary: errors reg w)
  case (Cons r rs)
  obtain answer w1 where ans: "exec (rg_provider r) cap payload w = (answer, w1)" by fastforce
  obtain q where q: "map_of reg (id_of r) = Some q" using Cons.prems(3) by auto
  show ?case
  proof (cases answer)
    case (Inr x)
    have "res = Inr \<lparr>rt_provider = id_of r, rt_kind = kind_value (pv_kind (rg_provider r)),
        rt_fallback = (pv_kind (rg_provider r) \<noteq> Native), rt_result = x\<rparr>"
      "reg' = AList.update (id_of r) (q\<lparr>rg_health := after_success (rg_health q)\<rparr>) reg"
      using Cons.prems(1) Inr q ans
      by (simp_all add: breaker_success_def change_health_def get_provider_def Let_def)
    moreover have "(pv_kind (rg_provider r) \<noteq> Native) = (pv_kind (rg_provider r) = External)"
      by (cases "pv_kind (rg_provider r)") simp_all
    ultimately show ?thesis
      using q by (intro disjI1 exI [of _ "[]"] exI [of _ r] exI [of _ rs]) (auto simp: answered_def)
  next
    case (Inl e)
    let ?reg = "AList.update (id_of r) (q\<lparr>rg_health := after_failure threshold e (rg_health q)\<rparr>) reg"
    have rest: "route exec threshold cap payload rs (errors @ [id_of r @ '':'' @ take 200 e]) (?reg, w1) = (res, (reg', w'))"
      using Cons.prems(1) Inl q ans
      by (simp add: breaker_failure_def change_health_def get_provider_def Let_def)
    have fresh: "id_of r \<notin> id_of ` set rs" using Cons.prems(2) by simp
    have known: "\<forall>r \<in> set rs. map_of ?reg (id_of r) \<noteq> None" using Cons.prems(3) by simp
    have mono: "tried threshold reg reg' (id_of p)" if "p \<in> set rs" "tried threshold ?reg reg' (id_of p)" for p
    proof -
      have "id_of p \<in> id_of ` set rs" using that(1) by (rule imageI)
      then have "id_of p \<noteq> id_of r" using fresh by metis
      then show ?thesis using that(2) by (simp add: tried_def)
    qed
    have self: "tried threshold reg reg' (id_of r)" if "map_of reg' (id_of r) = map_of ?reg (id_of r)"
      using that q by (auto simp: tried_def)
    have "distinct (map id_of rs)" using Cons.prems(2) by simp
    from Cons.IH [OF rest this known] show ?thesis
    proof (elim disjE exE conjE)
      fix pre p post x
      assume s: "rs = pre @ p # post" "res = Inr x" "rt_provider x = id_of p"
        "rt_fallback x = (pv_kind (rg_provider p) = External)"
        "\<forall>q \<in> set pre. tried threshold ?reg reg' (id_of q)" "answered ?reg reg' (id_of p)"
        "\<forall>pid. pid \<notin> id_of ` set (pre @ [p]) \<longrightarrow> map_of reg' pid = map_of ?reg pid"
      have "id_of p \<in> id_of ` set rs" using s(1) by simp
      then have "id_of p \<noteq> id_of r" using fresh by metis
      then have "answered reg reg' (id_of p)" using s(6) by (simp add: answered_def)
      moreover have "\<forall>q \<in> set (r # pre). tried threshold reg reg' (id_of q)"
        using s(1,5,7) mono self fresh by auto
      moreover have "\<forall>pid. pid \<notin> id_of ` set ((r # pre) @ [p]) \<longrightarrow> map_of reg' pid = map_of reg pid"
        using s(7) by simp
      ultimately show ?thesis using s(1-4)
        by (intro disjI1 exI [of _ "r # pre"] exI [of _ p] exI [of _ post] exI [of _ x]) simp
    next
      fix e
      assume s: "res = Inl (KernelRuntime e)" "\<forall>q \<in> set rs. tried threshold ?reg reg' (id_of q)"
        "\<forall>pid. pid \<notin> id_of ` set rs \<longrightarrow> map_of reg' pid = map_of ?reg pid"
      have "\<forall>q \<in> set (r # rs). tried threshold reg reg' (id_of q)"
        using s(2,3) mono self fresh by auto
      then show ?thesis using s(1,3) by auto
    qed
  qed
qed auto

lemma providers_for_props:
  assumes "registry_ok threshold reg" and "plain_ids reg"
  shows "distinct (map id_of (providers_for reg cap))"
    and "r \<in> set (providers_for reg cap) \<longleftrightarrow> map_of reg (id_of r) = Some r \<and> offers cap r"
    and "sorted (map routing_key (providers_for reg cap))"
proof -
  have d: "distinct (map fst reg)" using assms(1) by (simp add: registry_ok_def)
  have ids: "map id_of (map snd reg) = map fst reg"
    using assms(2) d by (auto simp: plain_ids_def)
  have "distinct (map id_of (map snd reg))" unfolding ids by (rule d)
  then have "distinct (map id_of (filter (offers cap) (map snd reg)))" by (rule distinct_map_filter)
  moreover have "mset (providers_for reg cap) = mset (filter (offers cap) (map snd reg))"
    by (simp add: providers_for_def)
  then have "mset (map id_of (providers_for reg cap)) = mset (map id_of (filter (offers cap) (map snd reg)))"
    by simp
  ultimately show "distinct (map id_of (providers_for reg cap))"
    using mset_eq_imp_distinct_iff by blast
  show "r \<in> set (providers_for reg cap) \<longleftrightarrow> map_of reg (id_of r) = Some r \<and> offers cap r"
  proof -
    have "r \<in> snd ` set reg \<longleftrightarrow> map_of reg (id_of r) = Some r"
    proof
      assume "r \<in> snd ` set reg"
      then obtain pid where "map_of reg pid = Some r" using d by (auto simp: map_of_eq_Some_iff)
      moreover from this have "id_of r = pid" using assms(2) unfolding plain_ids_def by blast
      ultimately show "map_of reg (id_of r) = Some r" by simp
    next
      assume "map_of reg (id_of r) = Some r"
      from map_of_SomeD [OF this] show "r \<in> snd ` set reg" by force
    qed
    then show ?thesis by (auto simp: providers_for_def)
  qed
  show "sorted (map routing_key (providers_for reg cap))" by (simp add: providers_for_def)
qed

lemma execute_result:
  assumes "registry_ok threshold reg" and "plain_ids reg"
    and "execute_capability exec threshold cap payload (reg, w) = (res, (reg', w'))"
  shows "(\<exists>pre r post x. providers_for reg cap = pre @ r # post \<and> res = Inr x \<and>
      rt_provider x = id_of r \<and> rt_fallback x = (pv_kind (rg_provider r) = External) \<and>
      (\<forall>q \<in> set pre. tried threshold reg reg' (id_of q)) \<and> answered reg reg' (id_of r) \<and>
      (\<forall>pid. pid \<notin> id_of ` set (pre @ [r]) \<longrightarrow> map_of reg' pid = map_of reg pid)) \<or>
    ((\<exists>e. res = Inl (KernelRuntime e)) \<and>
      (\<forall>q \<in> set (providers_for reg cap). tried threshold reg reg' (id_of q)) \<and>
      (\<forall>pid. pid \<notin> id_of ` set (providers_for reg cap) \<longrightarrow> map_of reg' pid = map_of reg pid))"
proof (cases "providers_for reg cap")
  case Nil
  then show ?thesis using assms(3) by (auto simp: execute_capability_def)
next
  case (Cons p ps)
  then have "route exec threshold cap payload (providers_for reg cap) [] (reg, w) = (res, (reg', w'))"
    using assms(3) by (simp add: execute_capability_def)
  then show ?thesis
    by (rule route_result)
      (use providers_for_props [OF assms(1,2)] in \<open>auto simp del: map_of_eq_Some_iff\<close>)
qed

text \<open>C36: An external provider answers only after every usable native provider of the capability was
  tried in the same call and failed.\<close>

theorem external_only_after_native:
  assumes "registry_ok threshold reg" and "plain_ids reg"
    and "execute_capability exec threshold cap payload (reg, w) = (Inr x, (reg', w'))"
    and "rt_fallback x" and "map_of reg (id_of r) = Some r"
    and "offers cap r" and "pv_kind (rg_provider r) = Native"
  shows "tried threshold reg reg' (id_of r)"
proof -
  note props = providers_for_props [OF assms(1,2)]
  obtain pre p post where s: "providers_for reg cap = pre @ p # post"
      "pv_kind (rg_provider p) = External" "\<forall>q \<in> set pre. tried threshold reg reg' (id_of q)"
    using execute_result [OF assms(1-3)] assms(4) by auto
  have "r \<in> set (providers_for reg cap)" using props(2) assms(5,6) by blast
  moreover have "r \<notin> set (p # post)"
  proof
    assume "r \<in> set (p # post)"
    moreover have "sorted (map routing_key (p # post))"
      using props(3) [of cap] by (simp add: s(1) sorted_append)
    ultimately have "routing_key p \<le> routing_key r" by auto
    then show False using s(2) assms(7)
      by (auto simp: routing_key_def less_eq_provider_kind_def less_provider_kind_def)
  qed
  ultimately show ?thesis using s(1,3) by auto
qed

definition demo_exec :: "provider \<Rightarrow> string \<Rightarrow> unit \<Rightarrow> nat \<Rightarrow> (string + nat) \<times> nat" where
  "demo_exec p cap payload n = (if pv_kind p = Native then Inl ''down'' else Inr n, Suc n)"

definition demo_pair :: registry where
  "demo_pair = [(''b'', demo_registered ''b'' External), (''a'', demo_registered ''a'' Native)]"

lemma demo_pair_ok: "registry_ok 2 demo_pair" "plain_ids demo_pair"
  by (auto simp: registry_ok_def plain_ids_def registered_ok_def health_ok_def demo_pair_def
      demo_registered_def demo_provider_def split: if_splits)

lemma demo_providers: "providers_for demo_pair ''deploy'' =
    [demo_registered ''a'' Native, demo_registered ''b'' External]"
  by (simp add: providers_for_def demo_pair_def offers_def demo_registered_def demo_provider_def
      routing_key_def less_eq_provider_kind_def less_provider_kind_def)

lemma demo_fields [simp]:
  "rg_provider (demo_registered i k) = demo_provider i k" "pv_id (demo_provider i k) = i"
  "pv_kind (demo_provider i k) = k"
  "map_of demo_pair ''a'' = Some (demo_registered ''a'' Native)"
  "map_of demo_pair ''b'' = Some (demo_registered ''b'' External)"
  by (simp_all add: demo_registered_def demo_provider_def demo_pair_def)

lemma demo_pair_executes:
  obtains x reg' where "execute_capability demo_exec 2 ''deploy'' () (demo_pair, 0) = (Inr x, (reg', 2))"
    and "rt_fallback x"
proof -
  have "execute_capability demo_exec 2 ''deploy'' () (demo_pair, 0) = route demo_exec 2 ''deploy'' ()
      [demo_registered ''a'' Native, demo_registered ''b'' External] [] (demo_pair, 0)"
    by (simp only: execute_capability_def fst_conv demo_providers list.case)
  then show ?thesis
    using that by (simp add: Let_def demo_exec_def breaker_success_def breaker_failure_def
        change_health_def get_provider_def)
qed

theorem external_only_after_native_witness:
  "\<exists>x reg'. execute_capability demo_exec 2 ''deploy'' () (demo_pair, 0) = (Inr x, (reg', 2)) \<and>
     tried 2 demo_pair reg' ''a''"
proof -
  obtain x reg' where x: "execute_capability demo_exec 2 ''deploy'' () (demo_pair, 0) = (Inr x, (reg', 2))"
      "rt_fallback x"
    by (rule demo_pair_executes)
  have "tried 2 demo_pair reg' (id_of (demo_registered ''a'' Native))"
    by (rule external_only_after_native [OF demo_pair_ok x])
      (simp_all add: demo_pair_def demo_registered_def demo_provider_def offers_def)
  then show ?thesis using x by (auto simp: demo_registered_def demo_provider_def)
qed

text \<open>Routing a request leaves an isolated provider as it is, and it does not answer.\<close>

theorem isolated_is_left_alone:
  assumes "registry_ok threshold reg" and "plain_ids reg"
    and "execute_capability exec threshold cap payload (reg, w) = (res, (reg', w'))"
    and "map_of reg pid = Some r" and "hl_state (rg_health r) = Isolated"
  shows "map_of reg' pid = Some r \<and> (\<forall>x. res = Inr x \<longrightarrow> rt_provider x \<noteq> pid)"
proof -
  note props = providers_for_props [OF assms(1,2)]
  have out: "pid \<notin> id_of ` set (providers_for reg cap)"
  proof
    assume "pid \<in> id_of ` set (providers_for reg cap)"
    then obtain q where "map_of reg (id_of q) = Some q" "offers cap q" "id_of q = pid"
      using props(2) by blast
    then show False using assms(4,5) by (simp add: offers_def)
  qed
  from execute_result [OF assms(1-3)] show ?thesis
  proof (elim disjE exE conjE)
    fix pre p post x
    assume s: "providers_for reg cap = pre @ p # post" "res = Inr x" "rt_provider x = id_of p"
      "\<forall>pid. pid \<notin> id_of ` set (pre @ [p]) \<longrightarrow> map_of reg' pid = map_of reg pid"
    have "pid \<notin> id_of ` set (pre @ [p])" using out s(1) by auto
    moreover have "id_of p \<noteq> pid" using out s(1) by auto
    ultimately show ?thesis using s(2-4) assms(4) by simp
  next
    fix e
    assume "res = Inl (KernelRuntime e)"
      "\<forall>pid. pid \<notin> id_of ` set (providers_for reg cap) \<longrightarrow> map_of reg' pid = map_of reg pid"
    then show ?thesis using out assms(4) by simp
  qed
qed

definition isolated_demo :: registered where
  "isolated_demo = (demo_registered ''a'' Native)\<lparr>rg_health := \<lparr>hl_provider = ''a'', hl_state = Isolated,
     hl_failures = 2, hl_error = Some ''down''\<rparr>\<rparr>"

theorem isolated_is_left_alone_witness:
  "map_of (fst (snd (execute_capability demo_exec 2 ''deploy'' () ([(''a'', isolated_demo)], 0)))) ''a'' =
     Some isolated_demo"
proof -
  obtain res reg' w' where x: "execute_capability demo_exec 2 ''deploy'' () ([(''a'', isolated_demo)], 0) =
      (res, (reg', w'))" by (metis prod.collapse)
  have ok: "registry_ok 2 [(''a'', isolated_demo)]" "plain_ids [(''a'', isolated_demo)]"
    by (simp_all add: registry_ok_def registered_ok_def health_ok_def plain_ids_def isolated_demo_def)
  have "map_of reg' ''a'' = Some isolated_demo \<and> (\<forall>x. res = Inr x \<longrightarrow> rt_provider x \<noteq> ''a'')"
    by (rule isolated_is_left_alone [OF ok x]) (simp_all add: isolated_demo_def)
  then show ?thesis by (simp add: x)
qed

section \<open>Where isolation and registration fail\<close>

text \<open>C38: A provider isolated by hand is taken back into service by its next recorded failure, as long
  as the failures stay below the threshold.\<close>

theorem failure_lifts_isolation:
  assumes "map_of reg pid = Some r" and "hl_failures (rg_health r) + 1 < threshold"
    and "breaker_isolate pid reason reg = Inr reg1" and "breaker_failure threshold pid e reg1 = Inr reg2"
  shows "\<exists>r2. map_of reg2 pid = Some r2 \<and> hl_state (rg_health r2) = Degraded \<and>
    (cap \<in> set (pv_capabilities (rg_provider r)) \<longrightarrow> offers cap r2)"
  using assms
  by (auto simp: breaker_isolate_def breaker_failure_def change_health_Inr after_isolation_def
      after_failure_def Let_def offers_def)

theorem failure_lifts_isolation_witness:
  "\<exists>reg1 reg2 r2. breaker_isolate ''a'' ''unsafe'' demo_pair = Inr reg1 \<and>
     breaker_failure 3 ''a'' ''down'' reg1 = Inr reg2 \<and> map_of reg2 ''a'' = Some r2 \<and> offers ''deploy'' r2"
proof -
  obtain reg1 where 1: "breaker_isolate ''a'' ''unsafe'' demo_pair = Inr reg1"
    by (simp add: breaker_isolate_def change_health_def get_provider_def)
  then obtain reg2 where 2: "breaker_failure 3 ''a'' ''down'' reg1 = Inr reg2"
    by (auto simp: breaker_isolate_def breaker_failure_def change_health_def get_provider_def)
  have "hl_failures (rg_health (demo_registered ''a'' Native)) + 1 < 3" by (simp add: demo_registered_def)
  moreover have "''deploy'' \<in> set (pv_capabilities (rg_provider (demo_registered ''a'' Native)))"
    by (simp add: demo_provider_def)
  ultimately show ?thesis
    using failure_lifts_isolation [OF demo_fields(4) _ 1 2, of "''deploy''"] 1 2 by blast
qed



end
