(* ===== verification/CheckpointStore.thy ===== *)
theory CheckpointStore
  imports PyJson PyTime PyHash
begin

text \<open>
  \<^verbatim>\<open>agent/runtime/checkpoint_store.py\<close>: checkpoints as one JSON file for each project, execution,
  step and sequence number.  The store maps a directory (the three stripped components) and a file
  name to a text; replacing a file is atomic.  \<open>now\<close> is the time stamp of the call.
\<close>

section \<open>Data\<close>

type_synonym step_dir = "string \<times> string \<times> string"

type_synonym checkpoint_files = "((step_dir \<times> string) \<times> string) list"

datatype checkpoint_error =
    CkInvalid string  \<comment> \<open>ValueError, also of \<open>json.loads\<close>\<close>
  | CkType            \<comment> \<open>TypeError or AttributeError on a value of the wrong shape\<close>

record checkpoint =
  ck_id :: string
  ck_project :: string
  ck_execution :: string
  ck_step :: string
  ck_sequence :: pyval
  ck_state :: "pyval dict"
  ck_metadata :: "pyval dict"
  ck_created :: pyval

section \<open>Identities\<close>

definition safe_component :: "string \<Rightarrow> checkpoint_error + string" where
  "safe_component value = (let cleaned = strip value in
     if cleaned = [] then Inl (CkInvalid ''checkpoint identity component is required'')
     else if CHR ''/'' \<in> set cleaned \<or> CHR 0x5C \<in> set cleaned \<or> cleaned = ''.'' \<or> cleaned = ''..''
       then Inl (CkInvalid ''unsafe checkpoint identity component'')
     else Inr cleaned)"

definition validate_identity :: "string \<Rightarrow> string \<Rightarrow> string \<Rightarrow> checkpoint_error + unit" where
  "validate_identity project execution step =
     ebind (safe_component project) (\<lambda>_.
     ebind (safe_component execution) (\<lambda>_.
     ebind (safe_component step) (\<lambda>_. Inr ())))"

definition step_directory :: "string \<Rightarrow> string \<Rightarrow> string \<Rightarrow> checkpoint_error + step_dir" where
  "step_directory project execution step =
     ebind (validate_identity project execution step) (\<lambda>_.
     ebind (safe_component project) (\<lambda>p.
     ebind (safe_component execution) (\<lambda>e.
     ebind (safe_component step) (\<lambda>s. Inr (p, e, s)))))"

text \<open>The format \<open>020d\<close> pads to twenty characters, the sign included.\<close>

definition sequence_text :: "int \<Rightarrow> string" where
  "sequence_text n = (if n < 0 then CHR ''-'' # pad 19 (nat (- n)) else pad 20 (nat n))"

definition record_path :: "string \<Rightarrow> string \<Rightarrow> string \<Rightarrow> int \<Rightarrow> checkpoint_error + (step_dir \<times> string)" where
  "record_path project execution step n =
     ebind (step_directory project execution step) (\<lambda>d. Inr (d, sequence_text n @ ''.json''))"

definition checkpoint_id :: "string \<Rightarrow> string \<Rightarrow> string \<Rightarrow> string \<Rightarrow> string" where
  "checkpoint_id project execution step n = ''checkpoint-'' @ take 24 (sha256_hex
     (join_with ''|'' [strip project, strip execution, strip step, n]))"

section \<open>Reading a record\<close>

definition record_fields :: "string list" where
  "record_fields = [''checkpoint_id'', ''project_id'', ''execution_id'', ''step_id'', ''sequence'',
     ''state'', ''metadata'', ''created_at'']"

text \<open>\<open>set(raw)\<close> of a dictionary is its keys, of a string its characters; a list of exactly the
  eight names passes that test and fails at the first subscript.\<close>

definition record_shape :: "pyval \<Rightarrow> checkpoint_error + pyval dict" where
  "record_shape raw = (case raw of
       PDict d \<Rightarrow> (if fst ` set d = set record_fields then Inr d
                   else Inl (CkInvalid ''invalid checkpoint record shape''))
     | PStr _ \<Rightarrow> Inl (CkInvalid ''invalid checkpoint record shape'')
     | PList vs \<Rightarrow>
         (if list_ex (\<lambda>v. is_list v \<or> is_dict v) vs then Inl CkType
          else if set vs = PStr ` set record_fields then Inl CkType
          else Inl (CkInvalid ''invalid checkpoint record shape''))
     | _ \<Rightarrow> Inl CkType)"

definition text_of :: "pyval \<Rightarrow> checkpoint_error + string" where
  "text_of v = (case v of PStr s \<Rightarrow> Inr s | _ \<Rightarrow> Inl CkType)"

definition record_of :: "pyval dict \<Rightarrow> checkpoint_error + checkpoint" where
  "record_of d = (case dget d ''state'' of
       PDict st \<Rightarrow> (case dget d ''metadata'' of
           PDict md \<Rightarrow>
             ebind (text_of (dget d ''project_id'')) (\<lambda>project.
             ebind (text_of (dget d ''execution_id'')) (\<lambda>execution.
             ebind (text_of (dget d ''step_id'')) (\<lambda>step.
             let i = checkpoint_id project execution step (py_str (dget d ''sequence'')) in
             if dget d ''checkpoint_id'' \<noteq> PStr i
             then Inl (CkInvalid ''checkpoint identity mismatch'')
             else Inr \<lparr>ck_id = i, ck_project = project, ck_execution = execution, ck_step = step,
               ck_sequence = dget d ''sequence'', ck_state = st, ck_metadata = md,
               ck_created = dget d ''created_at''\<rparr>)))
         | _ \<Rightarrow> Inl (CkInvalid ''invalid checkpoint metadata''))
     | _ \<Rightarrow> Inl (CkInvalid ''invalid checkpoint state''))"

definition read_record :: "string \<Rightarrow> checkpoint_error + checkpoint" where
  "read_record text = (case json_loads text of
       None \<Rightarrow> Inl (CkInvalid ''JSONDecodeError'')
     | Some raw \<Rightarrow> ebind (record_shape raw) record_of)"

section \<open>The operations\<close>

definition record_payload ::
    "string \<Rightarrow> string \<Rightarrow> string \<Rightarrow> string \<Rightarrow> int \<Rightarrow> pyval dict \<Rightarrow> pyval dict \<Rightarrow> string \<Rightarrow> pyval dict" where
  "record_payload i project execution step n st md now =
     [(''checkpoint_id'', PStr i), (''project_id'', PStr project), (''execution_id'', PStr execution),
      (''step_id'', PStr step), (''sequence'', PInt n), (''state'', PDict st),
      (''metadata'', PDict md), (''created_at'', PStr now)]"

definition write_record :: "step_dir \<times> string \<Rightarrow> pyval dict \<Rightarrow> checkpoint_files \<Rightarrow> checkpoint_files" where
  "write_record path payload files =
     AList.update path (json_dumps False (PDict payload) @ [CHR 10]) files"

definition save_record :: "string \<Rightarrow> string \<Rightarrow> string \<Rightarrow> string \<Rightarrow> int \<Rightarrow> pyval dict \<Rightarrow> pyval dict option \<Rightarrow>
    checkpoint_files \<Rightarrow> checkpoint_error + (checkpoint \<times> checkpoint_files)" where
  "save_record now project execution step n st metadata files =
     ebind (validate_identity project execution step) (\<lambda>_.
     if n < 0 then Inl (CkInvalid ''sequence must be non-negative'')
     else
       let md = (case metadata of None \<Rightarrow> [] | Some m \<Rightarrow> m);
           i = checkpoint_id project execution step (int_str n) in
       ebind (record_path project execution step n) (\<lambda>path.
       Inr (\<lparr>ck_id = i, ck_project = project, ck_execution = execution, ck_step = step,
              ck_sequence = PInt n, ck_state = st, ck_metadata = md, ck_created = PStr now\<rparr>,
            write_record path (record_payload i project execution step n st md now) files)))"

definition load_record :: "string \<Rightarrow> string \<Rightarrow> string \<Rightarrow> int \<Rightarrow> checkpoint_files \<Rightarrow>
    checkpoint_error + checkpoint option" where
  "load_record project execution step n files =
     ebind (record_path project execution step n) (\<lambda>path.
     case map_of files path of
       None \<Rightarrow> Inr None
     | Some text \<Rightarrow> ebind (read_record text) (\<lambda>r. Inr (Some r)))"

text \<open>The files \<open>*.json\<close> of a directory whose stem is an integer.\<close>

definition sequence_of :: "string \<Rightarrow> int option" where
  "sequence_of name = (if ends_with name ''.json'' \<and> name \<noteq> ''.json''
     then parse_int (take (length name - 5) name) else None)"

definition numbered :: "step_dir \<Rightarrow> checkpoint_files \<Rightarrow> (int \<times> string) list" where
  "numbered dir files = concat (map (\<lambda>((d, name), text).
     if d = dir then (case sequence_of name of None \<Rightarrow> [] | Some n \<Rightarrow> [(n, text)]) else []) files)"

text \<open>\<open>max\<close> keeps the first of equal keys.\<close>

fun latest_of :: "(int \<times> string) list \<Rightarrow> (int \<times> string) option" where
  "latest_of [] = None"
| "latest_of (c # cs) = (case latest_of cs of
     None \<Rightarrow> Some c | Some best \<Rightarrow> if fst c < fst best then Some best else Some c)"

definition latest_record :: "string \<Rightarrow> string \<Rightarrow> string \<Rightarrow> checkpoint_files \<Rightarrow>
    checkpoint_error + checkpoint option" where
  "latest_record project execution step files =
     ebind (step_directory project execution step) (\<lambda>dir.
     case latest_of (numbered dir files) of
       None \<Rightarrow> Inr None
     | Some (n, text) \<Rightarrow> ebind (read_record text) (\<lambda>r. Inr (Some r)))"

definition list_sequences :: "string \<Rightarrow> string \<Rightarrow> string \<Rightarrow> checkpoint_files \<Rightarrow>
    checkpoint_error + int list" where
  "list_sequences project execution step files =
     ebind (step_directory project execution step) (\<lambda>dir.
     Inr (sort (remdups (map fst (numbered dir files)))))"

end
