(* ===== verification/CheckpointLog.thy ===== *)
theory CheckpointLog
  imports CheckpointStore
begin

text \<open>
  What the checkpoint store promises: a saved checkpoint is loaded again, saves under other
  identities do not touch it, and the latest checkpoint is the one with the greatest sequence
  number.
\<close>

section \<open>Stores with keys\<close>

text \<open>What a client relies on: a value that was put is got under its key, and only there.\<close>

locale keyed_store =
  fixes put :: "'k \<Rightarrow> 'v \<Rightarrow> 's \<Rightarrow> 's" and get :: "'k \<Rightarrow> 's \<Rightarrow> 'w option" and view :: "'v \<Rightarrow> 'w"
    and storable :: "'v \<Rightarrow> bool"
  assumes get_put: "storable v \<Longrightarrow> get k (put k v s) = Some (view v)"
    and get_other: "k \<noteq> k' \<Longrightarrow> get k' (put k v s) = get k' s"
begin

lemma get_puts:
  "list_all (storable \<circ> snd) kvs \<Longrightarrow> get k (fold (\<lambda>(k, v). put k v) kvs s) =
     (case map_of (rev kvs) k of None \<Rightarrow> get k s | Some v \<Rightarrow> Some (view v))"
proof (induction kvs rule: rev_induct)
  case (snoc e kvs)
  obtain k' v where e: "e = (k', v)" by (cases e)
  then show ?case using snoc get_put get_other by (cases "k = k'") auto
qed simp

end

section \<open>Names of files\<close>

lemma digit_not_space: "is_digit c \<Longrightarrow> \<not> py_space c \<and> c \<noteq> CHR ''_'' \<and> c \<noteq> CHR ''-'' \<and> c \<noteq> CHR ''+''"
  by (auto simp: is_digit_def py_space_def Let_def)

lemma parse_int_digits:
  assumes "list_all is_digit ds" and "ds \<noteq> []"
  shows "parse_int ds = Some (int (nat_val ds))"
proof -
  have "strip ds = ds" by (rule strip_solid) (use assms digit_not_space in \<open>auto simp: list_all_iff\<close>)
  moreover have "split_on (CHR ''_'') ds = [ds]"
    by (rule split_on_single) (use assms digit_not_space in \<open>auto simp: list_all_iff\<close>)
  then have "parse_digits ds = Some (nat_val ds)" using assms by (simp add: parse_digits_def Let_def)
  ultimately show ?thesis using assms digit_not_space by (cases ds) (auto simp: parse_int_def)
qed

lemma pad_nonempty: "pad w n \<noteq> []"
  using nat_str_nonempty [of n] by (simp add: pad_def)

lemma sequence_of_text: "0 \<le> n \<Longrightarrow> sequence_of (sequence_text n @ ''.json'') = Some n"
  using parse_int_digits [OF pad_digits pad_nonempty, of 20 "nat n"] pad_nonempty [of 20 "nat n"]
  by (simp add: sequence_of_def sequence_text_def ends_with_def starts_with_def)

lemma sequence_text_inject: "sequence_text m = sequence_text n \<longleftrightarrow> m = n"
proof
  assume eq: "sequence_text m = sequence_text n"
  have hd: "hd (pad w k) \<noteq> CHR ''-''" for w k
    using pad_digits [of w k] pad_nonempty [of w k] digit_not_space by (cases "pad w k") auto
  have inj: "pad w j = pad w k \<Longrightarrow> j = k" for w j k using nat_val_pad by metis
  show "m = n"
  proof (cases "m < 0 \<longleftrightarrow> n < 0")
    case True
    then show ?thesis using eq inj [of 19 "nat (- m)" "nat (- n)"] inj [of 20 "nat m" "nat n"]
      by (auto simp: sequence_text_def split: if_splits)
  next
    case False
    then show ?thesis using eq hd [of 20 "nat m"] hd [of 20 "nat n"]
      by (auto simp: sequence_text_def split: if_splits) (metis list.sel(1))+
  qed
qed simp

section \<open>Saving and loading\<close>

definition storable_record :: "pyval dict \<Rightarrow> bool" where
  "storable_record payload \<longleftrightarrow> json_wf (PDict payload)"

definition put_record :: "step_dir \<times> int \<Rightarrow> pyval dict \<Rightarrow> checkpoint_files \<Rightarrow> checkpoint_files" where
  "put_record k = write_record (fst k, sequence_text (snd k) @ ''.json'')"

definition get_record :: "step_dir \<times> int \<Rightarrow> checkpoint_files \<Rightarrow> (checkpoint_error + checkpoint) option" where
  "get_record k files = map_option read_record (map_of files (fst k, sequence_text (snd k) @ ''.json''))"

definition stored_record :: "pyval dict \<Rightarrow> checkpoint_error + checkpoint" where
  "stored_record payload = ebind (record_shape (PDict (sorted_dict payload))) record_of"

interpretation records: keyed_store put_record get_record stored_record storable_record
proof unfold_locales
  fix k v and s :: checkpoint_files
  assume "storable_record v"
  then show "get_record k (put_record k v s) = Some (stored_record v)"
    using json_loads_line [of "PDict v" False]
    by (simp add: put_record_def get_record_def write_record_def read_record_def storable_record_def
        stored_record_def json_sort_PDict del: json_sort.simps(2))
next
  fix k k' :: "step_dir \<times> int" and v and s :: checkpoint_files
  assume "k \<noteq> k'"
  then show "get_record k' (put_record k v s) = get_record k' s"
    by (cases k; cases k') (auto simp: put_record_def get_record_def write_record_def sequence_text_inject)
qed

lemma stored_payload:
  "stored_record (record_payload (checkpoint_id project execution step (int_str n)) project execution step n st md now) =
     Inr \<lparr>ck_id = checkpoint_id project execution step (int_str n), ck_project = project,
       ck_execution = execution, ck_step = step, ck_sequence = PInt n, ck_state = sorted_dict st,
       ck_metadata = sorted_dict md, ck_created = PStr now\<rparr>"
  (is "stored_record ?p = _")
proof -
  have d: "distinct (map fst ?p)" by (simp add: record_payload_def)
  have "fst ` set ?p = set record_fields" by (simp add: record_payload_def record_fields_def)
  then have shape: "record_shape (PDict (sorted_dict ?p)) = Inr (sorted_dict ?p)"
    by (simp add: record_shape_def sorted_dict_keys)
  have fields: "dget (sorted_dict ?p) ''state'' = PDict (sorted_dict st)"
    "dget (sorted_dict ?p) ''metadata'' = PDict (sorted_dict md)"
    "dget (sorted_dict ?p) ''project_id'' = PStr project"
    "dget (sorted_dict ?p) ''execution_id'' = PStr execution"
    "dget (sorted_dict ?p) ''step_id'' = PStr step" "dget (sorted_dict ?p) ''sequence'' = PInt n"
    "dget (sorted_dict ?p) ''checkpoint_id'' = PStr (checkpoint_id project execution step (int_str n))"
    "dget (sorted_dict ?p) ''created_at'' = PStr now"
    unfolding sorted_dict_dget [OF d]
    by (simp_all add: record_payload_def json_sort_PDict del: json_sort.simps(2))
  have "py_str (PInt n) = int_str n" by (simp add: py_str_def)
  then show ?thesis
    by (simp add: stored_record_def shape record_of_def fields text_of_def Let_def)
qed

lemma record_path_Inr:
  "record_path project execution step n = Inr path \<longleftrightarrow>
     (\<exists>dir. step_directory project execution step = Inr dir \<and> path = (dir, sequence_text n @ ''.json''))"
  by (auto simp: record_path_def ebind_eq_Inr)

lemma save_record_Inr:
  "save_record now project execution step n st metadata files = Inr (rec, files') \<longleftrightarrow>
     0 \<le> n \<and> (\<exists>dir. step_directory project execution step = Inr dir \<and>
       (let md = (case metadata of None \<Rightarrow> [] | Some m \<Rightarrow> m);
            i = checkpoint_id project execution step (int_str n) in
        rec = \<lparr>ck_id = i, ck_project = project, ck_execution = execution, ck_step = step,
            ck_sequence = PInt n, ck_state = st, ck_metadata = md, ck_created = PStr now\<rparr> \<and>
        files' = put_record (dir, n) (record_payload i project execution step n st md now) files))"
  by (auto simp: save_record_def ebind_eq_Inr record_path_Inr put_record_def step_directory_def Let_def
      split: if_splits)

lemma load_record_get:
  assumes "step_directory project execution step = Inr dir"
  shows "load_record project execution step n files =
    (case get_record (dir, n) files of None \<Rightarrow> Inr None | Some r \<Rightarrow> ebind r (\<lambda>r. Inr (Some r)))"
  using assms by (simp add: load_record_def record_path_def get_record_def split: option.split)

definition sorted_record :: "checkpoint \<Rightarrow> checkpoint" where
  "sorted_record r = r\<lparr>ck_state := sorted_dict (ck_state r), ck_metadata := sorted_dict (ck_metadata r)\<rparr>"

lemma saved_get:
  assumes "save_record now project execution step n st metadata files = Inr (rec, files')"
    and "json_wf (PDict st)" and "json_wf (PDict (ck_metadata rec))"
    and "step_directory project execution step = Inr dir"
  shows "get_record (dir, n) files' = Some (Inr (sorted_record rec))"
proof -
  let ?i = "checkpoint_id project execution step (int_str n)"
  let ?p = "record_payload ?i project execution step n st (ck_metadata rec) now"
  have files': "files' = put_record (dir, n) ?p files"
    and rec: "rec = \<lparr>ck_id = ?i, ck_project = project, ck_execution = execution, ck_step = step,
      ck_sequence = PInt n, ck_state = st, ck_metadata = ck_metadata rec, ck_created = PStr now\<rparr>"
    using assms(1,4) by (auto simp: save_record_Inr Let_def)
  have "storable_record ?p" using assms(2,3) by (simp add: storable_record_def record_payload_def)
  then have "get_record (dir, n) files' = Some (stored_record ?p)"
    unfolding files' by (rule records.get_put)
  moreover have "sorted_record rec = \<lparr>ck_id = ?i, ck_project = project, ck_execution = execution,
      ck_step = step, ck_sequence = PInt n, ck_state = sorted_dict st,
      ck_metadata = sorted_dict (ck_metadata rec), ck_created = PStr now\<rparr>"
    by (subst rec) (simp add: sorted_record_def)
  ultimately show ?thesis by (simp only: stored_payload)
qed

text \<open>C25: A saved checkpoint is loaded again under its identity, with the keys of its state and
  metadata in order, and saving it changes what is loaded under no other identity.\<close>

theorem saved_checkpoint_loads:
  assumes "save_record now project execution step n st metadata files = Inr (rec, files')"
    and "json_wf (PDict st)" and "json_wf (PDict (ck_metadata rec))"
  shows "load_record project execution step n files' = Inr (Some (sorted_record rec)) \<and>
    (record_path project' execution' step' n' \<noteq> record_path project execution step n \<longrightarrow>
       load_record project' execution' step' n' files' = load_record project' execution' step' n' files)"
proof
  obtain dir where dir: "step_directory project execution step = Inr dir"
    using assms(1) by (auto simp: save_record_Inr Let_def)
  show "load_record project execution step n files' = Inr (Some (sorted_record rec))"
    using saved_get [OF assms dir] by (simp add: load_record_get [OF dir])
  show "record_path project' execution' step' n' \<noteq> record_path project execution step n \<longrightarrow>
      load_record project' execution' step' n' files' = load_record project' execution' step' n' files"
  proof
    assume ne: "record_path project' execution' step' n' \<noteq> record_path project execution step n"
    show "load_record project' execution' step' n' files' = load_record project' execution' step' n' files"
    proof (cases "step_directory project' execution' step'")
      case (Inl e)
      then show ?thesis by (simp add: load_record_def record_path_def)
    next
      case (Inr dir')
      have "(dir, n) \<noteq> (dir', n')" using ne dir Inr by (auto simp: record_path_def)
      then have "get_record (dir', n') files' = get_record (dir', n') files"
        using assms(1) dir records.get_other by (auto simp: save_record_Inr Let_def)
      then show ?thesis by (simp add: load_record_get [OF Inr])
    qed
  qed
qed

section \<open>The latest checkpoint\<close>

text \<open>The files a store holds that is only written by saving.\<close>

inductive saved_files :: "checkpoint_files \<Rightarrow> bool" where
  empty: "saved_files []"
| saved: "saved_files files \<Longrightarrow>
    save_record now project execution step n st metadata files = Inr (rec, files') \<Longrightarrow> saved_files files'"

lemma saved_files_names:
  "saved_files files \<Longrightarrow> distinct (map fst files) \<and>
     (\<forall>((d, name), text) \<in> set files. \<exists>n \<ge> 0. name = sequence_text n @ ''.json'')"
proof (induction rule: saved_files.induct)
  case (saved files now project execution step n st metadata rec files')
  obtain dir payload where p: "files' = put_record (dir, n) payload files" "0 \<le> n"
    using saved.hyps(2) by (auto simp: save_record_Inr Let_def)
  define path where "path = (dir, sequence_text n @ ''.json'')"
  obtain content where f: "files' = AList.update path content files"
    using p(1) by (simp add: put_record_def write_record_def path_def)
  have "((d, name), t) \<in> set files' \<Longrightarrow> ((d, name), t) \<in> set files \<or> (d, name) = path" for d name t
    unfolding f by (induction files) (auto split: if_splits)
  then show ?case using saved.IH p(2) f by (fastforce simp: path_def)
qed simp

lemma set_numbered:
  "(n, t) \<in> set (numbered dir files) \<longleftrightarrow> (\<exists>name. ((dir, name), t) \<in> set files \<and> sequence_of name = Some n)"
proof (induction files)
  case Nil
  show ?case by (simp add: numbered_def)
next
  case (Cons f files)
  obtain d name u where f: "f = ((d, name), u)" by (metis prod.collapse)
  have "numbered dir (f # files) =
      (if d = dir then (case sequence_of name of None \<Rightarrow> [] | Some n \<Rightarrow> [(n, u)]) else []) @ numbered dir files"
    by (simp add: numbered_def f)
  then have "(n, t) \<in> set (numbered dir (f # files)) \<longleftrightarrow>
      d = dir \<and> sequence_of name = Some n \<and> u = t \<or> (n, t) \<in> set (numbered dir files)"
  proof (cases "d = dir \<and> sequence_of name = Some n")
    case True
    then show ?thesis using \<open>numbered dir (f # files) = _\<close> by (simp add: eq_commute [of u t])
  next
    case False
    then show ?thesis using \<open>numbered dir (f # files) = _\<close> 
      by (cases "d = dir"; cases "sequence_of name") simp_all
  qed
  moreover have "(\<exists>nm. ((dir, nm), t) \<in> set (f # files) \<and> sequence_of nm = Some n) \<longleftrightarrow>
      d = dir \<and> sequence_of name = Some n \<and> u = t \<or>
      (\<exists>nm. ((dir, nm), t) \<in> set files \<and> sequence_of nm = Some n)"
    unfolding f list.set by blast
  ultimately show ?case using Cons.IH by simp
qed

lemma latest_of_None: "latest_of cs = None \<longleftrightarrow> cs = []"
  by (cases cs) (auto split: option.split)

lemma latest_of_Some: "latest_of cs = Some c \<Longrightarrow> c \<in> set cs \<and> (\<forall>c' \<in> set cs. fst c' \<le> fst c)"
proof (induction cs arbitrary: c)
  case (Cons d cs)
  show ?case
  proof (cases "latest_of cs")
    case None
    then show ?thesis using Cons.prems by (simp add: latest_of_None)
  next
    case (Some best)
    then show ?thesis using Cons.prems Cons.IH [OF Some] by (fastforce split: if_splits)
  qed
qed simp

lemma last_sorted: "x \<in> set xs \<Longrightarrow> \<forall>y \<in> set xs. y \<le> x \<Longrightarrow> last (sort (remdups xs)) = (x :: int)"
proof -
  assume x: "x \<in> set xs" "\<forall>y \<in> set xs. y \<le> x"
  let ?s = "sort (remdups xs)"
  have ne: "?s \<noteq> []" using x(1) by (auto simp: sort_eq_Nil)
  have "last ?s \<in> set xs" using last_in_set [OF ne] by simp
  moreover have "x \<le> last ?s"
  proof -
    obtain i where i: "i < length ?s" "?s ! i = x" using x(1) by (metis in_set_conv_nth set_remdups set_sort)
    have "?s ! i \<le> ?s ! (length ?s - 1)"
      by (rule sorted_nth_mono) (use i in auto)
    then show ?thesis using i ne by (simp add: last_conv_nth)
  qed
  ultimately show ?thesis using x(2) by (simp add: order_antisym)
qed

text \<open>In a store written only by saving, the latest checkpoint of a step is the one loaded for the
  last of its listed sequence numbers, and there is none exactly when no number is listed.\<close>

theorem latest_is_last_listed:
  assumes "saved_files files" and "list_sequences project execution step files = Inr ns"
  shows "latest_record project execution step files =
    (if ns = [] then Inr None else load_record project execution step (last ns) files)"
proof -
  obtain dir where dir: "step_directory project execution step = Inr dir"
    and ns: "ns = sort (remdups (map fst (numbered dir files)))"
    using assms(2) by (auto simp: list_sequences_def ebind_eq_Inr)
  note names = saved_files_names [OF assms(1)]
  show ?thesis
  proof (cases "latest_of (numbered dir files)")
    case None
    then show ?thesis using ns dir by (simp add: latest_of_None latest_record_def sort_eq_Nil)
  next
    case (Some c)
    obtain n t where c: "c = (n, t)" by (cases c)
    have best: "(n, t) \<in> set (numbered dir files)" "\<forall>m \<in> set (map fst (numbered dir files)). m \<le> n"
      using latest_of_Some [OF Some] c by auto
    have "n \<in> set (map fst (numbered dir files))" using best(1) by force
    from last_sorted [OF this best(2)] have "last ns = n" by (simp only: ns)
    moreover have "ns \<noteq> []" using best(1) by (auto simp: ns sort_eq_Nil)
    moreover obtain name where name: "((dir, name), t) \<in> set files" "sequence_of name = Some n"
      using best(1) by (auto simp: set_numbered)
    obtain k where k: "k \<ge> 0" "name = sequence_text k @ ''.json''" using names name(1) by blast
    have "k = n" using sequence_of_text [OF k(1)] name(2) k(2) by simp
    then have "map_of files (dir, sequence_text n @ ''.json'') = Some t"
      using names name(1) k(2) by (simp add: map_of_eq_Some_iff)
    ultimately show ?thesis
      using Some c dir by (simp add: latest_record_def load_record_def record_path_def)
  qed
qed

definition demo_files :: checkpoint_files where
  "demo_files = (case save_record ''now'' ''p'' ''e'' ''s'' 3 [] None [] of Inr (r, files) \<Rightarrow> files)"

lemma demo_directory: "step_directory ''p'' ''e'' ''s'' = Inr (''p'', ''e'', ''s'')"
  by code_simp

lemma demo_saved:
  obtains r where "save_record ''now'' ''p'' ''e'' ''s'' 3 [] None [] = Inr (r, demo_files)"
    and "ck_metadata r = []"
proof -
  have "\<exists>r files. save_record ''now'' ''p'' ''e'' ''s'' 3 [] None [] = Inr (r, files) \<and> ck_metadata r = []"
    by (simp add: save_record_Inr demo_directory Let_def)
  then show ?thesis using that by (auto simp: demo_files_def)
qed

lemma demo_listed: "list_sequences ''p'' ''e'' ''s'' demo_files = Inr [3]"
proof -
  obtain t where t: "demo_files = [(((''p'', ''e'', ''s''), sequence_text 3 @ ''.json''), t)]"
    by (rule demo_saved) (auto simp: save_record_Inr demo_directory Let_def put_record_def write_record_def)
  show ?thesis
    unfolding list_sequences_def demo_directory numbered_def t
    using sequence_of_text [of 3] by simp
qed

theorem latest_is_last_listed_witness:
  "latest_record ''p'' ''e'' ''s'' demo_files = load_record ''p'' ''e'' ''s'' 3 demo_files"
proof -
  obtain r where "save_record ''now'' ''p'' ''e'' ''s'' 3 [] None [] = Inr (r, demo_files)"
    by (rule demo_saved)
  then have "saved_files demo_files" by (rule saved_files.saved [OF saved_files.empty])
  from latest_is_last_listed [OF this demo_listed] show ?thesis by simp
qed

theorem saved_checkpoint_loads_witness:
  "\<exists>r. load_record ''p'' ''e'' ''s'' 3 demo_files = Inr (Some (sorted_record r))"
proof -
  obtain r where r: "save_record ''now'' ''p'' ''e'' ''s'' 3 [] None [] = Inr (r, demo_files)"
      "ck_metadata r = []"
    by (rule demo_saved)
  have "json_wf (PDict (ck_metadata r))" by (simp add: r(2))
  then show ?thesis using saved_checkpoint_loads [OF r(1)] by auto
qed

end
