(* ===== verification/PyText.thy ===== *)
theory PyText
  imports PyValue "HOL-Library.Sublist"
begin

text \<open>
  Python's operations on lines and path-like text that the checks of generated work use:
  \<open>splitlines\<close>, one-sided stripping, and splitting and joining at a separator as inverse
  operations that carry prefixes of lists to prefixes of strings.
\<close>

section \<open>Lines\<close>

definition line_break :: "char \<Rightarrow> bool" where
  "line_break c = ((of_char c :: nat) \<in> {10, 11, 12, 13, 28, 29, 30, 133})"

text \<open>\<open>s.splitlines()\<close>: a carriage return and the line feed after it are one break, and a break
  at the end opens no further line.\<close>

function splitlines :: "string \<Rightarrow> string list" where
  "splitlines [] = []"
| "splitlines (c # s) =
     (if line_break c
      then [] # splitlines (if c = CHR 13 \<and> s \<noteq> [] \<and> hd s = CHR 10 then tl s else s)
      else (case splitlines s of [] \<Rightarrow> [[c]] | l # ls \<Rightarrow> (c # l) # ls))"
  by pat_completeness auto
termination
  by (relation "measure length") auto

declare splitlines.simps [simp del]

lemma splitlines_single: "\<forall>c \<in> set s. \<not> line_break c \<Longrightarrow> splitlines s = (if s = [] then [] else [s])"
  by (induction s) (auto simp: splitlines.simps)

section \<open>One-sided stripping\<close>

definition lstrip_of :: "(char \<Rightarrow> bool) \<Rightarrow> string \<Rightarrow> string" where
  "lstrip_of P s = dropWhile P s"

definition rstrip_of :: "(char \<Rightarrow> bool) \<Rightarrow> string \<Rightarrow> string" where
  "rstrip_of P s = rev (dropWhile P (rev s))"

section \<open>Splitting and joining at a separator\<close>

lemma split_on_append: "split_on c (a @ c # b) = split_on c a @ split_on c b"
  by (induction a) (auto split: list.split)

lemma join_append:
  "us \<noteq> [] \<Longrightarrow> vs \<noteq> [] \<Longrightarrow> join_with sep (us @ vs) = join_with sep us @ sep @ join_with sep vs"
proof (induction sep us rule: join_with.induct)
  case (2 sep x)
  then show ?case by (cases vs) auto
qed auto

lemma join_eq_Nil: "[] \<notin> set us \<Longrightarrow> join_with sep us = [] \<longleftrightarrow> us = []"
  by (cases "(sep, us)" rule: join_with.cases) auto

lemma join_inject:
  assumes "\<forall>u \<in> set us. c \<notin> set u" "\<forall>v \<in> set vs. c \<notin> set v" "[] \<notin> set us" "[] \<notin> set vs"
  shows "join_with [c] us = join_with [c] vs \<longleftrightarrow> us = vs"
proof
  assume eq: "join_with [c] us = join_with [c] vs"
  show "us = vs"
  proof (cases "us = [] \<or> vs = []")
    case True
    with eq assms show ?thesis by (metis join_eq_Nil)
  next
    case False
    with eq assms show ?thesis by (metis split_on_join)
  qed
qed simp

text \<open>One joined list, closed by the separator, starts another one exactly when the list is a
  strict prefix of the other.\<close>

lemma join_starts_with:
  assumes us: "us \<noteq> []" "\<forall>u \<in> set us. c \<notin> set u" and vs: "vs \<noteq> []" "\<forall>v \<in> set vs. c \<notin> set v"
  shows "starts_with (join_with [c] vs) (join_with [c] us @ [c]) \<longleftrightarrow> strict_prefix us vs"
proof
  assume "starts_with (join_with [c] vs) (join_with [c] us @ [c])"
  then obtain r where r: "join_with [c] vs = join_with [c] us @ c # r"
    by (auto simp: starts_with_iff)
  have "vs = split_on c (join_with [c] vs)" using vs by (simp add: split_on_join)
  also have "\<dots> = us @ split_on c r" using us by (simp add: r split_on_append split_on_join)
  finally show "strict_prefix us vs" by (auto simp: strict_prefix_def)
next
  assume "strict_prefix us vs"
  then obtain ws where ws: "vs = us @ ws" "ws \<noteq> []" by (auto elim: strict_prefixE')
  then have "join_with [c] vs = (join_with [c] us @ [c]) @ join_with [c] ws"
    using us by (simp add: join_append)
  then show "starts_with (join_with [c] vs) (join_with [c] us @ [c])"
    by (auto simp: starts_with_iff)
qed

end
