(* ===== verification/PyRegex.thy ===== *)
theory PyRegex
  imports PyText
begin

text \<open>
  The part of Python's \<open>re\<close> that the redaction of diagnostics uses, with its order of
  preference: a pattern maps a position to the list of its matches, the preferred one first.
  Greedy repetition tries the longest run first, an alternative is tried before the ones after
  it, and backtracking is going on in the list.  Letters match regardless of case
  (\<open>(?i)\<close>); on the characters U+0000 to U+00FF that concerns ASCII letters only.
\<close>

section \<open>Patterns\<close>

datatype rx =
    Cls "char \<Rightarrow> bool"            \<comment> \<open>one character of a class\<close>
  | Many nat "char \<Rightarrow> bool"       \<comment> \<open>at least that many characters of a class, greedily\<close>
  | Lit string                    \<comment> \<open>a word, given in lower case\<close>
  | Boundary                      \<comment> \<open>\<^verbatim>\<open>\b\<close>\<close>
  | Group nat "rx list"           \<comment> \<open>a capturing group\<close>
  | OneOf "rx list list"          \<comment> \<open>alternatives\<close>
  | Again nat                     \<comment> \<open>the text of a group once more\<close>

text \<open>A position: the text before it, reversed; the text after it; the groups captured so far.\<close>

type_synonym groups = "(nat \<times> string) list"

type_synonym position = "string \<times> string \<times> groups"

definition word_char :: "char \<Rightarrow> bool" where
  "word_char c = (let n = of_char c :: nat in
     48 \<le> n \<and> n \<le> 57 \<or> 65 \<le> n \<and> n \<le> 90 \<or> n = 95 \<or> 97 \<le> n \<and> n \<le> 122 \<or>
     n \<in> {170, 178, 179, 181, 185, 186, 188, 189, 190} \<or> 192 \<le> n \<and> n \<noteq> 215 \<and> n \<noteq> 247)"

definition at_boundary :: "string \<Rightarrow> string \<Rightarrow> bool" where
  "at_boundary before after =
     ((before \<noteq> [] \<and> word_char (hd before)) \<noteq> (after \<noteq> [] \<and> word_char (hd after)))"

text \<open>What was read between two positions.\<close>

definition between :: "string \<Rightarrow> string \<Rightarrow> string" where
  "between before before' = rev (take (length before' - length before) before')"

definition group_text :: "groups \<Rightarrow> nat \<Rightarrow> string" where
  "group_text g n = (case map_of g n of None \<Rightarrow> [] | Some t \<Rightarrow> t)"

definition starts_with_ci :: "string \<Rightarrow> string \<Rightarrow> bool" where
  "starts_with_ci s w = (lower (take (length w) s) = w)"

function run :: "rx list \<Rightarrow> position \<Rightarrow> position list" where
  "run [] pos = [pos]"
| "run (Cls p # rs) (b, r, g) =
     (case r of [] \<Rightarrow> [] | c # r' \<Rightarrow> if p c then run rs (c # b, r', g) else [])"
| "run (Many n p # rs) (b, r, g) =
     concat (map (\<lambda>k. run rs (rev (take k r) @ b, drop k r, g))
       (rev [n..<Suc (length (takeWhile p r))]))"
| "run (Lit w # rs) (b, r, g) =
     (if starts_with_ci r w then run rs (rev (take (length w) r) @ b, drop (length w) r, g) else [])"
| "run (Boundary # rs) (b, r, g) = (if at_boundary b r then run rs (b, r, g) else [])"
| "run (Group n qs # rs) (b, r, g) =
     concat (map (\<lambda>(b', r', g'). run rs (b', r', (n, between b b') # g')) (run qs (b, r, g)))"
| "run (OneOf qss # rs) pos =
     concat (map (\<lambda>qs. concat (map (run rs) (run qs pos))) qss)"
| "run (Again n # rs) (b, r, g) =
     (let w = lower (group_text g n) in
      if starts_with_ci r w then run rs (rev (take (length w) r) @ b, drop (length w) r, g) else [])"
  by pat_completeness auto
termination
proof (relation "measure (\<lambda>(rs, _). size_list size rs)", goal_cases)
  case (8 qss rs pos qs)
  then have "size_list size qs \<le> size_list (size_list size) qss"
    by (induction qss) auto
  then show ?case by simp
qed auto

declare run.simps [simp del]

section \<open>Substitution\<close>

text \<open>\<open>pattern.sub\<close>: the first match is replaced and the search goes on behind it.  The patterns
  used here all consume a character (\<open>consuming\<close>), so only such matches are looked at.\<close>

definition first_match :: "rx list \<Rightarrow> string \<Rightarrow> string \<Rightarrow> position option" where
  "first_match rs before s = find (\<lambda>(_, r, _). length r < length s) (run rs (before, s, []))"

function sub :: "rx list \<Rightarrow> (string \<Rightarrow> groups \<Rightarrow> string) \<Rightarrow> string \<Rightarrow> string \<Rightarrow> string" where
  "sub rs f before [] = []"
| "sub rs f before (c # s) = (case first_match rs before (c # s) of
       None \<Rightarrow> c # sub rs f (c # before) s
     | Some (before', s', g) \<Rightarrow> f (between before before') g @ sub rs f before' s')"
  by pat_completeness auto
termination
  by (relation "measure (\<lambda>(_, _, _, s). length s)") (auto simp: first_match_def find_Some_iff)

declare sub.simps [simp del]

definition substitute :: "rx list \<Rightarrow> (string \<Rightarrow> groups \<Rightarrow> string) \<Rightarrow> string \<Rightarrow> string" where
  "substitute rs f s = sub rs f [] s"

section \<open>Matches move forward\<close>

lemma run_position:
  "(b', r', g') \<in> set (run rs (b, r, g)) \<Longrightarrow> \<exists>m. r = m @ r' \<and> b' = rev m @ b"
proof (induction rs "(b, r, g)" arbitrary: b r g b' r' g' rule: run.induct)
  case (1 b r g)
  then show ?case by (simp add: run.simps)
next
  case (2 p rs b r g)
  then show ?case by (cases r) (fastforce simp: run.simps split: if_splits)+
next
  case (3 n p rs b r g)
  then obtain k where k: "(b', r', g') \<in> set (run rs (rev (take k r) @ b, drop k r, g))"
    and mem: "k \<in> set (rev [n..<Suc (length (takeWhile p r))])"
    by (auto simp: run.simps)
  from "3.hyps" [OF mem k] obtain m where "drop k r = m @ r'" "b' = rev m @ rev (take k r) @ b" by blast
  then have "r = (take k r @ m) @ r' \<and> b' = rev (take k r @ m) @ b"
    by (metis append.assoc append_take_drop_id rev_append)
  then show ?case by blast
next
  case (4 w rs b r g)
  then have c: "starts_with_ci r w" and m: "(b', r', g') \<in> set (run rs (rev (take (length w) r) @ b, drop (length w) r, g))"
    by (auto simp: run.simps split: if_splits)
  from "4.hyps" [OF c m] obtain m where "drop (length w) r = m @ r'" "b' = rev m @ rev (take (length w) r) @ b"
    by blast
  then have "r = (take (length w) r @ m) @ r' \<and> b' = rev (take (length w) r @ m) @ b"
    by (metis append.assoc append_take_drop_id rev_append)
  then show ?case by blast
next
  case (5 rs b r g)
  then show ?case by (auto simp: run.simps split: if_splits)
next
  case (6 n qs rs b r g)
  then obtain b1 r1 g1 where q: "(b1, r1, g1) \<in> set (run qs (b, r, g))"
    and m: "(b', r', g') \<in> set (run rs (b1, r1, (n, between b b1) # g1))"
    by (auto simp: run.simps)
  from "6.hyps"(1) [OF q] obtain m1 where "r = m1 @ r1" "b1 = rev m1 @ b" by blast
  moreover from "6.hyps"(2) [OF q _ _ m] obtain m2 where "r1 = m2 @ r'" "b' = rev m2 @ b1" by auto
  ultimately have "r = (m1 @ m2) @ r' \<and> b' = rev (m1 @ m2) @ b" by simp
  then show ?case by blast
next
  case (7 qss rs b r g)
  then obtain qs p where qs: "qs \<in> set qss" and p: "p \<in> set (run qs (b, r, g))"
    and m: "(b', r', g') \<in> set (run rs p)"
    by (auto simp: run.simps)
  obtain b1 r1 g1 where p1: "p = (b1, r1, g1)" by (cases p)
  from "7.hyps"(1) [OF qs p [unfolded p1]] obtain m1 where "r = m1 @ r1" "b1 = rev m1 @ b" by blast
  moreover from "7.hyps"(2) [OF qs p [unfolded p1] m [unfolded p1]] obtain m2 where "r1 = m2 @ r'" "b' = rev m2 @ b1" by blast
  ultimately have "r = (m1 @ m2) @ r' \<and> b' = rev (m1 @ m2) @ b" by simp
  then show ?case by blast
next
  case (8 n rs b r g)
  let ?w = "lower (group_text g n)"
  have c: "starts_with_ci r ?w" and m: "(b', r', g') \<in> set (run rs (rev (take (length ?w) r) @ b, drop (length ?w) r, g))"
    using 8 by (auto simp: run.simps Let_def split: if_splits)
  from "8.hyps" [OF refl c m] obtain m where "drop (length ?w) r = m @ r'" "b' = rev m @ rev (take (length ?w) r) @ b"
    by blast
  then have "r = (take (length ?w) r @ m) @ r' \<and> b' = rev (take (length ?w) r @ m) @ b"
    by (metis append.assoc append_take_drop_id rev_append)
  then show ?case by blast
qed

end
