(* ===== verification/RepairCoordinator.thy ===== *)
theory RepairCoordinator
  imports PyRegex PyMonad
begin

text \<open>
  \<^verbatim>\<open>agent/repair/integration.py\<close>: the coordinator of repairs.  It validates, and while validation
  fails without a block it repairs and validates again, at most three times.  The two callbacks
  are arguments: methods on a state \<open>'s\<close> of their own that may raise.
\<close>

section \<open>Redaction\<close>

definition secret_keywords :: "string list" where
  "secret_keywords = [''password'', ''token'', ''secret'', ''api_key'', ''apikey'', ''authorization'', ''bearer'']"

definition not_line_end :: "char \<Rightarrow> bool" where
  "not_line_end c = (c \<noteq> CHR 13 \<and> c \<noteq> CHR 10)"

definition separator_char :: "char \<Rightarrow> bool" where
  "separator_char c = (c = CHR '':'' \<or> c = CHR ''='')"

definition key_pattern :: "string \<Rightarrow> rx list" where
  "key_pattern key = [Group 1 [Lit key], Many 0 py_space, Cls separator_char, Many 0 py_space,
     Group 2 [Many 1 not_line_end]]"

definition redact_key :: "string \<Rightarrow> string \<Rightarrow> string" where
  "redact_key key = substitute (key_pattern key) (\<lambda>_ g. group_text g 1 @ ''=<redacted>'')"

definition token_char :: "char \<Rightarrow> bool" where
  "token_char c = (let n = of_char c :: nat in
     65 \<le> n \<and> n \<le> 90 \<or> 97 \<le> n \<and> n \<le> 122 \<or> 48 \<le> n \<and> n \<le> 57 \<or> c \<in> set ''._-+/='')"

definition token_pattern :: "rx list" where
  "token_pattern = [Boundary, Group 1 [OneOf [[Lit ''bearer''], [Lit ''token'']]], Many 1 py_space,
     Many 6 token_char, Boundary]"

definition sanitize_text :: "string \<Rightarrow> string" where
  "sanitize_text s = substitute token_pattern (\<lambda>_ g. group_text g 1 @ '' <redacted>'')
     (fold redact_key secret_keywords s)"

section \<open>Data\<close>

text \<open>A raised exception: the name of its class and its text.\<close>

type_synonym py_exception = "string \<times> string"

record validation_result =
  vr_success :: bool
  vr_category :: pyval
  vr_summary :: string
  vr_diagnostic :: "string option"
  vr_return_code :: "int option"
  vr_source :: "string option"
  vr_blocking :: pyval

definition plain_result :: "bool \<Rightarrow> string \<Rightarrow> validation_result" where
  "plain_result ok summary = \<lparr>vr_success = ok, vr_category = PNone, vr_summary = summary,
     vr_diagnostic = None, vr_return_code = None, vr_source = None, vr_blocking = PNone\<rparr>"

definition sanitized :: "validation_result \<Rightarrow> validation_result" where
  "sanitized v = v\<lparr>vr_summary := sanitize_text (vr_summary v),
     vr_diagnostic := map_option sanitize_text (vr_diagnostic v)\<rparr>"

record repair_outcome =
  rx_success :: bool
  rx_summary :: string

record repair_failure =
  rf_category :: pyval
  rf_summary :: string
  rf_diagnostic :: "string option"
  rf_return_code :: "int option"
  rf_source :: "string option"
  rf_blocking :: pyval

record repair_plan =
  rp_objective :: string
  rp_constraints :: "(string \<times> pyval) list"
  rp_allowed :: "string list"
  rp_denied :: "string list"
  rp_attempt :: int
  rp_category :: pyval
  rp_summary :: string

record integration_result =
  ir_success :: bool
  ir_state :: string
  ir_attempts :: int
  ir_plans :: "repair_plan list"
  ir_failures :: "repair_failure list"
  ir_summary :: string

text \<open>What a callback may return: the dataclass it should, or any other value.\<close>

datatype validation_value = VResult validation_result | VPlain pyval

datatype repair_value = ROutcome repair_outcome | RPlain pyval

section \<open>Reading what callbacks return\<close>

definition blocked_categories :: "string list" where
  "blocked_categories = [''protected-core-access'', ''canonical-recovery-test-access'',
     ''unavailable-core-protection'', ''repository-safety-bypass'', ''security-policy-bypass'',
     ''provider-authentication-intervention'']"

definition is_blocked_condition :: "validation_result \<Rightarrow> bool" where
  "is_blocked_condition v =
     (vr_blocking v \<in> PStr ` set blocked_categories \<or> vr_blocking v = PBool True \<or>
      vr_category v \<in> PStr ` set blocked_categories)"

definition conversion_text :: "pyval \<Rightarrow> string" where
  "conversion_text v = (case v of
       PStr s \<Rightarrow> ''invalid literal for int() with base 10: '' @ repr_str s
     | PList _ \<Rightarrow> ''int() argument must be a string, a bytes-like object or a real number, not '' @ repr_str ''list''
     | _ \<Rightarrow> ''int() argument must be a string, a bytes-like object or a real number, not '' @ repr_str ''dict'')"

definition optional_text :: "pyval \<Rightarrow> string option" where
  "optional_text v = (if v = PNone then None else Some (py_str v))"

definition validation_of_mapping :: "pyval dict \<Rightarrow> py_exception + validation_result" where
  "validation_of_mapping d =
     (let code = dget d ''return_code'' in
      ebind (if code = PNone then Inr None
             else (case py_int code of
                 Inr i \<Rightarrow> Inr (Some i)
               | Inl ConvValueError \<Rightarrow> Inl (''ValueError'', conversion_text code)
               | Inl ConvTypeError \<Rightarrow> Inl (''TypeError'', conversion_text code))) (\<lambda>rc.
      Inr (sanitized
        \<lparr>vr_success = py_truth (dget_or d ''success'' (PBool False)),
         vr_category = dget d ''category'',
         vr_summary = py_str (dget_or d ''summary'' (PStr [])),
         vr_diagnostic = optional_text (dget d ''diagnostic''),
         vr_return_code = rc,
         vr_source = optional_text (dget d ''source''),
         vr_blocking = dget d ''blocking_condition''\<rparr>)))"

definition coerce_validation :: "validation_value \<Rightarrow> py_exception + validation_result" where
  "coerce_validation v = (case v of
       VResult r \<Rightarrow> Inr (sanitized r)
     | VPlain (PBool b) \<Rightarrow> Inr (sanitized (plain_result b ''validation returned boolean''))
     | VPlain (PDict d) \<Rightarrow> validation_of_mapping d
     | VPlain _ \<Rightarrow> Inr (sanitized (plain_result False ''validation returned unsupported type'')))"

definition coerce_repair :: "repair_value \<Rightarrow> repair_outcome" where
  "coerce_repair v = (case v of
       ROutcome r \<Rightarrow> r
     | RPlain (PBool b) \<Rightarrow> \<lparr>rx_success = b, rx_summary = ''repair returned boolean''\<rparr>
     | RPlain (PDict d) \<Rightarrow> \<lparr>rx_success = py_truth (dget_or d ''success'' (PBool False)),
         rx_summary = py_str (dget_or d ''summary'' (PStr []))\<rparr>
     | RPlain _ \<Rightarrow> \<lparr>rx_success = False, rx_summary = ''repair returned unsupported type''\<rparr>)"

section \<open>Calling the callbacks\<close>

type_synonym 's validator = "('s, py_exception, validation_value) action"

type_synonym 's repairer = "repair_plan \<Rightarrow> ('s, py_exception, repair_value) action"

definition exception_result :: "string option \<Rightarrow> py_exception \<Rightarrow> validation_result" where
  "exception_result source e = sanitized
     \<lparr>vr_success = False, vr_category = PStr ''validation-exception'',
      vr_summary = ''validation raised exception'',
      vr_diagnostic = Some (let msg = sanitize_text (snd e)
        in if msg = [] then ''validation exception'' else msg),
      vr_return_code = None, vr_source = source, vr_blocking = PNone\<rparr>"

definition validate_safely :: "'s validator \<Rightarrow> string option \<Rightarrow> 's \<Rightarrow> validation_result \<times> 's" where
  "validate_safely validate source s = (case validate s of
       (Inl e, s') \<Rightarrow> (exception_result source e, s')
     | (Inr v, s') \<Rightarrow> (case coerce_validation v of
           Inl e \<Rightarrow> (exception_result source e, s')
         | Inr r \<Rightarrow> (r, s')))"

definition failure_of :: "string option \<Rightarrow> validation_result \<Rightarrow> repair_failure" where
  "failure_of source v =
     \<lparr>rf_category = vr_category v, rf_summary = vr_summary v, rf_diagnostic = vr_diagnostic v,
      rf_return_code = vr_return_code v,
      rf_source = (case vr_source v of Some (c # cs) \<Rightarrow> Some (c # cs) | _ \<Rightarrow> source),
      rf_blocking = vr_blocking v\<rparr>"

definition execution_failure :: "string \<Rightarrow> string \<Rightarrow> string option \<Rightarrow> string option \<Rightarrow> repair_failure" where
  "execution_failure category summary diagnostic source =
     \<lparr>rf_category = PStr category, rf_summary = summary, rf_diagnostic = diagnostic,
      rf_return_code = None, rf_source = source, rf_blocking = PNone\<rparr>"

text \<open>A repair leaves its records: one for an exception, one for every repair without success.\<close>

definition repair_safely ::
  "'s repairer \<Rightarrow> string option \<Rightarrow> repair_plan \<Rightarrow> 's \<Rightarrow> repair_failure list \<times> 's" where
  "repair_safely repair source plan s =
     (let (outcome, raised, s') = (case repair plan s of
            (Inr v, s1) \<Rightarrow> (coerce_repair v, [], s1)
          | (Inl e, s1) \<Rightarrow>
              (\<lparr>rx_success = False, rx_summary = ''repair raised exception: '' @ sanitize_text (snd e)\<rparr>,
               [execution_failure ''repair-execution-exception'' ''repair callback raised exception''
                  (Some (sanitize_text (snd e))) source], s1))
      in (raised @ (if rx_success outcome then []
            else [execution_failure ''repair-execution-failure''
              (if rx_summary outcome = [] then ''repair execution reported failure''
               else rx_summary outcome) None source]), s'))"

section \<open>The run\<close>

definition result_of ::
  "string \<Rightarrow> repair_plan list \<Rightarrow> repair_failure list \<Rightarrow> string \<Rightarrow> integration_result" where
  "result_of state plans failures summary =
     \<lparr>ir_success = (state = ''succeeded''), ir_state = state, ir_attempts = int (length plans),
      ir_plans = plans, ir_failures = failures, ir_summary = summary\<rparr>"

text \<open>The loop: \<open>n\<close> rounds are left, \<open>v\<close> is the last validation, a failure without a block.\<close>

fun repair_rounds ::
  "'s validator \<Rightarrow> 's repairer \<Rightarrow> string option \<Rightarrow> (int \<Rightarrow> validation_result \<Rightarrow> repair_plan) \<Rightarrow> nat \<Rightarrow>
   validation_result \<Rightarrow> repair_plan list \<Rightarrow> repair_failure list \<Rightarrow> 's \<Rightarrow> integration_result \<times> 's" where
  "repair_rounds validate repair source plan_of 0 v plans failures s =
     (result_of ''exhausted'' plans failures
        (''exhausted '' @ int_str (int (length plans)) @ '' repair attempt(s) without success''), s)"
| "repair_rounds validate repair source plan_of (Suc n) v plans failures s =
     (let plan = plan_of (int (length plans) + 1) v;
          plans' = plans @ [plan];
          (records, s1) = repair_safely repair source plan s;
          (v', s2) = validate_safely validate source s1;
          failures' = failures @ records
      in if vr_success v'
         then (result_of ''succeeded'' plans' failures'
                 (''succeeded after '' @ int_str (int (length plans')) @ '' repair attempt(s)''), s2)
         else if is_blocked_condition v'
         then (result_of ''blocked'' plans' (failures' @ [failure_of source v'])
                 ''blocked by policy or protection'', s2)
         else repair_rounds validate repair source plan_of n v' plans'
                (failures' @ [failure_of source v']) s2)"

text \<open>\<open>int(max(0, min(max_attempts, 3)))\<close>\<close>

definition coordinator_attempts :: "int \<Rightarrow> nat" where
  "coordinator_attempts max_attempts = nat (min max_attempts 3)"

definition plan_for ::
  "string \<Rightarrow> pyval dict \<Rightarrow> string list \<Rightarrow> string list \<Rightarrow> int \<Rightarrow> validation_result \<Rightarrow> repair_plan" where
  "plan_for objective constraints allowed denied attempt v =
     \<lparr>rp_objective = objective, rp_constraints = sort_key fst constraints, rp_allowed = allowed,
      rp_denied = denied, rp_attempt = attempt, rp_category = vr_category v,
      rp_summary = vr_summary v\<rparr>"

definition coordinate ::
  "int \<Rightarrow> string \<Rightarrow> string list \<Rightarrow> string list \<Rightarrow> pyval dict \<Rightarrow> 's validator \<Rightarrow> 's repairer \<Rightarrow>
   string option \<Rightarrow> 's \<Rightarrow> integration_result \<times> 's" where
  "coordinate max_attempts objective allowed denied constraints validate repair source s =
     (let (v, s1) = validate_safely validate source s in
      if vr_success v then (result_of ''succeeded'' [] [] ''initial validation succeeded'', s1)
      else if is_blocked_condition v
      then (result_of ''blocked'' [] [failure_of source v] ''blocked by policy or protection'', s1)
      else repair_rounds validate repair source (plan_for objective constraints allowed denied)
             (coordinator_attempts max_attempts) v [] [failure_of source v] s1)"

text \<open>The public method, which asks for both callbacks.\<close>

definition coordinator_run ::
  "int \<Rightarrow> string \<Rightarrow> string list \<Rightarrow> string list \<Rightarrow> pyval dict \<Rightarrow> 's validator option \<Rightarrow> 's repairer option \<Rightarrow>
   string option \<Rightarrow> ('s, string, integration_result) action" where
  "coordinator_run max_attempts objective allowed denied constraints validate repair source =
     (case validate of
        None \<Rightarrow> mraise ''validate_callback is required''
      | Some v \<Rightarrow> (case repair of
            None \<Rightarrow> mraise ''repair_callback is required''
          | Some r \<Rightarrow> (\<lambda>s. apfst Inr
              (coordinate max_attempts objective allowed denied constraints v r source s))))"

section \<open>The protocol of a run\<close>

text \<open>The calls a run makes for a list of plans: one validation, then for every plan its repair and
  another validation.  \<open>validations\<close> lists what the validations returned, \<open>after_calls\<close> is the
  state the last one leaves.\<close>

fun validations ::
  "'s validator \<Rightarrow> 's repairer \<Rightarrow> string option \<Rightarrow> repair_plan list \<Rightarrow> 's \<Rightarrow> validation_result list" where
  "validations validate repair source [] s = [fst (validate_safely validate source s)]"
| "validations validate repair source (p # ps) s =
     (let (v, s1) = validate_safely validate source s
      in v # validations validate repair source ps (snd (repair_safely repair source p s1)))"

fun after_calls ::
  "'s validator \<Rightarrow> 's repairer \<Rightarrow> string option \<Rightarrow> repair_plan list \<Rightarrow> 's \<Rightarrow> 's" where
  "after_calls validate repair source [] s = snd (validate_safely validate source s)"
| "after_calls validate repair source (p # ps) s =
     after_calls validate repair source ps
       (snd (repair_safely repair source p (snd (validate_safely validate source s))))"

definition still_failing :: "validation_result \<Rightarrow> bool" where
  "still_failing v = (\<not> vr_success v \<and> \<not> is_blocked_condition v)"

definition final_state_of :: "validation_result \<Rightarrow> string" where
  "final_state_of v = (if vr_success v then ''succeeded''
     else if is_blocked_condition v then ''blocked'' else ''exhausted'')"

lemma validations_nonempty [simp]: "validations validate repair source ps s \<noteq> []"
  by (cases ps) (auto split: prod.splits)

text \<open>What a run promises of its plans, for the calls made from state \<open>s\<close> on.\<close>

definition run_protocol ::
  "'s validator \<Rightarrow> 's repairer \<Rightarrow> string option \<Rightarrow> nat \<Rightarrow> 's \<Rightarrow> repair_plan list \<Rightarrow> string \<Rightarrow> 's \<Rightarrow> bool" where
  "run_protocol validate repair source n s plans state s' =
     (let vs = validations validate repair source plans s in
      length plans \<le> n \<and> list_all still_failing (butlast vs) \<and> state = final_state_of (last vs) \<and>
      (length plans = n \<or> vr_success (last vs) \<or> is_blocked_condition (last vs)) \<and>
      s' = after_calls validate repair source plans s)"

lemma run_protocol_step:
  assumes "validate_safely validate source s0 = (v, s1)" "still_failing v"
    and "repair_safely repair source plan s1 = (records, s2)"
    and "run_protocol validate repair source n s2 plans state s'"
  shows "run_protocol validate repair source (Suc n) s0 (plan # plans) state s'"
  using assms by (simp add: run_protocol_def Let_def)

lemma run_protocol_end:
  assumes "validate_safely validate source s = (v, s')"
    and "n = 0 \<or> \<not> still_failing v"
  shows "run_protocol validate repair source n s [] (final_state_of v) s'"
  using assms by (auto simp: run_protocol_def still_failing_def)

lemma result_of_simps [simp]:
  "ir_plans (result_of st ps fs m) = ps" "ir_state (result_of st ps fs m) = st"
  "ir_attempts (result_of st ps fs m) = int (length ps)" "ir_failures (result_of st ps fs m) = fs"
  "ir_success (result_of st ps fs m) = (st = ''succeeded'')"
  by (simp_all add: result_of_def)

text \<open>The loop, from just before the repair of its first round.\<close>

lemma repair_rounds_protocol:
  assumes num: "\<And>i w. rp_attempt (plan_of i w) = i"
    and "repair_rounds validate repair source plan_of n v plans failures s1 = (res, s')"
    and "validate_safely validate source s0 = (v, s1)" and "still_failing v"
  shows "\<exists>new. ir_plans res = plans @ new \<and>
     map rp_attempt new = map int [Suc (length plans)..<Suc (length plans + length new)] \<and>
     run_protocol validate repair source n s0 new (ir_state res) s'"
  using assms(2-4)
proof (induction n arbitrary: v plans failures s0 s1)
  case 0
  then have "run_protocol validate repair source 0 s0 [] ''exhausted'' s1"
    using run_protocol_end [of validate source s0 v s1 0 repair]
    by (simp add: final_state_of_def still_failing_def)
  with 0 show ?case by auto
next
  case (Suc n)
  define plan where "plan = plan_of (int (length plans) + 1) v"
  obtain records s2 where rep: "repair_safely repair source plan s1 = (records, s2)"
    by (cases "repair_safely repair source plan s1")
  obtain v' s3 where val: "validate_safely validate source s2 = (v', s3)"
    by (cases "validate_safely validate source s2")
  note step = run_protocol_step [OF Suc.prems(2,3) rep]
  have att: "rp_attempt plan = int (Suc (length plans))" by (simp add: plan_def num)
  show ?case
  proof (cases "still_failing v'")
    case False
    then have fin: "ir_plans res = plans @ [plan]" "ir_state res = final_state_of v'" "s' = s3"
      using Suc.prems(1) rep val
      by (auto simp: plan_def [symmetric] still_failing_def final_state_of_def Let_def split: if_splits)
    have "run_protocol validate repair source (Suc n) s0 [plan] (final_state_of v') s3"
      using False run_protocol_end [OF val] by (intro step) simp
    with fin att show ?thesis by (intro exI [of _ "[plan]"]) simp
  next
    case True
    then have "repair_rounds validate repair source plan_of n v' (plans @ [plan])
        (failures @ records @ [failure_of source v']) s3 = (res, s')"
      using Suc.prems(1) rep val by (simp add: plan_def [symmetric] still_failing_def)
    from Suc.IH [OF this val True] obtain new where
      new: "ir_plans res = plans @ [plan] @ new"
        "map rp_attempt new = map int [Suc (Suc (length plans))..<Suc (Suc (length plans) + length new)]"
        "run_protocol validate repair source n s2 new (ir_state res) s'"
      by auto
    have "map rp_attempt (plan # new) =
        map int [Suc (length plans)..<Suc (length plans + length (plan # new))]"
      using new(2) att by (simp add: upt_conv_Cons del: upt_Suc)
    with new step [OF new(3)] show ?thesis by (intro exI [of _ "plan # new"]) simp
  qed
qed

lemma coordinated:
  "case coordinate max_attempts objective allowed denied constraints validate repair source s of
     (res, s') \<Rightarrow>
       ir_attempts res = int (length (ir_plans res)) \<and>
       map rp_attempt (ir_plans res) = map int [1..<Suc (length (ir_plans res))] \<and>
       run_protocol validate repair source (nat (min max_attempts 3)) s (ir_plans res) (ir_state res) s' \<and>
       (ir_success res \<longleftrightarrow> ir_state res = ''succeeded'')"
proof -
  have counts: "ir_attempts r = int (length (ir_plans r)) \<and> (ir_success r \<longleftrightarrow> ir_state r = ''succeeded'')"
    if "repair_rounds validate repair source po n w ps fs st = (r, st')" for r po n w ps fs st st'
    using that
    by (induction validate repair source po n w ps fs st rule: repair_rounds.induct)
      (auto split: prod.splits if_splits simp: Let_def)
  obtain v s1 where val: "validate_safely validate source s = (v, s1)"
    by (cases "validate_safely validate source s")
  show ?thesis
  proof (cases "still_failing v")
    case False
    then show ?thesis
      using val run_protocol_end [OF val, of "nat (min max_attempts 3)" repair]
      by (auto simp: coordinate_def still_failing_def final_state_of_def)
  next
    case True
    let ?po = "plan_for objective constraints allowed denied"
    let ?n = "coordinator_attempts max_attempts"
    obtain res s' where run: "repair_rounds validate repair source ?po ?n v []
        [failure_of source v] s1 = (res, s')"
      by (cases "repair_rounds validate repair source ?po ?n v [] [failure_of source v] s1")
    then have c: "coordinate max_attempts objective allowed denied constraints validate repair source s = (res, s')"
      using True val by (simp add: coordinate_def still_failing_def)
    have "rp_attempt (?po i w) = i" for i w by (simp add: plan_for_def)
    from repair_rounds_protocol [OF this run val True] counts [OF run] c
    show ?thesis by (auto simp: coordinator_attempts_def)
  qed
qed

text \<open>C21: A run of the coordinator keeps its protocol for all callbacks, also for ones that raise.
  The attempts it reports are its plans, numbered from one, at most three; it has called exactly
  one validation, and for every plan the repair and one more validation, in that order; every
  validation before the last failed without a block, and the final state is what the last
  validation says, with \<open>exhausted\<close> only after all attempts.\<close>

theorem coordinator_protocol:
  "case coordinate max_attempts objective allowed denied constraints validate repair source s of
     (res, s') \<Rightarrow>
       ir_attempts res = int (length (ir_plans res)) \<and>
       map rp_attempt (ir_plans res) = map int [1..<Suc (length (ir_plans res))] \<and>
       run_protocol validate repair source (nat (min max_attempts 3)) s (ir_plans res) (ir_state res) s' \<and>
       (ir_success res \<longleftrightarrow> ir_state res = ''succeeded'')"
  by (rule coordinated)

end
