(* ===== verification/RepairAdapter.thy ===== *)
theory RepairAdapter
  imports RepairCoordinator
begin

text \<open>
  \<^verbatim>\<open>agent/repair/mission_adapter.py\<close>: the repair of a mission's output.  The adapter turns the
  callbacks of its client (validate, generate, apply; methods on a state \<open>'w\<close> that may raise)
  into the callbacks of the coordinator.  Those closures record what happened in the adapter's
  result, so they run on the pair of both.
\<close>

section \<open>Data\<close>

record repair_request =
  rr_mission :: string
  rr_attempt :: int
  rr_objective :: string
  rr_category :: string
  rr_summary :: string
  rr_allowed :: "string list"
  rr_denied :: "string list"
  rr_validation_required :: bool

type_synonym stage_report = "bool option \<times> string option"

record attempt_report =
  at_attempt :: int
  at_generation :: stage_report
  at_apply :: stage_report
  at_validation :: stage_report

record failure_report =
  fr_stage :: string
  fr_attempt :: int
  fr_message :: "string option"

record repair_log =
  lg_validations :: nat
  lg_initial :: stage_report
  lg_history :: "attempt_report list"
  lg_failures :: "failure_report list"

record adapter_result =
  ar_status :: string
  ar_attempts :: int
  ar_initial :: stage_report
  ar_history :: "attempt_report list"
  ar_failures :: "failure_report list"
  ar_blocked :: "string list"

text \<open>The arguments of \<open>run\<close> and the callbacks of the adapter; \<open>None\<close> is a missing callback.\<close>

record 'w repair_job =
  jb_mission :: string
  jb_objective :: string
  jb_category :: string
  jb_summary :: string
  jb_allowed :: "string list"
  jb_denied :: "string list"
  jb_required :: bool
  jb_blocks :: "pyval list"
  jb_validate :: "('w, py_exception, pyval) action option"
  jb_generate :: "(repair_request \<Rightarrow> ('w, py_exception, pyval) action) option"
  jb_apply :: "(pyval \<Rightarrow> ('w, py_exception, pyval) action) option"

section \<open>Redaction\<close>

definition bearer_header :: "rx list" where
  "bearer_header = [Lit ''authorization'', Many 0 py_space, Cls (\<lambda>c. c = CHR '':''), Many 0 py_space,
     Lit ''bearer'', Many 1 py_space, Group 1 [Many 1 (\<lambda>c. \<not> py_space c)]]"

definition credential_keys :: "string list" where
  "credential_keys = [''password'', ''passwd'', ''pwd'', ''secret'', ''api_key'', ''api-key'', ''token'',
     ''access_token'', ''access-token'', ''refresh_token'', ''refresh-token'', ''private_key'', ''private-key'']"

definition credential_char :: "char \<Rightarrow> bool" where
  "credential_char c = (\<not> py_space c \<and> c \<notin> {CHR 34, CHR 39, CHR '';'', CHR '','', CHR '':''})"

definition credential_pattern :: "rx list" where
  "credential_pattern = [Boundary, Group 1 [OneOf (map (\<lambda>k. [Lit k]) credential_keys)], Boundary,
     Many 0 py_space, Cls separator_char, Many 0 py_space,
     Group 2 [OneOf [[Cls (\<lambda>c. c = CHR 34)], [Cls (\<lambda>c. c = CHR 39)], []]],
     Group 3 [Many 1 credential_char], Again 2]"

definition redact_text :: "string \<Rightarrow> string" where
  "redact_text s =
     substitute credential_pattern (\<lambda>_ g. group_text g 1 @ '': [REDACTED]'')
       (substitute bearer_header (\<lambda>_ _. ''Authorization: Bearer [REDACTED]'') s)"

definition redact_optional :: "string option \<Rightarrow> string option" where
  "redact_optional t = (case t of Some (c # cs) \<Rightarrow> Some (redact_text (c # cs)) | _ \<Rightarrow> None)"

section \<open>Calling the callbacks\<close>

definition normalize_outcome :: "pyval \<Rightarrow> bool \<times> pyval" where
  "normalize_outcome v = (case v of
       PDict d \<Rightarrow> (if map_of d ''success'' \<noteq> None then (py_truth (dget d ''success''), v) else (d \<noteq> [], v))
     | PBool b \<Rightarrow> (b, v)
     | PNone \<Rightarrow> (False, PNone)
     | PList vs \<Rightarrow> (vs \<noteq> [], v)
     | _ \<Rightarrow> (True, v))"

definition stringify_exception :: "py_exception \<Rightarrow> string" where
  "stringify_exception e = (if snd e = [] then fst e else fst e @ '': '' @ snd e)"

definition call_validation ::
  "('w, py_exception, pyval) action option \<Rightarrow> 'w \<Rightarrow> (bool option \<times> string option) \<times> 'w" where
  "call_validation validate w = (case validate of
       None \<Rightarrow> ((None, None), w)
     | Some f \<Rightarrow> (case f w of
           (Inr v, w') \<Rightarrow> ((Some (fst (normalize_outcome v)), None), w')
         | (Inl e, w') \<Rightarrow> ((Some False, Some (''Validation error: '' @ stringify_exception e)), w')))"

definition call_generate ::
  "(repair_request \<Rightarrow> ('w, py_exception, pyval) action) option \<Rightarrow> repair_request \<Rightarrow> 'w \<Rightarrow>
   (bool \<times> pyval \<times> string option) \<times> 'w" where
  "call_generate generate request w = (case generate of
       None \<Rightarrow> ((False, PNone, Some ''Generation callback unavailable''), w)
     | Some f \<Rightarrow> (case f request w of
           (Inr v, w') \<Rightarrow> (case normalize_outcome v of
               (True, payload) \<Rightarrow> ((True, payload, None), w')
             | (False, _) \<Rightarrow> ((False, PNone, Some ''Repair generation failed''), w'))
         | (Inl e, w') \<Rightarrow>
             ((False, PNone, Some (''Generation exception: '' @ stringify_exception e)), w')))"

definition call_apply ::
  "(pyval \<Rightarrow> ('w, py_exception, pyval) action) option \<Rightarrow> pyval \<Rightarrow> 'w \<Rightarrow> (bool \<times> string option) \<times> 'w" where
  "call_apply apply_callback payload w = (case apply_callback of
       None \<Rightarrow> ((False, Some ''Apply callback unavailable''), w)
     | Some f \<Rightarrow> (case f payload w of
           (Inr v, w') \<Rightarrow> (if fst (normalize_outcome v) then ((True, None), w')
                          else ((False, Some ''Repair application failed''), w'))
         | (Inl e, w') \<Rightarrow> ((False, Some (''Apply exception: '' @ stringify_exception e)), w')))"

section \<open>The callbacks given to the coordinator\<close>

definition policy_blocks :: "string list" where
  "policy_blocks = [''protected-core-access'', ''canonical-recovery-test-access'',
     ''unavailable-core-protection'', ''repository-safety-bypass'', ''security-policy-bypass'',
     ''provider-authentication-intervention'']"

definition blocked_reasons :: "'w repair_job \<Rightarrow> string list" where
  "blocked_reasons job = filter (\<lambda>b. b \<in> py_str ` set (jb_blocks job)) policy_blocks"

definition set_last_validation :: "stage_report \<Rightarrow> attempt_report list \<Rightarrow> attempt_report list" where
  "set_last_validation r history = butlast history @ [(last history)\<lparr>at_validation := r\<rparr>]"

definition log_validation :: "bool option \<Rightarrow> string option \<Rightarrow> repair_log \<Rightarrow> repair_log" where
  "log_validation success error log =
     (let n = lg_validations log + 1;
          r = (success, redact_optional error);
          log1 = log\<lparr>lg_validations := n\<rparr>;
          log2 = (if n = 1 then log1\<lparr>lg_initial := r\<rparr>
                  else if lg_history log1 \<noteq> []
                  then log1\<lparr>lg_history := set_last_validation r (lg_history log1)\<rparr> else log1)
      in if error = None then log2
         else log2\<lparr>lg_failures := lg_failures log2 @
           [\<lparr>fr_stage = ''validation'', fr_attempt = int n - 1, fr_message = redact_optional error\<rparr>]\<rparr>)"

definition outcome_of :: "'w repair_job \<Rightarrow> bool option \<Rightarrow> string option \<Rightarrow> validation_result" where
  "outcome_of job success error =
     (let base = \<lparr>vr_success = True, vr_category = PNone, vr_summary = ''validation succeeded'',
            vr_diagnostic = None, vr_return_code = None, vr_source = Some (jb_mission job),
            vr_blocking = PNone\<rparr>
      in if success = Some True then base
         else case blocked_reasons job of
           reason # _ \<Rightarrow> base\<lparr>vr_success := False, vr_category := PStr reason,
             vr_summary := ''blocked by policy or protection'', vr_blocking := PStr reason\<rparr>
         | [] \<Rightarrow>
             if \<not> jb_required job \<and> success \<noteq> Some False
             then base\<lparr>vr_summary := ''validation not required''\<rparr>
             else base\<lparr>vr_success := False,
               vr_category := PStr (if jb_category job = [] then ''validation-failure'' else jb_category job),
               vr_summary := redact_text (jb_summary job), vr_diagnostic := redact_optional error\<rparr>)"

definition coordinator_validate :: "'w repair_job \<Rightarrow> ('w \<times> repair_log) validator" where
  "coordinator_validate job = (\<lambda>(w, log).
     (let ((success, error), w') = call_validation (jb_validate job) w in
      (Inr (VResult (outcome_of job success error)), (w', log_validation success error log))))"

definition request_of :: "'w repair_job \<Rightarrow> repair_plan \<Rightarrow> repair_request" where
  "request_of job plan =
     \<lparr>rr_mission = jb_mission job, rr_attempt = rp_attempt plan,
      rr_objective = redact_text (jb_objective job),
      rr_category = (if rp_category plan = PNone then jb_category job else py_str (rp_category plan)),
      rr_summary = redact_text (if rp_summary plan = [] then jb_summary job else rp_summary plan),
      rr_allowed = jb_allowed job, rr_denied = jb_denied job,
      rr_validation_required = jb_required job\<rparr>"

definition log_generation :: "int \<Rightarrow> bool \<Rightarrow> string option \<Rightarrow> repair_log \<Rightarrow> repair_log" where
  "log_generation attempt ok error log = log
     \<lparr>lg_history := lg_history log @
        [\<lparr>at_attempt = attempt, at_generation = (Some ok, redact_optional error),
          at_apply = (None, None), at_validation = (None, None)\<rparr>],
      lg_failures := lg_failures log @ (case error of None \<Rightarrow> [] | Some e \<Rightarrow>
        [\<lparr>fr_stage = ''generation'', fr_attempt = attempt, fr_message = Some (redact_text e)\<rparr>])\<rparr>"

definition log_apply :: "int \<Rightarrow> bool \<Rightarrow> string option \<Rightarrow> repair_log \<Rightarrow> repair_log" where
  "log_apply attempt ok error log = log
     \<lparr>lg_history := butlast (lg_history log) @
        [(last (lg_history log))\<lparr>at_apply := (Some ok, redact_optional error)\<rparr>],
      lg_failures := lg_failures log @ (case error of None \<Rightarrow> [] | Some e \<Rightarrow>
        [\<lparr>fr_stage = ''apply'', fr_attempt = attempt, fr_message = Some (redact_text e)\<rparr>])\<rparr>"

definition coordinator_repair :: "'w repair_job \<Rightarrow> ('w \<times> repair_log) repairer" where
  "coordinator_repair job plan = (\<lambda>(w, log).
     (let ((ok, payload, error), w1) = call_generate (jb_generate job) (request_of job plan) w;
          log1 = log_generation (rp_attempt plan) ok error log
      in if \<not> ok
         then (Inr (ROutcome \<lparr>rx_success = False, rx_summary = ''Repair generation failed''\<rparr>), (w1, log1))
         else
           (let ((applied, apply_error), w2) = call_apply (jb_apply job) payload w1;
                log2 = log_apply (rp_attempt plan) applied apply_error log1
            in (Inr (ROutcome (if applied
                  then \<lparr>rx_success = True, rx_summary = ''repair generated and applied''\<rparr>
                  else \<lparr>rx_success = False, rx_summary = ''Repair application failed''\<rparr>)), (w2, log2)))))"

section \<open>The run\<close>

definition empty_log :: repair_log where
  "empty_log = \<lparr>lg_validations = 0, lg_initial = (None, None), lg_history = [], lg_failures = []\<rparr>"

fun blocking_reason :: "repair_failure list \<Rightarrow> string option" where
  "blocking_reason [] = None"
| "blocking_reason (f # fs) =
     (case rf_blocking f of
        PStr (c # cs) \<Rightarrow> Some (c # cs)
      | _ \<Rightarrow> (if rf_category f \<in> PStr ` set policy_blocks then Some (py_str (rf_category f))
             else blocking_reason fs))"

definition policy_rank :: "string \<Rightarrow> nat" where
  "policy_rank b = length (takeWhile (\<lambda>x. x \<noteq> b) policy_blocks)"

definition adapter_attempts :: int where
  "adapter_attempts = 3"

definition adapter_run :: "'w repair_job \<Rightarrow> 'w \<Rightarrow> adapter_result \<times> 'w" where
  "adapter_run job w =
     (let (res, (w', log)) = coordinate adapter_attempts (redact_text (jb_objective job)) (jb_allowed job)
            (jb_denied job)
            [(''mission_name'', PStr (jb_mission job)), (''validation_required'', PBool (jb_required job))]
            (coordinator_validate job) (coordinator_repair job) (Some (jb_mission job)) (w, empty_log);
          reasons = (if ir_state res \<noteq> ''blocked'' then []
            else case blocking_reason (rev (ir_failures res)) of
                Some r \<Rightarrow> [r] | None \<Rightarrow> blocked_reasons job)
      in (\<lparr>ar_status = ir_state res, ar_attempts = ir_attempts res, ar_initial = lg_initial log,
           ar_history = lg_history log, ar_failures = lg_failures log,
           ar_blocked = sort_key policy_rank reasons\<rparr>, w'))"

section \<open>What the closures do\<close>

lemma validate_safely_job:
  "validate_safely (coordinator_validate job) source (w, log) =
   (case call_validation (jb_validate job) w of ((success, error), w') \<Rightarrow>
      (sanitized (outcome_of job success error), (w', log_validation success error log)))"
  by (simp add: validate_safely_def coordinator_validate_def coerce_validation_def split: prod.split)

lemma sanitized_simps [simp]:
  "vr_success (sanitized v) = vr_success v" "vr_category (sanitized v) = vr_category v"
  "vr_blocking (sanitized v) = vr_blocking v" "is_blocked_condition (sanitized v) = is_blocked_condition v"
  by (simp_all add: sanitized_def is_blocked_condition_def)

lemma blocked_outcome:
  assumes "blocked_reasons job \<noteq> []" "success \<noteq> Some True"
  shows "\<not> vr_success (outcome_of job success error)" "is_blocked_condition (outcome_of job success error)"
    "vr_blocking (outcome_of job success error) = PStr (hd (blocked_reasons job))"
proof -
  obtain r rs where b: "blocked_reasons job = r # rs" using assms(1) by (cases "blocked_reasons job") auto
  then have "r \<in> set policy_blocks"
    unfolding blocked_reasons_def by (metis filter_is_subset list.set_intros(1) subsetD)
  then have "r \<in> set blocked_categories" by (simp add: policy_blocks_def blocked_categories_def)
  then show "\<not> vr_success (outcome_of job success error)"
    "is_blocked_condition (outcome_of job success error)"
    "vr_blocking (outcome_of job success error) = PStr (hd (blocked_reasons job))"
    using assms(2) by (auto simp: outcome_of_def b is_blocked_condition_def)
qed

lemma successful_outcome: "vr_success (outcome_of job (Some True) error)"
  by (simp add: outcome_of_def)

lemma length_log_validation [simp]:
  "length (lg_history (log_validation success error log)) = length (lg_history log)"
  by (auto simp: log_validation_def set_last_validation_def Let_def)

lemma length_log_repair:
  assumes "repair_safely (coordinator_repair job) source plan (w, log) = (records, (w', log'))"
  shows "length (lg_history log') = Suc (length (lg_history log))"
  using assms
  by (auto simp: repair_safely_def coordinator_repair_def log_generation_def log_apply_def Let_def
      split: prod.splits if_splits)

lemma history_of_calls:
  "length (lg_history (snd (after_calls (coordinator_validate job) (coordinator_repair job) source plans s))) =
   length (lg_history (snd s)) + length plans"
proof (induction plans arbitrary: s)
  case Nil
  obtain w log where "s = (w, log)" by (cases s)
  then show ?case by (simp add: validate_safely_job split: prod.split)
next
  case (Cons p ps)
  obtain w log where s: "s = (w, log)" by (cases s)
  obtain v w1 log1 where v: "validate_safely (coordinator_validate job) source s = (v, (w1, log1))"
    by (cases "validate_safely (coordinator_validate job) source s") auto
  then have l1: "length (lg_history log1) = length (lg_history log)"
    by (auto simp: s validate_safely_job split: prod.splits)
  obtain rs w2 log2 where r: "repair_safely (coordinator_repair job) source p (w1, log1) = (rs, (w2, log2))"
    by (cases "repair_safely (coordinator_repair job) source p (w1, log1)") auto
  show ?case using Cons [of "(w2, log2)"] length_log_repair [OF r] l1 by (simp add: v [unfolded s] r s)
qed

section \<open>What callbacks keep, the run keeps\<close>

locale kept_by_callbacks =
  fixes job :: "'w repair_job" and Q :: "'w \<Rightarrow> bool"
  assumes validate_keeps: "jb_validate job = Some f \<Longrightarrow> Q w \<Longrightarrow> Q (snd (f w))"
    and generate_keeps: "jb_generate job = Some g \<Longrightarrow> Q w \<Longrightarrow> Q (snd (g request w))"
    and apply_keeps: "jb_apply job = Some h \<Longrightarrow> Q w \<Longrightarrow> Q (snd (h payload w))"
begin

lemma call_validation_keeps: "Q w \<Longrightarrow> Q (snd (call_validation (jb_validate job) w))"
  using validate_keeps
  by (force simp: call_validation_def split: option.splits prod.splits sum.splits)

lemma call_generate_keeps: "Q w \<Longrightarrow> Q (snd (call_generate (jb_generate job) request w))"
  using generate_keeps [of _ w request]
  by (auto simp: call_generate_def split: option.splits prod.splits sum.splits bool.splits)

lemma call_apply_keeps: "Q w \<Longrightarrow> Q (snd (call_apply (jb_apply job) payload w))"
  using apply_keeps [of _ w payload]
  by (auto simp: call_apply_def split: option.splits prod.splits sum.splits)

lemma validate_safely_keeps:
  "Q (fst s) \<Longrightarrow> Q (fst (snd (validate_safely (coordinator_validate job) source s)))"
  using call_validation_keeps [of "fst s"]
  by (cases s) (auto simp: validate_safely_job split: prod.splits)

lemma repair_safely_keeps:
  "Q (fst s) \<Longrightarrow> Q (fst (snd (repair_safely (coordinator_repair job) source plan s)))"
proof -
  assume q: "Q (fst s)"
  obtain w log where s: "s = (w, log)" by (cases s)
  obtain ok payload error w1 where g:
    "call_generate (jb_generate job) (request_of job plan) w = ((ok, payload, error), w1)"
    by (cases "call_generate (jb_generate job) (request_of job plan) w") auto
  have q1: "Q w1" using call_generate_keeps [of w "request_of job plan"] q by (simp add: s g)
  obtain applied e2 w2 where a: "call_apply (jb_apply job) payload w1 = ((applied, e2), w2)"
    by (cases "call_apply (jb_apply job) payload w1") auto
  have q2: "Q w2" using call_apply_keeps [OF q1, of payload] by (simp add: a)
  show ?thesis
    using q1 q2 by (simp add: s g a repair_safely_def coordinator_repair_def Let_def)
qed

lemma after_calls_keep:
  "Q (fst s) \<Longrightarrow>
   Q (fst (after_calls (coordinator_validate job) (coordinator_repair job) source plans s))"
proof (induction plans arbitrary: s)
  case Nil
  then show ?case by (simp add: validate_safely_keeps)
next
  case (Cons p ps)
  show ?case by (simp add: Cons.IH Cons.prems validate_safely_keeps repair_safely_keeps)
qed

end

text \<open>Findings: zero and the empty text count as success, although the rules of the method say
  that a falsy outcome is a failure; a truthy blocking condition that is neither a known name nor
  \<open>True\<close> does not block.\<close>

lemma falsy_outcomes_succeed: "fst (normalize_outcome (PInt 0))" "fst (normalize_outcome (PStr []))"
  by (simp_all add: normalize_outcome_def)

lemma unknown_condition_does_not_block:
  "\<not> is_blocked_condition ((plain_result False [])\<lparr>vr_blocking := PStr ''manual-hold''\<rparr>)"
  "\<not> is_blocked_condition ((plain_result False [])\<lparr>vr_blocking := PInt 1\<rparr>)"
  by (simp_all add: is_blocked_condition_def plain_result_def blocked_categories_def image_iff)

section \<open>Guarantees\<close>

text \<open>C20: When a policy block applies to a mission, its repair only validates: whatever the
  callbacks do, the final state of the world is the one the single call of the validator left,
  nothing is generated or applied, and the result is \<open>succeeded\<close> if the validator said so and
  otherwise \<open>blocked\<close>, with the first applicable reason.\<close>

theorem blocked_mission_never_repairs:
  assumes "b \<in> set (jb_blocks job)" "py_str b \<in> set policy_blocks"
  shows "case (adapter_run job w, call_validation (jb_validate job) w) of
    ((res, w'), ((success, error), w1)) \<Rightarrow>
      w' = w1 \<and> ar_attempts res = 0 \<and> ar_history res = [] \<and>
      ar_status res = (if success = Some True then ''succeeded'' else ''blocked'') \<and>
      ar_blocked res = (if success = Some True then [] else [hd (blocked_reasons job)])"
proof -
  have br: "blocked_reasons job \<noteq> []"
    using assms by (auto simp: blocked_reasons_def filter_empty_conv)
  obtain success error w1 where c: "call_validation (jb_validate job) w = ((success, error), w1)"
    by (cases "call_validation (jb_validate job) w") auto
  let ?o = "outcome_of job success error"
  have v: "validate_safely (coordinator_validate job) source (w, empty_log) =
      (sanitized ?o, (w1, log_validation success error empty_log))" for source
    by (simp add: validate_safely_job c)
  have h: "lg_history (log_validation success error empty_log) = []"
    by (simp add: log_validation_def empty_log_def Let_def)
  show ?thesis
  proof (cases "success = Some True")
    case True
    then show ?thesis
      using successful_outcome [of job error]
      by (simp add: adapter_run_def coordinate_def v c h [unfolded True])
  next
    case False
    have ne: "hd (blocked_reasons job) \<noteq> []"
      using br hd_in_set [OF br] by (auto simp: blocked_reasons_def policy_blocks_def)
    obtain x xs where x: "hd (blocked_reasons job) = x # xs" using ne by (cases "hd (blocked_reasons job)") auto
    show ?thesis
      using False blocked_outcome [OF br False, of error]
      by (simp add: adapter_run_def coordinate_def v c h failure_of_def x)
  qed
qed

text \<open>The coordinator's protocol, for the adapter's closures.\<close>

lemma adapter_run_protocol:
  obtains res :: integration_result and log where
    "ar_status (fst (adapter_run job w)) = ir_state res"
    "ar_attempts (fst (adapter_run job w)) = int (length (ir_plans res))"
    "ar_history (fst (adapter_run job w)) = lg_history log"
    "run_protocol (coordinator_validate job) (coordinator_repair job) (Some (jb_mission job)) 3
       (w, empty_log) (ir_plans res) (ir_state res) (snd (adapter_run job w), log)"
proof -
  let ?run = "coordinate 3 (redact_text (jb_objective job)) (jb_allowed job) (jb_denied job)
            [(''mission_name'', PStr (jb_mission job)), (''validation_required'', PBool (jb_required job))]
            (coordinator_validate job) (coordinator_repair job) (Some (jb_mission job)) (w, empty_log)"
  obtain res w' log where run: "?run = (res, (w', log))" by (cases ?run) auto
  have p: "ir_attempts res = int (length (ir_plans res))"
    "run_protocol (coordinator_validate job) (coordinator_repair job) (Some (jb_mission job)) 3
       (w, empty_log) (ir_plans res) (ir_state res) (w', log)"
    using coordinated [where max_attempts = 3 and objective = "redact_text (jb_objective job)"
        and allowed = "jb_allowed job" and denied = "jb_denied job"
        and constraints = "[(''mission_name'', PStr (jb_mission job)),
           (''validation_required'', PBool (jb_required job))]"
        and validate = "coordinator_validate job" and repair = "coordinator_repair job"
        and source = "Some (jb_mission job)" and s = "(w, empty_log)"] run
    by simp_all
  from that [of res log] p run show thesis
    by (simp add: adapter_run_def adapter_attempts_def Let_def)
qed

lemma adapter_bounded:
  "case adapter_run job w of (res, w') \<Rightarrow>
     0 \<le> ar_attempts res \<and> ar_attempts res \<le> 3 \<and> int (length (ar_history res)) = ar_attempts res \<and>
     (ar_status res, ar_attempts res) \<in> {''succeeded'', ''blocked''} \<times> {0..3} \<union> {(''exhausted'', 3)}"
proof -
  obtain res :: integration_result and log where r: "ar_status (fst (adapter_run job w)) = ir_state res"
    "ar_attempts (fst (adapter_run job w)) = int (length (ir_plans res))"
    "ar_history (fst (adapter_run job w)) = lg_history log"
    "run_protocol (coordinator_validate job) (coordinator_repair job) (Some (jb_mission job)) 3
       (w, empty_log) (ir_plans res) (ir_state res) (snd (adapter_run job w), log)"
    by (rule adapter_run_protocol [of job w])
  then have "length (lg_history log) = length (ir_plans res)"
    using history_of_calls [of job "Some (jb_mission job)" "ir_plans res" "(w, empty_log)"]
    by (auto simp: run_protocol_def Let_def empty_log_def dest: arg_cong [where f = snd])
  moreover have "length (ir_plans res) \<le> 3"
    "(ir_state res, length (ir_plans res)) \<in> {''succeeded'', ''blocked''} \<times> UNIV \<union> {(''exhausted'', 3)}"
    using r(4) by (auto simp: run_protocol_def Let_def final_state_of_def)
  ultimately show ?thesis using r(1-3) by (auto split: prod.split)
qed

text \<open>What the callbacks keep of their state, a run of the adapter keeps.\<close>

context kept_by_callbacks
begin

lemma adapter_run_keeps:
  assumes "Q w"
  shows "Q (snd (adapter_run job w))"
proof -
  obtain res :: integration_result and log where
    "run_protocol (coordinator_validate job) (coordinator_repair job) (Some (jb_mission job)) 3
       (w, empty_log) (ir_plans res) (ir_state res) (snd (adapter_run job w), log)"
    by (rule adapter_run_protocol [of job w])
  then have "(snd (adapter_run job w), log) =
      after_calls (coordinator_validate job) (coordinator_repair job) (Some (jb_mission job))
        (ir_plans res) (w, empty_log)"
    by (simp add: run_protocol_def Let_def)
  then show ?thesis
    using after_calls_keep [of "(w, empty_log)" "Some (jb_mission job)" "ir_plans res"] assms
    by (metis fst_conv)
qed

end

section \<open>A concrete run\<close>

text \<open>The world counts: the validator fails and adds one, the other callbacks would add more.\<close>

definition demo_job :: "nat repair_job" where
  "demo_job = \<lparr>jb_mission = ''m'', jb_objective = ''fix'', jb_category = ''unittest-failure'',
     jb_summary = ''tests failed'', jb_allowed = [], jb_denied = [], jb_required = True,
     jb_blocks = [PStr ''security-policy-bypass''],
     jb_validate = Some (\<lambda>w. (Inr (PBool False), w + 1)),
     jb_generate = Some (\<lambda>_ w. (Inr (PBool True), w + 10)),
     jb_apply = Some (\<lambda>_ w. (Inr (PBool True), w + 100))\<rparr>"

theorem blocked_mission_never_repairs_witness:
  "case adapter_run demo_job 0 of (res, w') \<Rightarrow>
     w' = 1 \<and> ar_status res = ''blocked'' \<and> ar_blocked res = [''security-policy-bypass'']"
proof -
  have "PStr ''security-policy-bypass'' \<in> set (jb_blocks demo_job)"
    "py_str (PStr ''security-policy-bypass'') \<in> set policy_blocks"
    by (simp_all add: demo_job_def policy_blocks_def)
  moreover have "call_validation (jb_validate demo_job) 0 = ((Some False, None), 1)"
    by (simp add: call_validation_def demo_job_def normalize_outcome_def)
  moreover have "blocked_reasons demo_job = [''security-policy-bypass'']"
    by (simp add: blocked_reasons_def demo_job_def policy_blocks_def)
  ultimately show ?thesis
    using blocked_mission_never_repairs [of "PStr ''security-policy-bypass''" demo_job 0]
    by (auto split: prod.splits)
qed

end
