(* ===== verification/CoreProtection.thy ===== *)
theory CoreProtection
  imports PyText PyJson
begin

text \<open>
  \<^verbatim>\<open>agent/policies/core_protection.py\<close>: the manifest of protected paths, the classification of a
  path, and the decision whether a mission may write to it.  Paths are strings, as the code joins
  and compares them; reading a file is a function from its path to the text, if there is one.
\<close>

section \<open>Data\<close>

datatype protection_kind = Unprotected | ProtectedCore | CanonicalTest

record core_config =
  cc_schema :: string
  cc_core :: "string list"
  cc_canonical :: "string list"
  cc_core_marker :: string
  cc_test_marker :: string
  cc_manual_merge :: bool
  cc_full_suite :: bool
  cc_recovery_gate :: bool

record protection_decision =
  pd_allowed :: bool
  pd_kind :: protection_kind
  pd_code :: "string option"
  pd_manual_merge :: bool
  pd_full_suite :: bool
  pd_recovery_gate :: bool
  pd_message :: string

datatype manifest_error =
    ManifestNotFound string
  | ManifestNotJson string
  | ManifestRootNotObject
  | UnknownFields "string list"
  | MissingField string
  | NotAListOfStrings string
  | WrongFieldType string string
  | UnsupportedSchema string

section \<open>Paths\<close>

definition slashes :: "string \<Rightarrow> string" where
  "slashes s = map (\<lambda>c. if c = CHR 0x5C then CHR ''/'' else c) s"

text \<open>One segment of the loop: empty and \<open>.\<close> are skipped, \<open>..\<close> drops the last part and is
  clamped at the root (\<open>butlast [] = []\<close>).\<close>

definition push_segment :: "string list \<Rightarrow> string \<Rightarrow> string list" where
  "push_segment parts seg =
     (if seg = [] \<or> seg = ''.'' then parts
      else if seg = ''..'' then butlast parts
      else parts @ [seg])"

definition path_segments :: "string \<Rightarrow> string list" where
  "path_segments path =
     foldl push_segment [] (split_on (CHR ''/'') (dropWhile (\<lambda>c. c = CHR ''/'') (slashes path)))"

definition normalize_repo_path :: "string \<Rightarrow> string" where
  "normalize_repo_path path = join_with ''/'' (path_segments path)"

definition ensure_dir_prefix :: "string \<Rightarrow> string" where
  "ensure_dir_prefix p = (let n = normalize_repo_path p in
     if n \<noteq> [] \<and> \<not> ends_with n ''/'' then n @ ''/'' else n)"

definition normalize_manifest_paths :: "string list \<Rightarrow> string list" where
  "normalize_manifest_paths = map normalize_repo_path"

section \<open>The manifest\<close>

datatype field_type = StrField | StrListField | BoolField

definition manifest_fields :: "(string \<times> field_type) list" where
  "manifest_fields =
     [(''schema_version'', StrField),
      (''protected_core_paths'', StrListField),
      (''canonical_test_paths'', StrListField),
      (''core_maintenance_marker'', StrField),
      (''test_contract_maintenance_marker'', StrField),
      (''manual_merge_required_for_core_changes'', BoolField),
      (''full_suite_required_for_core_changes'', BoolField),
      (''recovery_gate_required_for_core_changes'', BoolField)]"

definition check_field :: "pyval dict \<Rightarrow> string \<Rightarrow> field_type \<Rightarrow> manifest_error + unit" where
  "check_field data k t = (case map_of data k of
       None \<Rightarrow> Inl (MissingField k)
     | Some v \<Rightarrow> (case t of
           StrListField \<Rightarrow> (case v of
               PList vs \<Rightarrow> echeck (list_all is_str vs) (NotAListOfStrings k)
             | _ \<Rightarrow> Inl (NotAListOfStrings k))
         | StrField \<Rightarrow> echeck (is_str v) (WrongFieldType k ''str'')
         | BoolField \<Rightarrow> (case v of PBool _ \<Rightarrow> Inr () | _ \<Rightarrow> Inl (WrongFieldType k ''bool''))))"

definition validate_manifest_types :: "pyval dict \<Rightarrow> manifest_error + unit" where
  "validate_manifest_types data =
     (let unknown = filter (\<lambda>k. k \<notin> fst ` set manifest_fields) (dedup (map fst data)) in
      if unknown \<noteq> [] then Inl (UnknownFields (sort unknown))
      else ebind (emap (\<lambda>(k, t). check_field data k t) manifest_fields) (\<lambda>_. Inr ()))"

definition strings_at :: "pyval dict \<Rightarrow> string \<Rightarrow> string list" where
  "strings_at data k = (case dget data k of PList vs \<Rightarrow> map py_str vs | _ \<Rightarrow> [])"

definition flag_at :: "pyval dict \<Rightarrow> string \<Rightarrow> bool" where
  "flag_at data k = (dget data k = PBool True)"

definition config_of_manifest :: "pyval dict \<Rightarrow> core_config" where
  "config_of_manifest data =
     \<lparr>cc_schema = py_str (dget data ''schema_version''),
      cc_core = normalize_manifest_paths (strings_at data ''protected_core_paths''),
      cc_canonical = normalize_manifest_paths (strings_at data ''canonical_test_paths''),
      cc_core_marker = py_str (dget data ''core_maintenance_marker''),
      cc_test_marker = py_str (dget data ''test_contract_maintenance_marker''),
      cc_manual_merge = flag_at data ''manual_merge_required_for_core_changes'',
      cc_full_suite = flag_at data ''full_suite_required_for_core_changes'',
      cc_recovery_gate = flag_at data ''recovery_gate_required_for_core_changes''\<rparr>"

definition load_core_lock_manifest ::
  "(string \<Rightarrow> string option) \<Rightarrow> string \<Rightarrow> manifest_error + core_config" where
  "load_core_lock_manifest read path = (case read path of
       None \<Rightarrow> Inl (ManifestNotFound path)
     | Some content \<Rightarrow> (case json_loads content of
           None \<Rightarrow> Inl (ManifestNotJson path)
         | Some (PDict data) \<Rightarrow>
             ebind (validate_manifest_types data) (\<lambda>_.
             if py_str (dget data ''schema_version'') \<noteq> ''1.0''
             then Inl (UnsupportedSchema (py_str (dget data ''schema_version'')))
             else Inr (config_of_manifest data))
         | Some _ \<Rightarrow> Inl ManifestRootNotObject))"

section \<open>Classification\<close>

definition is_within_dir :: "string \<Rightarrow> string \<Rightarrow> bool" where
  "is_within_dir target dir_prefix =
     (if dir_prefix = [] then True
      else let d = (if ends_with dir_prefix ''/'' then dir_prefix else dir_prefix @ ''/'')
           in target = butlast d \<or> starts_with target d)"

definition canonical_test_match :: "string \<Rightarrow> string list \<Rightarrow> bool" where
  "canonical_test_match target paths = list_ex (\<lambda>p.
     p \<noteq> [] \<and> (if ends_with p ''/'' then is_within_dir target p else target = p)) paths"

definition classify_protected_path :: "string \<Rightarrow> core_config \<Rightarrow> protection_kind" where
  "classify_protected_path path config = (let target = normalize_repo_path path in
     if canonical_test_match target (cc_canonical config) then CanonicalTest
     else if list_ex (\<lambda>entry.
         is_within_dir target (if ends_with entry ''/'' then entry else entry @ ''/''))
       (cc_core config) then ProtectedCore
     else Unprotected)"

section \<open>Decisions\<close>

definition has_exact_marker_line :: "string \<Rightarrow> string \<Rightarrow> bool" where
  "has_exact_marker_line mission marker = list_ex (\<lambda>line. strip line = marker) (splitlines mission)"

definition has_core_marker :: "string \<Rightarrow> core_config \<Rightarrow> bool" where
  "has_core_marker mission config = has_exact_marker_line mission (cc_core_marker config)"

definition has_test_contract_marker :: "string \<Rightarrow> core_config \<Rightarrow> bool" where
  "has_test_contract_marker mission config = has_exact_marker_line mission (cc_test_marker config)"

definition allow_plain :: "protection_kind \<Rightarrow> protection_decision" where
  "allow_plain kind = \<lparr>pd_allowed = True, pd_kind = kind, pd_code = None, pd_manual_merge = False,
     pd_full_suite = False, pd_recovery_gate = False, pd_message = ''unprotected path allow''\<rparr>"

definition allow_override :: "protection_kind \<Rightarrow> core_config \<Rightarrow> string \<Rightarrow> protection_decision" where
  "allow_override kind config msg = \<lparr>pd_allowed = True, pd_kind = kind, pd_code = None,
     pd_manual_merge = cc_manual_merge config, pd_full_suite = cc_full_suite config,
     pd_recovery_gate = cc_recovery_gate config, pd_message = msg\<rparr>"

definition deny :: "protection_kind \<Rightarrow> string \<Rightarrow> string \<Rightarrow> protection_decision" where
  "deny kind code msg = \<lparr>pd_allowed = False, pd_kind = kind, pd_code = Some code,
     pd_manual_merge = False, pd_full_suite = False, pd_recovery_gate = False, pd_message = msg\<rparr>"

definition validate_mission_write :: "string \<Rightarrow> string \<Rightarrow> core_config \<Rightarrow> protection_decision" where
  "validate_mission_write target_path mission config =
     (case classify_protected_path (normalize_repo_path target_path) config of
        Unprotected \<Rightarrow> allow_plain Unprotected
      | ProtectedCore \<Rightarrow>
          (if has_core_marker mission config
           then allow_override ProtectedCore config ''core path override by explicit marker''
           else deny ProtectedCore ''CORE_PATH_LOCKED'' ''write denied: protected core path'')
      | CanonicalTest \<Rightarrow>
          (if has_core_marker mission config \<and> has_test_contract_marker mission config
           then allow_override CanonicalTest config ''canonical test override by explicit markers''
           else deny CanonicalTest ''CANONICAL_TEST_LOCKED'' ''write denied: canonical test path''))"

definition core_protection_status :: "string \<Rightarrow> core_config \<Rightarrow> pyval dict" where
  "core_protection_status mission config =
     [(''schema_version'', PStr (cc_schema config)),
      (''core_marker_present'', PBool (has_core_marker mission config)),
      (''test_contract_marker_present'', PBool (has_test_contract_marker mission config)),
      (''manual_merge_required_for_core_changes'', PBool (cc_manual_merge config)),
      (''full_suite_required_for_core_changes'', PBool (cc_full_suite config)),
      (''recovery_gate_required_for_core_changes'', PBool (cc_recovery_gate config))]"

section \<open>What normalization establishes\<close>

text \<open>A segment of a normalized path names something: it is not empty, has no separator and is
  neither \<open>.\<close> nor \<open>..\<close>.\<close>

definition good_segment :: "string \<Rightarrow> bool" where
  "good_segment seg = (seg \<noteq> [] \<and> seg \<noteq> ''.'' \<and> seg \<noteq> ''..'' \<and>
     CHR ''/'' \<notin> set seg \<and> CHR 0x5C \<notin> set seg)"

lemma no_backslash_slashes: "CHR 0x5C \<notin> set (slashes s)"
  by (auto simp: slashes_def)

lemma split_on_subset: "p \<in> set (split_on c s) \<Longrightarrow> set p \<subseteq> set s"
proof (induction s arbitrary: p)
  case Nil
  then show ?case by simp
next
  case (Cons x xs)
  have "set q \<subseteq> set xs" if "q \<in> set (split_on c xs)" for q using Cons.IH that by blast
  then show ?case using Cons.prems by (cases "split_on c xs") (fastforce split: if_splits)+
qed

lemma push_segment_good:
  assumes "list_all good_segment parts" "CHR ''/'' \<notin> set seg" "CHR 0x5C \<notin> set seg"
  shows "list_all good_segment (push_segment parts seg)"
  using assms by (auto simp: push_segment_def good_segment_def list_all_iff dest: in_set_butlastD)

lemma foldl_push_good:
  assumes "list_all good_segment parts" "\<forall>seg \<in> set segs. CHR ''/'' \<notin> set seg \<and> CHR 0x5C \<notin> set seg"
  shows "list_all good_segment (foldl push_segment parts segs)"
  using assms by (induction segs arbitrary: parts) (auto simp: push_segment_good)

lemma path_segments_good: "list_all good_segment (path_segments path)"
proof -
  let ?s = "dropWhile (\<lambda>c. c = CHR ''/'') (slashes path)"
  have "CHR 0x5C \<notin> set ?s" using no_backslash_slashes by (auto dest: set_dropWhileD)
  then have "\<forall>seg \<in> set (split_on (CHR ''/'') ?s). CHR ''/'' \<notin> set seg \<and> CHR 0x5C \<notin> set seg"
    using split_on_no_sep split_on_subset by blast
  then show ?thesis unfolding path_segments_def by (rule foldl_push_good [rotated]) simp
qed

lemma good_segments:
  assumes "list_all good_segment segs"
  shows "[] \<notin> set segs" "\<forall>seg \<in> set segs. CHR ''/'' \<notin> set seg"
  using assms by (auto simp: list_all_iff good_segment_def)

lemma normalize_inject:
  "normalize_repo_path p = normalize_repo_path q \<longleftrightarrow> path_segments p = path_segments q"
  using good_segments [OF path_segments_good [of p]] good_segments [OF path_segments_good [of q]]
  by (simp add: normalize_repo_path_def join_inject)

lemma normalize_eq_Nil [simp]: "normalize_repo_path p = [] \<longleftrightarrow> path_segments p = []"
  using good_segments [OF path_segments_good [of p]] by (simp add: normalize_repo_path_def join_eq_Nil)

lemma last_join: "us \<noteq> [] \<Longrightarrow> last us \<noteq> [] \<Longrightarrow> last (join_with sep us) = last (last us)"
proof (induction sep us rule: join_with.induct)
  case (3 sep x y xs)
  have "join_with sep (y # xs) \<noteq> []"
    using 3(3) by (induction sep "y # xs" arbitrary: y xs rule: join_with.induct) auto
  with 3 show ?case by simp
qed auto

lemma ends_with_single: "ends_with s [c] \<longleftrightarrow> s \<noteq> [] \<and> last s = c"
  by (cases s rule: rev_cases) (auto simp: ends_with_def starts_with_def)

lemma normalize_no_slash_end: "\<not> ends_with (normalize_repo_path p) ''/''"
proof (cases "path_segments p = []")
  case True
  then show ?thesis by (simp add: ends_with_single)
next
  case False
  let ?l = "last (path_segments p)"
  have l: "?l \<in> set (path_segments p)" using False by simp
  then have ne: "?l \<noteq> []" and ns: "CHR ''/'' \<notin> set ?l"
    using path_segments_good [of p] by (auto simp: list_all_iff good_segment_def)
  have "last (normalize_repo_path p) = last ?l"
    using False ne by (simp add: normalize_repo_path_def last_join)
  then show ?thesis using ne ns by (metis ends_with_single last_in_set)
qed

lemma normalize_no_slash_start: "\<not> starts_with (normalize_repo_path p) ''/''"
proof (cases "path_segments p")
  case Nil
  then show ?thesis by (simp add: normalize_repo_path_def starts_with_def)
next
  case (Cons x xs)
  then have x: "good_segment x" using path_segments_good [of p] by simp
  then obtain c cs where c: "x = c # cs" "c \<noteq> CHR ''/''"
    by (cases x) (auto simp: good_segment_def)
  then show ?thesis
    by (cases xs) (auto simp: normalize_repo_path_def Cons starts_with_def)
qed

text \<open>Normalizing again changes nothing.\<close>

lemma split_slashes_good:
  "list_all good_segment segs \<Longrightarrow> segs \<noteq> [] \<Longrightarrow> path_segments (join_with ''/'' segs) = segs"
proof -
  assume g: "list_all good_segment segs" and ne: "segs \<noteq> []"
  have nb: "CHR 0x5C \<notin> set (join_with ''/'' segs)" using g
    by (induction "''/''" segs rule: join_with.induct) (auto simp: good_segment_def)
  then have sl: "slashes (join_with ''/'' segs) = join_with ''/'' segs"
    by (auto simp: slashes_def intro!: map_idI)
  obtain x xs where segs: "segs = x # xs" using ne by (cases segs) auto
  obtain c cs where x: "x = c # cs" "c \<noteq> CHR ''/''"
    using g segs by (cases x) (auto simp: good_segment_def)
  then have dw: "dropWhile (\<lambda>c. c = CHR ''/'') (join_with ''/'' segs) = join_with ''/'' segs"
    by (cases xs) (auto simp: segs)
  have "foldl push_segment ps qs = ps @ qs" if "list_all good_segment qs" for ps qs
    using that by (induction qs arbitrary: ps) (auto simp: push_segment_def good_segment_def)
  then show ?thesis
    using g good_segments [OF g] ne by (simp add: path_segments_def sl dw split_on_join)
qed

lemma normalize_normalize [simp]: "path_segments (normalize_repo_path p) = path_segments p"
proof (cases "path_segments p = []")
  case True
  have "path_segments [] = []" by (simp add: path_segments_def slashes_def push_segment_def)
  with True show ?thesis by (simp add: normalize_repo_path_def)
next
  case False
  then show ?thesis by (simp add: normalize_repo_path_def split_slashes_good path_segments_good)
qed

section \<open>Classification on segments\<close>

text \<open>The reference: a protected entry covers a path when its segments are a prefix of the
  path's segments; an entry that is the root covers only the root itself.\<close>

definition covers :: "string list \<Rightarrow> string list \<Rightarrow> bool" where
  "covers entry target = (if entry = [] then target = [] else prefix entry target)"

definition segment_kind :: "string list \<Rightarrow> string list \<Rightarrow> string \<Rightarrow> protection_kind" where
  "segment_kind core canonical path = (let target = path_segments path in
     if target \<noteq> [] \<and> list_ex (\<lambda>p. path_segments p = target) canonical then CanonicalTest
     else if list_ex (\<lambda>e. covers (path_segments e) target) core then ProtectedCore
     else Unprotected)"

lemma within_normalized:
  "is_within_dir (normalize_repo_path t) (normalize_repo_path e @ ''/'') \<longleftrightarrow>
   covers (path_segments e) (path_segments t)"
proof (cases "path_segments e = []")
  case True
  then have e: "normalize_repo_path e = []" by simp
  show ?thesis
    using normalize_no_slash_start [of t]
    by (simp only: e) (simp add: is_within_dir_def covers_def ends_with_single True)
next
  case False
  have "starts_with (normalize_repo_path t) (normalize_repo_path e @ ''/'') \<longleftrightarrow>
        strict_prefix (path_segments e) (path_segments t)"
  proof (cases "path_segments t = []")
    case True
    then show ?thesis by (simp add: normalize_repo_path_def starts_with_def)
  next
    case ne: False
    show ?thesis
      unfolding normalize_repo_path_def
      by (rule join_starts_with [OF False _ ne])
         (auto dest: good_segments(2) [OF path_segments_good, rule_format])
  qed
  then show ?thesis
    using False
    by (auto simp: is_within_dir_def covers_def ends_with_single Let_def normalize_inject
        prefix_order.le_less)
qed

lemma classify_segments:
  "classify_protected_path path
     (config\<lparr>cc_core := normalize_manifest_paths core,
             cc_canonical := normalize_manifest_paths canonical\<rparr>) =
   segment_kind core canonical path"
proof -
  have canon: "canonical_test_match (normalize_repo_path path) (normalize_manifest_paths canonical) \<longleftrightarrow>
      path_segments path \<noteq> [] \<and> list_ex (\<lambda>p. path_segments p = path_segments path) canonical"
    by (auto simp: canonical_test_match_def normalize_manifest_paths_def list_ex_iff
        normalize_no_slash_end normalize_inject) metis
  have core: "list_ex (\<lambda>entry. is_within_dir (normalize_repo_path path)
        (if ends_with entry ''/'' then entry else entry @ ''/'')) (normalize_manifest_paths core) \<longleftrightarrow>
      list_ex (\<lambda>e. covers (path_segments e) (path_segments path)) core"
    by (simp add: normalize_manifest_paths_def list_ex_iff normalize_no_slash_end within_normalized)
  show ?thesis
    by (simp add: classify_protected_path_def segment_kind_def Let_def canon core)
qed


text \<open>A canonical lock written as a directory (with a separator at the end) loses the separator in
  the manifest, so it locks the path of that name and nothing below it.\<close>

lemma directory_lock_is_exact:
  "canonical_test_match target (normalize_manifest_paths paths) \<longleftrightarrow>
   target \<noteq> [] \<and> target \<in> normalize_repo_path ` set paths"
  by (auto simp: canonical_test_match_def normalize_manifest_paths_def list_ex_iff
      normalize_no_slash_end)

lemma directory_lock_misses_files:
  "\<not> canonical_test_match ''tests/a.py'' (normalize_manifest_paths [''tests/''])"
proof -
  have "normalize_repo_path ''tests/'' = ''tests''"
    by (simp add: normalize_repo_path_def path_segments_def slashes_def push_segment_def)
  then show ?thesis by (simp add: directory_lock_is_exact)
qed

section \<open>Who may write\<close>

lemma classify_normalized [simp]:
  "classify_protected_path (normalize_repo_path p) config = classify_protected_path p config"
proof -
  have "normalize_repo_path (normalize_repo_path p) = normalize_repo_path p"
    by (simp add: normalize_inject)
  then show ?thesis by (simp add: classify_protected_path_def)
qed

lemma write_allowed_iff:
  "pd_allowed (validate_mission_write path mission config) \<longleftrightarrow>
     (case classify_protected_path path config of
        Unprotected \<Rightarrow> True
      | ProtectedCore \<Rightarrow> has_core_marker mission config
      | CanonicalTest \<Rightarrow> has_core_marker mission config \<and> has_test_contract_marker mission config)"
  by (auto simp: validate_mission_write_def allow_plain_def allow_override_def deny_def
      split: protection_kind.split)

lemma load_manifest_fields:
  assumes "load_core_lock_manifest read path = Inr config"
  obtains content data where "read path = Some content"
    "json_loads content = Some (PDict data)" "validate_manifest_types data = Inr ()"
    "config = config_of_manifest data" "cc_schema config = ''1.0''"
  using assms
  by (auto simp: load_core_lock_manifest_def err_simps config_of_manifest_def
      split: option.splits pyval.splits if_splits)

end
