(* ===== verification/MissionWriter.thy ===== *)
theory MissionWriter
  imports CoreProtection PyMonad
begin

text \<open>
  \<^verbatim>\<open>agent/ai/mission_runner.py\<close>, from the mission's text to the files it may change: the
  deliverables a mission lists, the files of a model's answer, and their checked writing.

  A file is named by the parts of its resolved absolute path; \<open>root\<close> is the repository's.  What
  \<open>(REPOSITORY_ROOT / relative).resolve()\<close> makes of a text depends on symbolic links, so it is an
  argument \<open>resolve\<close>.  Writing a temporary file and renaming it are two table updates.
\<close>

section \<open>Data\<close>

type_synonym file_path = "string list"

type_synonym file_table = "(file_path \<times> string) list"

datatype mission_error =
    UnsafeDeliverable string
  | NoDeliverables
  | NotJson
  | RootNotObject
  | NoFilesList
  | PathNotString
  | OutsideAllowlist string
  | EmptyFile string
  | EscapesRepository string
  | ForbiddenContent string string
  | EntryNotObject
  | ProtectionUnavailable
  | ProtectionLocked string
  | DuplicateFile string
  | NotGenerated "string list"

section \<open>Deliverables\<close>

text \<open>\<open>pathlib\<close>: the parts of a relative path are its non-empty segments other than \<open>.\<close>.\<close>

definition path_parts :: "string \<Rightarrow> string list" where
  "path_parts s = filter (\<lambda>p. p \<noteq> [] \<and> p \<noteq> ''.'') (split_on (CHR ''/'') s)"

text \<open>\<open>str.isdigit\<close> holds for the superscripts one, two and three, too.\<close>

definition all_digits :: "string \<Rightarrow> bool" where
  "all_digits s = (s \<noteq> [] \<and> list_all (\<lambda>c. is_digit c \<or> (of_char c :: nat) \<in> {178, 179, 185}) s)"

fun partition_at :: "string \<Rightarrow> string \<Rightarrow> (string \<times> string) option" where
  "partition_at sep [] = None"
| "partition_at sep (c # s) =
     (if starts_with (c # s) sep then Some ([], drop (length sep) (c # s))
      else map_option (\<lambda>(a, b). (c # a, b)) (partition_at sep s))"

definition deliverable_candidate :: "string \<Rightarrow> string" where
  "deliverable_candidate line =
     (if starts_with line ''-'' \<or> starts_with line ''*'' then strip (drop 1 line)
      else (case partition_at ''. '' line of
          Some (number, remainder) \<Rightarrow> if all_digits number then strip remainder else line
        | None \<Rightarrow> line))"

definition unsafe_candidate :: "string \<Rightarrow> bool" where
  "unsafe_candidate candidate =
     (starts_with candidate ''/'' \<or> CHR 0x5C \<in> set candidate \<or> ''..'' \<in> set (path_parts candidate)
      \<or> path_parts candidate = [] \<or> hd (path_parts candidate) = ''.git'')"

fun deliverable_lines :: "bool \<Rightarrow> string list \<Rightarrow> mission_error + string list" where
  "deliverable_lines found [] = Inr []"
| "deliverable_lines found (raw # lines) = (let line = strip raw in
     if lower (strip (lstrip_of (\<lambda>c. c = CHR ''#'') line)) = ''deliverables''
     then deliverable_lines True lines
     else if \<not> found \<or> line = [] then deliverable_lines found lines
     else if starts_with line ''#'' then Inr []
     else let candidate = deliverable_candidate line in
       if candidate = [] then deliverable_lines found lines
       else if unsafe_candidate candidate then Inl (UnsafeDeliverable candidate)
       else ebind (deliverable_lines found lines) (\<lambda>ds.
         Inr (join_with ''/'' (path_parts candidate) # ds)))"

definition extract_deliverables :: "string \<Rightarrow> mission_error + string list" where
  "extract_deliverables mission =
     ebind (deliverable_lines False (splitlines mission)) (\<lambda>ds.
     if ds = [] then Inl NoDeliverables else Inr (dedup ds))"

section \<open>The answer of the model\<close>

definition parse_generation :: "string \<Rightarrow> mission_error + pyval dict" where
  "parse_generation content =
     (let cleaned = strip content;
          lines = splitlines cleaned;
          body = (if starts_with cleaned ''```'' \<and> 3 \<le> length lines
                  then strip (join_with [CHR 10] (butlast (tl lines))) else cleaned)
      in (case json_loads body of
           None \<Rightarrow> Inl NotJson
         | Some (PDict d) \<Rightarrow> (case dget d ''files'' of
               PList (v # vs) \<Rightarrow> Inr d
             | _ \<Rightarrow> Inl NoFilesList)
         | Some _ \<Rightarrow> Inl RootNotObject))"

definition forbidden_fragments :: "string list" where
  "forbidden_fragments = [''OPENAI_API_KEY='', ''sk-proj-'', ''BEGIN PRIVATE KEY'', ''os.system('',
     ''subprocess.Popen('', ''eval('', ''exec('']"

definition validate_generated_file ::
  "file_path \<Rightarrow> (string \<Rightarrow> file_path) \<Rightarrow> string list \<Rightarrow> pyval dict \<Rightarrow> mission_error + (file_path \<times> string)" where
  "validate_generated_file root resolve deliverables entry =
     (case dget entry ''path'' of
        PStr relative \<Rightarrow>
          if relative \<notin> set deliverables then Inl (OutsideAllowlist relative)
          else (case dget entry ''content'' of
              PStr content \<Rightarrow>
                if strip content = [] then Inl (EmptyFile relative)
                else let destination = resolve relative in
                  if \<not> strict_prefix root destination then Inl (EscapesRepository relative)
                  else (case find (contains content) forbidden_fragments of
                      Some fragment \<Rightarrow> Inl (ForbiddenContent relative fragment)
                    | None \<Rightarrow> Inr (destination, content))
            | _ \<Rightarrow> Inl (EmptyFile relative))
      | _ \<Rightarrow> Inl PathNotString)"

section \<open>Writing\<close>

definition manifest_path :: "string" where
  "manifest_path = ''agent/policies/core_lock_manifest.json''"

definition relative_to :: "file_path \<Rightarrow> file_path \<Rightarrow> string" where
  "relative_to root destination = join_with ''/'' (drop (length root) destination)"

definition temporary :: "file_path \<Rightarrow> file_path" where
  "temporary destination = butlast destination @ [last destination @ ''.tmp'']"

text \<open>\<open>temporary.write_text(...)\<close> and \<open>temporary.replace(destination)\<close>.\<close>

definition replace_file :: "file_path \<Rightarrow> string \<Rightarrow> file_table \<Rightarrow> file_table" where
  "replace_file destination content files =
     (let written = AList.update (temporary destination)
            (rstrip_of py_space content @ [CHR 10]) files
      in AList.update destination (rstrip_of py_space content @ [CHR 10])
           (AList.delete (temporary destination) written))"

definition protection_of ::
  "(string \<Rightarrow> file_path) \<Rightarrow> file_table \<Rightarrow> manifest_error + core_config" where
  "protection_of resolve files =
     load_core_lock_manifest (\<lambda>p. map_of files (resolve p)) manifest_path"

definition write_entry ::
  "file_path \<Rightarrow> (string \<Rightarrow> file_path) \<Rightarrow> string list \<Rightarrow> string \<Rightarrow> string list \<Rightarrow> pyval \<Rightarrow>
   (file_table, mission_error, string \<times> file_path) action" where
  "write_entry root resolve deliverables mission generated entry =
     (case entry of
        PDict e \<Rightarrow>
          mbind (mlift (validate_generated_file root resolve deliverables e)) (\<lambda>(destination, content).
          let relative = relative_to root destination in
          mbind mget (\<lambda>files.
          case protection_of resolve files of
            Inl _ \<Rightarrow> mraise ProtectionUnavailable
          | Inr config \<Rightarrow>
              let decision = validate_mission_write relative mission config in
              mbind (mcheck (pd_allowed decision)
                (ProtectionLocked (case pd_code decision of
                   Some (c # cs) \<Rightarrow> c # cs | _ \<Rightarrow> ''CORE_PATH_LOCKED''))) (\<lambda>_.
              mbind (mcheck (relative \<notin> set generated) (DuplicateFile relative)) (\<lambda>_.
              mbind (mput (replace_file destination content)) (\<lambda>_.
              mret (relative, destination))))))
      | _ \<Rightarrow> mraise EntryNotObject)"

fun write_entries ::
  "file_path \<Rightarrow> (string \<Rightarrow> file_path) \<Rightarrow> string list \<Rightarrow> string \<Rightarrow> string list \<Rightarrow> pyval list \<Rightarrow>
   (file_table, mission_error, string list \<times> file_path list) action" where
  "write_entries root resolve deliverables mission generated [] = mret (generated, [])"
| "write_entries root resolve deliverables mission generated (entry # entries) =
     mbind (write_entry root resolve deliverables mission generated entry) (\<lambda>(relative, destination).
     mbind (write_entries root resolve deliverables mission (relative # generated) entries)
       (\<lambda>(all, written). mret (all, destination # written)))"

text \<open>The data comes from \<open>parse_generation\<close>, so \<open>files\<close> is a list.\<close>

definition generated_entries :: "pyval dict \<Rightarrow> pyval list" where
  "generated_entries data = (case dget data ''files'' of PList vs \<Rightarrow> vs | _ \<Rightarrow> [])"

definition write_generated_files ::
  "file_path \<Rightarrow> (string \<Rightarrow> file_path) \<Rightarrow> string list \<Rightarrow> string \<Rightarrow> pyval dict \<Rightarrow>
   (file_table, mission_error, file_path list) action" where
  "write_generated_files root resolve deliverables mission data =
     mbind (write_entries root resolve deliverables mission [] (generated_entries data))
       (\<lambda>(generated, written).
     let missing = filter (\<lambda>d. d \<notin> set generated) deliverables in
     mbind (mcheck (missing = []) (NotGenerated (sort missing))) (\<lambda>_. mret written))"

section \<open>Deliverables are safe\<close>

definition safe_deliverable :: "string \<Rightarrow> bool" where
  "safe_deliverable d = (list_all good_segment (path_parts d) \<and> path_parts d \<noteq> [] \<and>
     hd (path_parts d) \<noteq> ''.git'' \<and> d = join_with ''/'' (path_parts d))"

lemma path_parts_join:
  "list_all good_segment ps \<Longrightarrow> ps \<noteq> [] \<Longrightarrow> path_parts (join_with ''/'' ps) = ps"
  using good_segments [of ps]
  by (simp add: path_parts_def split_on_join filter_id_conv list_all_iff good_segment_def)

lemma path_parts_good:
  assumes "CHR 0x5C \<notin> set s" "''..'' \<notin> set (path_parts s)"
  shows "list_all good_segment (path_parts s)"
proof -
  have "good_segment p" if p: "p \<in> set (path_parts s)" for p
  proof -
    have m: "p \<in> set (split_on (CHR ''/'') s)" and ne: "p \<noteq> []" "p \<noteq> ''.''"
      using p by (auto simp: path_parts_def)
    then have "CHR ''/'' \<notin> set p" "set p \<subseteq> set s" by (auto dest: split_on_no_sep split_on_subset)
    then show ?thesis using ne assms p by (auto simp: good_segment_def)
  qed
  then show ?thesis by (simp add: list_all_iff)
qed

lemma deliverable_lines_safe:
  "deliverable_lines found lines = Inr ds \<Longrightarrow> d \<in> set ds \<Longrightarrow> safe_deliverable d"
proof (induction found lines arbitrary: ds rule: deliverable_lines.induct)
  case (1 found)
  then show ?case by simp
next
  case (2 found raw lines)
  let ?line = "strip raw"
  let ?c = "deliverable_candidate ?line"
  consider (heading) "lower (strip (lstrip_of (\<lambda>c. c = CHR ''#'') ?line)) = ''deliverables''"
    | (skip) "lower (strip (lstrip_of (\<lambda>c. c = CHR ''#'') ?line)) \<noteq> ''deliverables''"
        "\<not> found \<or> ?line = []"
    | (item) "lower (strip (lstrip_of (\<lambda>c. c = CHR ''#'') ?line)) \<noteq> ''deliverables''"
        "found" "?line \<noteq> []" by blast
  then show ?case
  proof cases
    case heading
    then show ?thesis using 2 by (simp add: Let_def)
  next
    case skip
    then show ?thesis using 2 by (auto simp: Let_def)
  next
    case item
    show ?thesis
    proof (cases "starts_with ?line ''#'' \<or> ?c = []")
      case True
      then show ?thesis using 2 item by (auto simp: Let_def split: if_splits)
    next
      case False
      with 2 item obtain ds' where safe: "\<not> unsafe_candidate ?c"
          and rest: "deliverable_lines found lines = Inr ds'"
          and ds: "ds = join_with ''/'' (path_parts ?c) # ds'"
        by (auto simp: Let_def err_simps split: if_splits)
      have g: "list_all good_segment (path_parts ?c)"
        using safe by (intro path_parts_good) (auto simp: unsafe_candidate_def)
      have ne: "path_parts ?c \<noteq> []" "hd (path_parts ?c) \<noteq> ''.git''"
        using safe by (auto simp: unsafe_candidate_def)
      have "safe_deliverable (join_with ''/'' (path_parts ?c))"
        by (simp add: safe_deliverable_def path_parts_join g ne)
      moreover have "safe_deliverable d" if "d \<in> set ds'"
        using item False safe
        by (intro "2.IH"(4) [OF refl _ _ _ refl _ _ rest that]) auto
      ultimately show ?thesis using ds "2.prems"(2) by auto
    qed
  qed
qed

lemma extracted_safe:
  "extract_deliverables mission = Inr ds \<Longrightarrow> ds \<noteq> [] \<and> distinct ds \<and> (\<forall>d \<in> set ds. safe_deliverable d)"
  by (auto simp: extract_deliverables_def err_simps dedup_def split: if_splits
      dest: deliverable_lines_safe)

section \<open>What writing changes\<close>

lemma map_of_replace_file:
  "q \<noteq> destination \<Longrightarrow> q \<noteq> temporary destination \<Longrightarrow>
   map_of (replace_file destination content files) q = map_of files q"
  by (simp add: replace_file_def)

text \<open>One entry either changes nothing or replaces one file the protection in force allows.\<close>

definition allowed_write ::
  "file_path \<Rightarrow> (string \<Rightarrow> file_path) \<Rightarrow> string list \<Rightarrow> string \<Rightarrow> core_config \<Rightarrow> file_path \<Rightarrow> bool" where
  "allowed_write root resolve deliverables mission config destination =
     (strict_prefix root destination \<and> destination \<in> resolve ` set deliverables \<and>
      pd_allowed (validate_mission_write (relative_to root destination) mission config))"

lemma validated_file:
  assumes "validate_generated_file root resolve deliverables e = Inr (destination, content)"
  shows "strict_prefix root destination" "destination \<in> resolve ` set deliverables"
    "strip content \<noteq> []" "\<forall>f \<in> set forbidden_fragments. \<not> contains content f"
  using assms
  by (auto simp: validate_generated_file_def Let_def find_None_iff split: pyval.splits if_splits option.splits)

lemma write_entry_effect:
  assumes "write_entry root resolve deliverables mission generated entry files = (r, files')"
  shows "files' = files \<or> (\<exists>destination content config.
      allowed_write root resolve deliverables mission config destination \<and>
      protection_of resolve files = Inr config \<and> files' = replace_file destination content files)"
proof (cases entry)
  case (PDict e)
  show ?thesis
  proof (cases "validate_generated_file root resolve deliverables e")
    case (Inl err)
    with assms show ?thesis by (simp add: write_entry_def PDict)
  next
    case (Inr dc)
    obtain destination content where dc: "dc = (destination, content)" by (cases dc)
    note v = validated_file [OF Inr [unfolded dc]]
    show ?thesis
    proof (cases "protection_of resolve files")
      case (Inl err)
      with assms Inr dc show ?thesis by (simp add: write_entry_def PDict Let_def)
    next
      case prot: (Inr config)
      with assms Inr dc v(1,2) show ?thesis
        by (auto simp: write_entry_def PDict Let_def allowed_write_def split: if_splits)
    qed
  qed
qed (use assms in \<open>simp_all add: write_entry_def\<close>)

text \<open>A property of the files that every allowed replacement keeps holds at the end, however the
  writing ends.\<close>

lemma write_entries_keep:
  assumes step: "\<And>destination content config files. Q files \<Longrightarrow>
      allowed_write root resolve deliverables mission config destination \<Longrightarrow>
      protection_of resolve files = Inr config \<Longrightarrow> Q (replace_file destination content files)"
    and "Q files"
    and "write_entries root resolve deliverables mission generated entries files = (r, files')"
  shows "Q files'"
  using assms(2,3)
proof (induction entries arbitrary: generated files r files')
  case Nil
  then show ?case by simp
next
  case (Cons entry entries)
  obtain r1 files1 where e: "write_entry root resolve deliverables mission generated entry files = (r1, files1)"
    by (cases "write_entry root resolve deliverables mission generated entry files")
  have q: "Q files1"
    using write_entry_effect [OF e] Cons.prems(1) step by blast
  show ?case
  proof (cases r1)
    case (Inl err)
    with Cons.prems(2) e q show ?thesis by simp
  next
    case (Inr x)
    obtain relative destination where x: "x = (relative, destination)" by (cases x)
    obtain r2 files2 where rest: "write_entries root resolve deliverables mission (relative # generated)
        entries files1 = (r2, files2)"
      by (cases "write_entries root resolve deliverables mission (relative # generated) entries files1")
    have "Q files2" using Cons.IH [OF q rest] .
    then show ?thesis
      using Cons.prems(2) e Inr x rest by (cases r2) (auto simp: mbind_def)
  qed
qed

lemma write_files_run:
  assumes "write_generated_files root resolve deliverables mission data files = (r, files')"
  obtains r' where
    "write_entries root resolve deliverables mission [] (generated_entries data) files = (r', files')"
proof -
  obtain r1 files1 where
    e: "write_entries root resolve deliverables mission [] (generated_entries data) files = (r1, files1)"
    by (cases "write_entries root resolve deliverables mission [] (generated_entries data) files")
  then have "files1 = files'"
    using assms by (cases r1) (auto simp: write_generated_files_def Let_def split: if_splits)
  with e that show thesis by blast
qed

lemma prefix_parts: "strict_prefix root p \<Longrightarrow> p = root @ drop (length root) p \<and> drop (length root) p \<noteq> []"
  by (auto elim!: strict_prefixE')

lemma temporary_not_manifest: "temporary p \<noteq> root @ path_segments manifest_path"
proof
  assume eq: "temporary p = root @ path_segments manifest_path"
  have "path_segments manifest_path = [''agent'', ''policies'', ''core_lock_manifest.json'']"
    by (simp add: path_segments_def manifest_path_def slashes_def push_segment_def)
  then have "last (root @ path_segments manifest_path) = ''core_lock_manifest.json''" by simp
  moreover have "last (temporary p) = last p @ ''.tmp''" by (simp add: temporary_def)
  ultimately have "rev (last p @ ''.tmp'') = rev ''core_lock_manifest.json''" using eq by simp
  then show False by simp
qed

text \<open>The files \<open>fs\<close> differ from \<open>files\<close> only in unprotected deliverables and the temporary files
  beside them, and the manifest is as it was.\<close>

definition unprotected_deliverable ::
  "file_path \<Rightarrow> (string \<Rightarrow> file_path) \<Rightarrow> string list \<Rightarrow> core_config \<Rightarrow> file_path \<Rightarrow> bool" where
  "unprotected_deliverable root resolve deliverables config p =
     (\<exists>d \<in> set deliverables. \<exists>relative. resolve d = root @ relative \<and> relative \<noteq> [] \<and>
        classify_protected_path (join_with ''/'' relative) config = Unprotected \<and>
        (p = resolve d \<or> p = temporary (resolve d)))"

definition core_untouched ::
  "file_path \<Rightarrow> (string \<Rightarrow> file_path) \<Rightarrow> string list \<Rightarrow> core_config \<Rightarrow> file_table \<Rightarrow> file_table \<Rightarrow> bool" where
  "core_untouched root resolve deliverables config files fs \<longleftrightarrow>
     map_of fs (resolve manifest_path) = map_of files (resolve manifest_path) \<and>
     (\<forall>p. map_of fs p \<noteq> map_of files p \<longrightarrow> unprotected_deliverable root resolve deliverables config p)"

lemma core_untouched_refl [simp]: "core_untouched root resolve deliverables config files files"
  by (simp add: core_untouched_def)

text \<open>The manifest in force is protected, is reached without symbolic links, and the mission has no
  maintenance marker for it.\<close>

definition core_locked ::
  "file_path \<Rightarrow> (string \<Rightarrow> file_path) \<Rightarrow> core_config \<Rightarrow> string \<Rightarrow> file_table \<Rightarrow> bool" where
  "core_locked root resolve config mission files \<longleftrightarrow>
     protection_of resolve files = Inr config \<and>
     resolve manifest_path = root @ path_segments manifest_path \<and>
     classify_protected_path manifest_path config \<noteq> Unprotected \<and>
     \<not> has_core_marker mission config"

lemma untouched_protection:
  "core_locked root resolve config mission files \<Longrightarrow>
   core_untouched root resolve deliverables config files fs \<Longrightarrow> protection_of resolve fs = Inr config"
  unfolding core_locked_def core_untouched_def protection_of_def load_core_lock_manifest_def by metis

lemma allowed_write_unprotected:
  assumes "core_locked root resolve config mission files"
    and "allowed_write root resolve deliverables mission config dest"
  shows "unprotected_deliverable root resolve deliverables config dest"
    "unprotected_deliverable root resolve deliverables config (temporary dest)"
    "resolve manifest_path \<noteq> dest" "resolve manifest_path \<noteq> temporary dest"
proof -
  have free: "classify_protected_path (relative_to root dest) config = Unprotected"
    using assms
    by (auto simp: allowed_write_def core_locked_def write_allowed_iff split: protection_kind.splits)
  have mem: "dest \<in> resolve ` set deliverables" and pre: "strict_prefix root dest"
    using assms(2) by (auto simp: allowed_write_def)
  show "unprotected_deliverable root resolve deliverables config dest"
    "unprotected_deliverable root resolve deliverables config (temporary dest)"
    using mem prefix_parts [OF pre] free
    unfolding unprotected_deliverable_def relative_to_def by blast+
  have res: "resolve manifest_path = root @ path_segments manifest_path"
    using assms(1) by (simp add: core_locked_def)
  then show "resolve manifest_path \<noteq> temporary dest"
    using temporary_not_manifest [of dest root] by simp
  show "resolve manifest_path \<noteq> dest"
  proof
    assume "resolve manifest_path = dest"
    then have "relative_to root dest = normalize_repo_path manifest_path"
      by (auto simp: relative_to_def res normalize_repo_path_def)
    then show False using free assms(1) by (simp add: core_locked_def)
  qed
qed

lemma write_keeps_core:
  assumes lock: "core_locked root resolve config mission files"
    and keep: "core_untouched root resolve deliverables config files fs"
    and run: "write_generated_files root resolve deliverables mission data fs = (r, fs')"
  shows "core_untouched root resolve deliverables config files fs'"
proof -
  obtain r' where w:
    "write_entries root resolve deliverables mission [] (generated_entries data) fs = (r', fs')"
    using write_files_run [OF run] .
  show ?thesis
  proof (rule write_entries_keep [where Q = "core_untouched root resolve deliverables config files", OF _ keep w])
    fix dest content cfg gs
    assume q: "core_untouched root resolve deliverables config files gs"
      and a: "allowed_write root resolve deliverables mission cfg dest"
      and c: "protection_of resolve gs = Inr cfg"
    have "cfg = config" using untouched_protection [OF lock q] c by simp
    with a have "allowed_write root resolve deliverables mission config dest" by simp
    note w = allowed_write_unprotected [OF lock this]
    show "core_untouched root resolve deliverables config files (replace_file dest content gs)"
      unfolding core_untouched_def
    proof (intro conjI allI impI)
      show "map_of (replace_file dest content gs) (resolve manifest_path) = map_of files (resolve manifest_path)"
        using q w(3,4) by (simp add: map_of_replace_file core_untouched_def)
      fix p assume "map_of (replace_file dest content gs) p \<noteq> map_of files p"
      then show "unprotected_deliverable root resolve deliverables config p"
        using q w(1,2) map_of_replace_file [of p dest content gs] unfolding core_untouched_def
        by metis
    qed
  qed
qed

text \<open>A mission whose text has no maintenance marker changes no protected path: whatever the
  model answered and however the writing ended, a file that changed is an unprotected file named
  by one of the mission's deliverables, or the temporary file beside it.  In particular the
  manifest itself stays, as long as it is protected and no symbolic link leads to it.\<close>

theorem unmarked_mission_leaves_core:
  assumes "core_locked root resolve config mission files"
    and "write_generated_files root resolve deliverables mission data files = (r, files')"
    and "map_of files' p \<noteq> map_of files p"
  shows "\<exists>d \<in> set deliverables. \<exists>relative. resolve d = root @ relative \<and> relative \<noteq> [] \<and>
    classify_protected_path (join_with ''/'' relative) config = Unprotected \<and>
    (p = resolve d \<or> p = temporary (resolve d))"
  using write_keeps_core [OF assms(1) core_untouched_refl assms(2)] assms(3)
  unfolding core_untouched_def unprotected_deliverable_def by blast

section \<open>A concrete run\<close>

definition demo_manifest :: "pyval dict" where
  "demo_manifest =
     [(''canonical_test_paths'', PList []),
      (''core_maintenance_marker'', PStr ''CORE''),
      (''full_suite_required_for_core_changes'', PBool True),
      (''manual_merge_required_for_core_changes'', PBool True),
      (''protected_core_paths'', PList [PStr ''agent/policies/'']),
      (''recovery_gate_required_for_core_changes'', PBool True),
      (''schema_version'', PStr ''1.0''),
      (''test_contract_maintenance_marker'', PStr ''TEST'')]"

definition demo_resolve :: "string \<Rightarrow> file_path" where
  "demo_resolve p = ''repo'' # path_segments p"

definition demo_tree :: file_table where
  "demo_tree = [(demo_resolve manifest_path, json_dumps True (PDict demo_manifest))]"

definition demo_data :: "pyval dict" where
  "demo_data = [(''files'', PList [PDict [(''content'', PStr ''x''), (''path'', PStr ''site/a.py'')]])]"

lemmas segment_simps = path_segments_def slashes_def push_segment_def

lemma demo_manifest_sorted: "json_sort (PDict demo_manifest) = PDict demo_manifest"
  by (simp add: demo_manifest_def)

lemma demo_manifest_wf: "json_wf (PDict demo_manifest)"
  by (simp add: demo_manifest_def)

lemma demo_manifest_valid: "validate_manifest_types demo_manifest = Inr ()"
  by (simp add: validate_manifest_types_def manifest_fields_def check_field_def demo_manifest_def
      dedup_def)

lemma demo_config:
  "config_of_manifest demo_manifest =
   \<lparr>cc_schema = ''1.0'', cc_core = [''agent/policies''], cc_canonical = [], cc_core_marker = ''CORE'',
    cc_test_marker = ''TEST'', cc_manual_merge = True, cc_full_suite = True, cc_recovery_gate = True\<rparr>"
  by (simp add: config_of_manifest_def demo_manifest_def strings_at_def flag_at_def dget_def
      normalize_manifest_paths_def normalize_repo_path_def segment_simps)

lemma demo_protection:
  "protection_of demo_resolve demo_tree = Inr (config_of_manifest demo_manifest)"
proof -
  have "py_str (dget demo_manifest ''schema_version'') = ''1.0''"
    by (simp add: demo_manifest_def dget_def)
  then show ?thesis
    using json_loads_dumps [OF demo_manifest_wf, of True, unfolded demo_manifest_sorted]
    by (simp add: protection_of_def load_core_lock_manifest_def demo_tree_def demo_manifest_valid)
qed

lemma demo_locked:
  "core_locked [''repo''] demo_resolve (config_of_manifest demo_manifest) [] demo_tree"
  unfolding core_locked_def
proof (intro conjI)
  show "protection_of demo_resolve demo_tree = Inr (config_of_manifest demo_manifest)"
    by (rule demo_protection)
  show "demo_resolve manifest_path = [''repo''] @ path_segments manifest_path"
    by (simp add: demo_resolve_def)
  show "classify_protected_path manifest_path (config_of_manifest demo_manifest) \<noteq> Unprotected"
    by (simp add: demo_config classify_protected_path_def canonical_test_match_def is_within_dir_def
        normalize_repo_path_def segment_simps ends_with_single starts_with_def manifest_path_def)
  show "\<not> has_core_marker [] (config_of_manifest demo_manifest)"
    by (simp add: has_core_marker_def has_exact_marker_line_def splitlines.simps)
qed

lemma demo_write:
  "write_generated_files [''repo''] demo_resolve [''site/a.py''] mission demo_data demo_tree =
   (Inr [[''repo'', ''site'', ''a.py'']],
    replace_file [''repo'', ''site'', ''a.py''] ''x'' demo_tree)"
proof -
  let ?c = "config_of_manifest demo_manifest"
  have res: "demo_resolve ''site/a.py'' = [''repo'', ''site'', ''a.py'']"
    by (simp add: demo_resolve_def segment_simps)
  have valid: "validate_generated_file [''repo''] demo_resolve [''site/a.py'']
      [(''content'', PStr ''x''), (''path'', PStr ''site/a.py'')] = Inr ([''repo'', ''site'', ''a.py''], ''x'')"
    by (simp add: validate_generated_file_def dget_def res forbidden_fragments_def starts_with_def
        strip_def py_space_def strict_prefix_def)
  have "classify_protected_path ''site/a.py'' ?c = Unprotected"
    by (simp add: demo_config classify_protected_path_def canonical_test_match_def is_within_dir_def
        normalize_repo_path_def segment_simps ends_with_single starts_with_def)
  then have "pd_allowed (validate_mission_write ''site/a.py'' mission ?c)"
    by (simp add: write_allowed_iff)
  then show ?thesis
    by (simp add: write_generated_files_def generated_entries_def demo_data_def dget_def write_entry_def
        valid demo_protection relative_to_def Let_def mbind_def)
qed

lemma demo_changed:
  "map_of (replace_file [''repo'', ''site'', ''a.py''] ''x'' demo_tree) [''repo'', ''site'', ''a.py''] \<noteq>
   map_of demo_tree [''repo'', ''site'', ''a.py'']"
  by (simp add: replace_file_def demo_tree_def demo_resolve_def segment_simps manifest_path_def)

theorem unmarked_mission_leaves_core_witness:
  "\<exists>d \<in> set [''site/a.py'']. \<exists>relative. demo_resolve d = [''repo''] @ relative \<and> relative \<noteq> [] \<and>
    classify_protected_path (join_with ''/'' relative) (config_of_manifest demo_manifest) = Unprotected \<and>
    ([''repo'', ''site'', ''a.py''] = demo_resolve d \<or>
     [''repo'', ''site'', ''a.py''] = temporary (demo_resolve d))"
  by (rule unmarked_mission_leaves_core [OF demo_locked demo_write demo_changed])

end
