(* ===== verification/SelfHealing.thy ===== *)
theory SelfHealing
  imports RepairAdapter MissionWriter
begin

text \<open>
  \<^verbatim>\<open>agent/ai/mission_runner.py\<close>: validation of a mission's output with self-healing.  The client of
  the repair adapter: its validator runs the commands, its generator asks the model again, its
  apply callback writes the new answer through the checked writer of \<open>MissionWriter\<close>.

  The commands and the model are arguments, methods on a state \<open>'g\<close> of their own.  A command
  returns \<open>None\<close> or the text of the \<open>CalledProcessError\<close>; what commands do to files is not
  modelled.
\<close>

section \<open>Data\<close>

record 'g healing_env =
  he_stem :: string
  he_root :: file_path
  he_resolve :: "string \<Rightarrow> file_path"
  he_python :: string
  he_command :: "string list \<Rightarrow> file_table \<Rightarrow> 'g \<Rightarrow> string option \<times> 'g"
  he_generate :: "string \<Rightarrow> repair_request \<Rightarrow> ('g, py_exception, string option) action"

record 'g healing_world =
  hw_files :: file_table
  hw_written :: "file_path list"
  hw_model :: 'g

datatype healing_error = Mission mission_error | SelfHealingBlocked | SelfHealingExhausted

section \<open>Validation of files\<close>

definition path_text :: "file_path \<Rightarrow> string" where
  "path_text p = CHR ''/'' # join_with ''/'' p"

definition is_python_file :: "file_path \<Rightarrow> bool" where
  "is_python_file p = (ends_with (last p) ''.py'' \<and> 3 < length (last p))"

definition compile_command :: "string \<Rightarrow> file_path list \<Rightarrow> string list" where
  "compile_command python files = [python, ''-m'', ''py_compile''] @ map path_text files"

definition unittest_command :: "string \<Rightarrow> string list" where
  "unittest_command python = [python, ''-m'', ''unittest'', ''discover'', ''-s'', ''agent/tests'',
     ''-p'', ''test_*.py'', ''-v'']"

text \<open>The failed command with the error's text, or nothing.\<close>

definition validate_generated_files ::
  "'g healing_env \<Rightarrow> 'g healing_world \<Rightarrow> (string list \<times> string) option \<times> 'g healing_world" where
  "validate_generated_files env w =
     (let python_files = filter is_python_file (hw_written w);
          compile = compile_command (he_python env) python_files;
          (e1, g1) = (if python_files = [] then (None, hw_model w)
            else he_command env compile (hw_files w) (hw_model w))
      in case e1 of
           Some t \<Rightarrow> (Some (compile, t), w\<lparr>hw_model := g1\<rparr>)
         | None \<Rightarrow>
             (let tests = unittest_command (he_python env);
                  (e2, g2) = he_command env tests (hw_files w) g1
              in (map_option (\<lambda>t. (tests, t)) e2, w\<lparr>hw_model := g2\<rparr>)))"

definition validation_failure_category :: "string list \<Rightarrow> string" where
  "validation_failure_category parts =
     (if ''py_compile'' \<in> set parts then ''python-compilation-failure''
      else if ''unittest'' \<in> set parts then ''unittest-failure''
      else ''generated-validation-failure'')"

definition safe_summary :: "string \<Rightarrow> string" where
  "safe_summary category =
     (if category = ''python-compilation-failure''
      then ''Generated mission output failed Python compilation.''
      else if category = ''unittest-failure''
      then ''Generated mission output failed the repository unittest validation.''
      else ''Generated mission output failed repository validation.'')"

section \<open>The callbacks\<close>

definition validation_callback :: "'g healing_env \<Rightarrow> ('g healing_world, py_exception, pyval) action" where
  "validation_callback env w = (case validate_generated_files env w of
       (None, w') \<Rightarrow> (Inr (PBool True), w')
     | (Some (_, t), w') \<Rightarrow> (Inl (''CalledProcessError'', t), w'))"

definition repair_description :: "string \<Rightarrow> repair_request \<Rightarrow> string" where
  "repair_description stem request =
     ''Repair generated output for mission '' @ stem @ ''.'' @ [CHR 10] @
     ''Repair attempt: '' @ int_str (rr_attempt request) @ ''.'' @ [CHR 10] @
     ''Failure category: '' @ rr_category request @ ''.'' @ [CHR 10] @
     ''Safe failure summary: '' @ rr_summary request @ ''.'' @ [CHR 10] @
     ''Allowed deliverables: '' @ join_with '', '' (rr_allowed request) @ ''.'' @ [CHR 10] @
     ''Modify only the allowed deliverables. '' @
     ''Do not add files. Do not modify protected Core paths unless they '' @
     ''are already explicitly present in the original mission deliverables. '' @
     ''Return the complete corrected deliverable set as the normal '' @
     ''mission JSON files response.''"

definition generation_callback ::
  "'g healing_env \<Rightarrow> repair_request \<Rightarrow> ('g healing_world, py_exception, pyval) action" where
  "generation_callback env request w =
     (case he_generate env (repair_description (he_stem env) request) request (hw_model w) of
        (Inl e, g) \<Rightarrow> (Inl e, w\<lparr>hw_model := g\<rparr>)
      | (Inr None, g) \<Rightarrow> (Inr (PDict [(''success'', PBool False),
            (''error'', PStr ''Repair generation failed.'')]), w\<lparr>hw_model := g\<rparr>)
      | (Inr (Some content), g) \<Rightarrow> (case parse_generation content of
            Inl _ \<Rightarrow> (Inr (PDict [(''success'', PBool False),
              (''error'', PStr ''Repair response was not valid mission JSON.'')]), w\<lparr>hw_model := g\<rparr>)
          | Inr data \<Rightarrow> (Inr (PDict [(''success'', PBool True), (''data'', PDict data)]),
              w\<lparr>hw_model := g\<rparr>)))"

text \<open>The texts of the errors the writer raises.\<close>

definition mission_error_text :: "mission_error \<Rightarrow> string" where
  "mission_error_text e = (case e of
       PathNotString \<Rightarrow> ''Generated file path must be a string.''
     | OutsideAllowlist p \<Rightarrow> ''Generated path is outside the allowlist: '' @ p
     | EmptyFile p \<Rightarrow> ''Generated file is empty: '' @ p
     | EscapesRepository p \<Rightarrow> ''Generated path escapes repository: '' @ p
     | ForbiddenContent p f \<Rightarrow> ''Forbidden content in '' @ p @ '': '' @ f
     | EntryNotObject \<Rightarrow> ''Every generated file entry must be an object.''
     | ProtectionUnavailable \<Rightarrow> ''CORE_PROTECTION_UNAVAILABLE''
     | ProtectionLocked code \<Rightarrow> code
     | DuplicateFile p \<Rightarrow> ''Duplicate generated file: '' @ p
     | NotGenerated ds \<Rightarrow> ''AI did not generate all deliverables: '' @ py_repr (PList (map PStr ds))
     | UnsafeDeliverable c \<Rightarrow> ''Unsafe deliverable path: '' @ c
     | NoDeliverables \<Rightarrow> ''No valid repository-relative deliverables were found in the mission.''
     | NotJson \<Rightarrow> ''AI response was not valid JSON: ''
     | RootNotObject \<Rightarrow> ''AI response root must be an object.''
     | NoFilesList \<Rightarrow> ''AI response must contain a non-empty files list.'')"

definition apply_callback ::
  "'g healing_env \<Rightarrow> string list \<Rightarrow> string \<Rightarrow> pyval \<Rightarrow> ('g healing_world, py_exception, pyval) action" where
  "apply_callback env deliverables mission payload w = (case payload of
       PDict p \<Rightarrow> (case dget p ''data'' of
           PDict data \<Rightarrow>
             (case write_generated_files (he_root env) (he_resolve env) deliverables mission data
                 (hw_files w) of
                (Inr written, files) \<Rightarrow> (Inr (PBool True), w\<lparr>hw_files := files, hw_written := written\<rparr>)
              | (Inl e, files) \<Rightarrow>
                  (Inl (''MissionError'', mission_error_text e), w\<lparr>hw_files := files\<rparr>))
         | _ \<Rightarrow> (Inr (PBool False), w))
     | _ \<Rightarrow> (Inr (PBool False), w))"

definition healing_job ::
  "'g healing_env \<Rightarrow> string list \<Rightarrow> string \<Rightarrow> string \<Rightarrow> 'g healing_world repair_job" where
  "healing_job env deliverables mission category =
     \<lparr>jb_mission = he_stem env,
      jb_objective = ''Repair generated validation failure for '' @ he_stem env,
      jb_category = category, jb_summary = safe_summary category,
      jb_allowed = sort deliverables, jb_denied = [], jb_required = True, jb_blocks = [],
      jb_validate = Some (validation_callback env),
      jb_generate = Some (generation_callback env),
      jb_apply = Some (apply_callback env deliverables mission)\<rparr>"

section \<open>The run\<close>

definition validate_with_self_healing ::
  "'g healing_env \<Rightarrow> string list \<Rightarrow> string \<Rightarrow> ('g healing_world, healing_error, file_path list) action" where
  "validate_with_self_healing env deliverables mission w =
     (case validate_generated_files env w of
        (None, w1) \<Rightarrow> (Inr (hw_written w1), w1)
      | (Some (command, _), w1) \<Rightarrow>
          (case adapter_run (healing_job env deliverables mission (validation_failure_category command)) w1 of
             (res, w2) \<Rightarrow>
               if ar_status res = ''succeeded'' then (Inr (hw_written w2), w2)
               else if ar_status res = ''blocked'' then (Inl SelfHealingBlocked, w2)
               else (Inl SelfHealingExhausted, w2)))"

text \<open>The part of \<open>run_mission\<close> between the two calls of the generator and of git: the answer
  \<open>content\<close> is parsed, written, validated and healed.\<close>

definition produce_output ::
  "'g healing_env \<Rightarrow> string \<Rightarrow> string \<Rightarrow> ('g healing_world, healing_error, file_path list) action" where
  "produce_output env mission content w = (case extract_deliverables mission of
       Inl e \<Rightarrow> (Inl (Mission e), w)
     | Inr deliverables \<Rightarrow> (case parse_generation content of
           Inl e \<Rightarrow> (Inl (Mission e), w)
         | Inr data \<Rightarrow>
             (case write_generated_files (he_root env) (he_resolve env) deliverables mission data
                 (hw_files w) of
                (Inl e, files) \<Rightarrow> (Inl (Mission e), w\<lparr>hw_files := files\<rparr>)
              | (Inr written, files) \<Rightarrow>
                  validate_with_self_healing env deliverables mission
                    (w\<lparr>hw_files := files, hw_written := written\<rparr>))))"

section \<open>What the callbacks keep\<close>

lemma validate_files_world:
  "hw_files (snd (validate_generated_files env w)) = hw_files w"
  "hw_written (snd (validate_generated_files env w)) = hw_written w"
  by (simp_all add: validate_generated_files_def Let_def split: prod.split option.split)

lemma validation_callback_files: "hw_files (snd (validation_callback env w)) = hw_files w"
  using validate_files_world(1) [of env w]
  by (auto simp: validation_callback_def split: prod.split option.split)

lemma generation_callback_files: "hw_files (snd (generation_callback env request w)) = hw_files w"
  by (auto simp: generation_callback_def split: prod.split sum.split option.split)

text \<open>The state predicate of the interpretation: while the core is locked, the files differ from
  those at the start only in unprotected deliverables.\<close>

definition healing_safe ::
  "'g healing_env \<Rightarrow> core_config \<Rightarrow> string \<Rightarrow> string list \<Rightarrow> file_table \<Rightarrow> 'g healing_world \<Rightarrow> bool" where
  "healing_safe env config mission deliverables files w \<longleftrightarrow>
     (core_locked (he_root env) (he_resolve env) config mission files \<longrightarrow>
      core_untouched (he_root env) (he_resolve env) deliverables config files (hw_files w))"

lemma write_keeps_safe:
  assumes "healing_safe env config mission deliverables files w"
    and "write_generated_files (he_root env) (he_resolve env) deliverables mission data (hw_files w) = (r, fs)"
    and "hw_files w' = fs"
  shows "healing_safe env config mission deliverables files w'"
  using assms write_keeps_core [OF _ _ assms(2)] by (auto simp: healing_safe_def)

lemma apply_callback_safe:
  assumes "healing_safe env config mission deliverables files w"
  shows "healing_safe env config mission deliverables files
    (snd (apply_callback env deliverables mission payload w))"
proof (cases "\<exists>p data. payload = PDict p \<and> dget p ''data'' = PDict data")
  case True
  then obtain p data where p: "payload = PDict p" "dget p ''data'' = PDict data" by blast
  obtain r fs where run: "write_generated_files (he_root env) (he_resolve env) deliverables mission data
      (hw_files w) = (r, fs)"
    by (cases "write_generated_files (he_root env) (he_resolve env) deliverables mission data (hw_files w)")
  have "hw_files (snd (apply_callback env deliverables mission payload w)) = fs"
    by (cases r) (simp_all add: apply_callback_def p run)
  then show ?thesis by (rule write_keeps_safe [OF assms run])
next
  case False
  then have "snd (apply_callback env deliverables mission payload w) = w"
    by (auto simp: apply_callback_def split: pyval.split)
  with assms show ?thesis by simp
qed

interpretation healing: kept_by_callbacks "healing_job env deliverables mission category"
    "healing_safe env config mission deliverables files"
  for env :: "'g healing_env" and deliverables mission category config files
  by unfold_locales
    (auto simp: healing_job_def healing_safe_def validation_callback_files generation_callback_files
      intro: apply_callback_safe [unfolded healing_safe_def, rule_format])

lemma self_healing_safe:
  assumes "healing_safe env config mission deliverables files w"
  shows "healing_safe env config mission deliverables files
    (snd (validate_with_self_healing env deliverables mission w))"
proof -
  obtain e w1 where v: "validate_generated_files env w = (e, w1)"
    by (cases "validate_generated_files env w")
  have w1: "healing_safe env config mission deliverables files w1"
    using assms validate_files_world(1) [of env w] by (simp add: healing_safe_def v)
  have "healing_safe env config mission deliverables files
      (snd (adapter_run (healing_job env deliverables mission c) w1))" for c
    by (rule healing.adapter_run_keeps [OF w1])
  with w1 show ?thesis
    by (auto simp: validate_with_self_healing_def v split: option.split prod.split) (metis snd_conv)+
qed


section \<open>A concrete run\<close>

definition demo_mission :: string where
  "demo_mission = ''Deliverables'' @ [CHR 10] @ ''- site/a.py''"

definition demo_answer :: string where
  "demo_answer = json_dumps True (PDict demo_data)"

definition demo_env :: "unit healing_env" where
  "demo_env = \<lparr>he_stem = ''m'', he_root = [''repo''], he_resolve = demo_resolve, he_python = ''python'',
     he_command = (\<lambda>_ _ g. (None, g)), he_generate = (\<lambda>_ _ g. (Inr None, g))\<rparr>"

definition demo_world :: "unit healing_world" where
  "demo_world = \<lparr>hw_files = demo_tree, hw_written = [], hw_model = ()\<rparr>"

lemma demo_mission_lines: "splitlines demo_mission = [''Deliverables'', ''- site/a.py'']"
  by (simp add: demo_mission_def splitlines.simps line_break_def)

lemma demo_deliverables: "extract_deliverables demo_mission = Inr [''site/a.py'']"
proof -
  have "strip ''Deliverables'' = ''Deliverables''" "strip ''- site/a.py'' = ''- site/a.py''"
      "strip '' site/a.py'' = ''site/a.py''"
    by (simp_all add: strip_def py_space_def)
  moreover have "lower ''Deliverables'' = ''deliverables''" "lower ''- site/a.py'' = ''- site/a.py''"
    by code_simp+
  ultimately show ?thesis
    by (simp add: extract_deliverables_def demo_mission_lines lstrip_of_def
        deliverable_candidate_def starts_with_def unsafe_candidate_def path_parts_def dedup_def)
qed

lemma strip_braces: "strip (CHR ''{'' # s @ [CHR ''}'']) = CHR ''{'' # s @ [CHR ''}'']"
  by (simp add: strip_def py_space_def)

lemma demo_parsed: "parse_generation demo_answer = Inr demo_data"
proof -
  have s: "json_sort (PDict demo_data) = PDict demo_data" by (simp add: demo_data_def)
  have "\<exists>t. demo_answer = CHR ''{'' # t @ [CHR ''}'']"
    by (simp add: demo_answer_def json_dumps_def s) (simp add: demo_data_def)
  then obtain t where t: "demo_answer = CHR ''{'' # t @ [CHR ''}'']" by blast
  have "json_loads demo_answer = Some (PDict demo_data)"
    using json_loads_dumps [of "PDict demo_data" True]
    unfolding s by (simp add: demo_answer_def) (simp add: demo_data_def)
  then have "json_loads (CHR ''{'' # t @ [CHR ''}'']) = Some (PDict demo_data)" by (simp only: t)
  then show ?thesis
    by (simp add: parse_generation_def t strip_braces starts_with_def)
      (simp add: demo_data_def dget_def)
qed

lemma demo_output:
  "produce_output demo_env demo_mission demo_answer demo_world =
   (Inr [[''repo'', ''site'', ''a.py'']],
    \<lparr>hw_files = replace_file [''repo'', ''site'', ''a.py''] ''x'' demo_tree,
     hw_written = [[''repo'', ''site'', ''a.py'']], hw_model = ()\<rparr>)"
  by (simp add: produce_output_def demo_deliverables demo_parsed demo_env_def demo_world_def
      demo_write validate_with_self_healing_def validate_generated_files_def is_python_file_def
      ends_with_def starts_with_def)


end
