(* ===== verification/PlanBuilder.thy ===== *)
theory PlanBuilder
  imports PyJson PyMonad DependencyCheck
begin

text \<open>
  \<^verbatim>\<open>agent/orchestrator/plan_validator_mission_builder.py\<close>: an approved request and a plan are
  checked and become missions, in an order that puts dependencies first.  Documents are JSON
  values; the generator of identifiers is an argument, a method on a state \<open>'g\<close>, and the clock's
  text another.  Where the code iterates over a set of field names, the error here does not name
  the field.
\<close>

section \<open>Data\<close>

datatype plan_error =
    InvalidApprovedRequest string
  | InvalidPlan string
  | DuplicateStep string
  | UnknownStepDependency string string
  | SelfStepDependency string
  | CircularPlan string
  | UnsafePayload string

definition approved_fields :: "string list" where
  "approved_fields = [''request_id'', ''project_id'', ''conversation_id'', ''provider_id'', ''model_id'',
     ''task_type'', ''created_at'']"

definition plan_fields :: "string list" where
  "plan_fields = [''plan_id'', ''request_id'', ''project_id'', ''summary'', ''steps'']"

definition plan_step_fields :: "string list" where
  "plan_step_fields = [''step_id'', ''title'', ''description'', ''dependencies'', ''priority'',
     ''task_type'', ''payload'']"

definition forbidden_payload_keys :: "string list" where
  "forbidden_payload_keys = [''shell'', ''command'', ''cmd'', ''bash'', ''powershell'', ''subprocess'',
     ''executable'', ''script'']"

definition sensitive_keys :: "string list" where
  "sensitive_keys = [''password'', ''passwd'', ''secret'', ''token'', ''api_key'', ''api-key'',
     ''authorization'', ''bearer'', ''credential'', ''private_key'']"

section \<open>Checks on values\<close>

definition names_text :: "string list \<Rightarrow> string" where
  "names_text ks = py_repr (PList (map PStr (sort ks)))"

definition unknown_keys :: "string list \<Rightarrow> pyval dict \<Rightarrow> string list" where
  "unknown_keys fields d = filter (\<lambda>k. k \<notin> set fields) (dedup (map fst d))"

definition has_fields :: "string list \<Rightarrow> pyval dict \<Rightarrow> bool" where
  "has_fields fields d = list_all (\<lambda>k. map_of d k \<noteq> None) fields"

definition non_empty_text :: "pyval \<Rightarrow> bool" where
  "non_empty_text v = (case v of PStr s \<Rightarrow> strip s \<noteq> [] | _ \<Rightarrow> False)"

definition ensure_identifier :: "(string \<Rightarrow> plan_error) \<Rightarrow> string \<Rightarrow> pyval \<Rightarrow> plan_error + unit" where
  "ensure_identifier err field v =
     echeck (non_empty_text v) (err (field @ '' must be a non-empty string''))"

text \<open>\<open>None\<close> accepts any non-empty task type.\<close>

definition supported_type :: "string list option \<Rightarrow> string \<Rightarrow> bool" where
  "supported_type supported t = (case supported of None \<Rightarrow> True | Some ts \<Rightarrow> t \<in> set ts)"

text \<open>The walk over a payload keeps a stack of the mappings and lists still to look at; its top is
  the head of the list here.  The queue adapter walks the same way.\<close>

definition is_nested :: "pyval \<Rightarrow> bool" where
  "is_nested v = (is_dict v \<or> is_list v)"

lemma size_list_split:
  "size_list f (xs @ ys) = size_list f xs + size_list f ys"
  "size_list f (rev xs) = size_list f xs"
  "size_list f (filter P xs) \<le> size_list f xs"
  by (induction xs) auto

lemma size_list_values: "size_list size (map snd kvs) \<le> size_list (size_prod (\<lambda>_. 0) size) kvs"
  by (induction kvs) auto

lemma nested_sizes:
  "size_list size (rev (filter P vs) @ stack) < size_list size (PList vs # stack)"
  "size_list size (rev (filter P (map snd kvs)) @ stack) < size_list size (PDict kvs # stack)"
proof -
  have le: "size_list size (filter P xs) \<le> size_list size xs" for xs :: "pyval list"
    by (rule size_list_split)
  show "size_list size (rev (filter P vs) @ stack) < size_list size (PList vs # stack)"
    using le [of vs] by (simp add: size_list_split(1,2))
  have "size_list size (filter P (map snd kvs)) \<le> size_list (size_prod (\<lambda>_. 0) size) kvs"
    by (rule order_trans [OF le size_list_values])
  then show "size_list size (rev (filter P (map snd kvs)) @ stack) < size_list size (PDict kvs # stack)"
    by (simp add: size_list_split(1,2))
qed

function forbidden_walk :: "string list \<Rightarrow> pyval list \<Rightarrow> bool" where
  "forbidden_walk keys [] = False"
| "forbidden_walk keys (v # stack) = (case v of
       PDict kvs \<Rightarrow> list_ex (\<lambda>(k, _). lower k \<in> set keys) kvs \<or>
         forbidden_walk keys (rev (filter is_nested (map snd kvs)) @ stack)
     | PList vs \<Rightarrow> forbidden_walk keys (rev (filter is_nested vs) @ stack)
     | _ \<Rightarrow> forbidden_walk keys stack)"
  by pat_completeness auto
termination
  by (relation "measure (\<lambda>(_, stack). size_list size stack)")
    (use nested_sizes in \<open>simp_all add: size_list_split\<close>)

declare forbidden_walk.simps [simp del]

definition contains_forbidden_keys :: "pyval \<Rightarrow> bool" where
  "contains_forbidden_keys payload = forbidden_walk forbidden_payload_keys [payload]"

text \<open>Every value of the model is JSON-safe, so that check has no branch here.\<close>

fun redact_value :: "pyval \<Rightarrow> pyval" where
  "redact_value (PDict kvs) = PDict (map (\<lambda>(k, v).
     (k, if lower k \<in> set sensitive_keys then PStr ''[redacted]'' else redact_value v)) kvs)"
| "redact_value (PList vs) = PList (map redact_value vs)"
| "redact_value v = v"

section \<open>The approved request\<close>

definition validate_approved_request :: "string list option \<Rightarrow> pyval \<Rightarrow> plan_error + pyval dict" where
  "validate_approved_request supported request = (case request of
       PDict d \<Rightarrow>
         let unknown = unknown_keys approved_fields d in
         if unknown \<noteq> []
         then Inl (InvalidApprovedRequest (''Unknown approved request fields: '' @ names_text unknown))
         else ebind (echeck (has_fields approved_fields d) (InvalidApprovedRequest ''Missing field'')) (\<lambda>_.
           ebind (emap (\<lambda>f. ensure_identifier InvalidApprovedRequest f (dget d f))
             [''request_id'', ''project_id'', ''conversation_id'', ''provider_id'', ''model_id'']) (\<lambda>_.
           ebind (echeck (non_empty_text (dget d ''task_type''))
             (InvalidApprovedRequest ''task_type must be a non-empty string'')) (\<lambda>_.
           ebind (echeck (supported_type supported (py_str (dget d ''task_type'')))
             (InvalidApprovedRequest (''Unsupported task_type: '' @ py_str (dget d ''task_type'')))) (\<lambda>_.
           ebind (echeck (is_str (dget d ''created_at''))
             (InvalidApprovedRequest ''created_at must be a string timestamp'')) (\<lambda>_. Inr d)))))
     | _ \<Rightarrow> Inl (InvalidApprovedRequest ''Approved request must be a mapping''))"

section \<open>The plan\<close>

definition text_list :: "pyval \<Rightarrow> string list" where
  "text_list v = (case v of PList vs \<Rightarrow> map py_str vs | _ \<Rightarrow> [])"

definition step_id_of :: "pyval dict \<Rightarrow> string" where
  "step_id_of d = py_str (dget d ''step_id'')"

definition is_integer :: "pyval \<Rightarrow> bool" where
  "is_integer v = (case v of PInt _ \<Rightarrow> True | PBool _ \<Rightarrow> True | _ \<Rightarrow> False)"

definition validate_plan_step :: "string list option \<Rightarrow> string list \<Rightarrow> pyval \<Rightarrow> plan_error + pyval dict" where
  "validate_plan_step supported seen step = (case step of
       PDict d \<Rightarrow>
         let unknown = unknown_keys plan_step_fields d; stype = dget d ''task_type'' in
         if unknown \<noteq> [] then Inl (InvalidPlan (''Unknown step fields: '' @ names_text unknown))
         else ebind (echeck (has_fields plan_step_fields d) (InvalidPlan ''Missing step field'')) (\<lambda>_.
           ebind (ensure_identifier InvalidPlan ''step.step_id'' (dget d ''step_id'')) (\<lambda>_.
           ebind (echeck (step_id_of d \<notin> set seen) (DuplicateStep (step_id_of d))) (\<lambda>_.
           ebind (echeck (is_str (dget d ''title'') \<and> is_str (dget d ''description''))
             (InvalidPlan ''Step title and description must be strings'')) (\<lambda>_.
           ebind (echeck (is_integer (dget d ''priority''))
             (InvalidPlan ''Step priority must be an integer'')) (\<lambda>_.
           ebind (echeck (non_empty_text stype)
             (InvalidPlan ''Step task_type must be a non-empty string'')) (\<lambda>_.
           ebind (echeck (supported_type supported (py_str stype))
             (InvalidPlan (''Unsupported step task_type: '' @ py_str stype))) (\<lambda>_.
           ebind (case dget d ''dependencies'' of
               PList vs \<Rightarrow> echeck (list_all non_empty_text vs)
                 (InvalidPlan ''Dependency identifiers must be non-empty strings'')
             | _ \<Rightarrow> Inl (InvalidPlan ''Step dependencies must be a list of step identifiers'')) (\<lambda>_.
           ebind (case dget d ''payload'' of
               PDict p \<Rightarrow> echeck (\<not> contains_forbidden_keys (PDict p))
                 (UnsafePayload ''Payload contains forbidden command-related keys'')
             | _ \<Rightarrow> Inl (UnsafePayload ''Step payload must be a dictionary'')) (\<lambda>_. Inr d)))))))))
     | _ \<Rightarrow> Inl (InvalidPlan ''Each step must be a mapping''))"

fun validate_plan_steps :: "string list option \<Rightarrow> string list \<Rightarrow> pyval list \<Rightarrow> plan_error + pyval dict list" where
  "validate_plan_steps supported seen [] = Inr []"
| "validate_plan_steps supported seen (v # vs) =
     ebind (validate_plan_step supported seen v) (\<lambda>d.
     ebind (validate_plan_steps supported (seen @ [step_id_of d]) vs) (\<lambda>ds. Inr (d # ds)))"

definition step_deps :: "pyval dict \<Rightarrow> string list" where
  "step_deps d = text_list (dget d ''dependencies'')"

definition check_step_dependency :: "string list \<Rightarrow> string \<Rightarrow> string \<Rightarrow> plan_error + unit" where
  "check_step_dependency ids cur dep =
     (if dep = cur then Inl (SelfStepDependency cur)
      else if dep \<notin> set ids then Inl (UnknownStepDependency cur dep) else Inr ())"

definition validate_plan_dependencies :: "pyval dict list \<Rightarrow> plan_error + unit" where
  "validate_plan_dependencies steps =
     ebind (emap (\<lambda>d. emap (check_step_dependency (map step_id_of steps) (step_id_of d)) (step_deps d)) steps)
       (\<lambda>_. Inr ())"

text \<open>The depth-first search with a visited set and a stack: a node on the stack is gray, a visited
  one off it black.\<close>

definition adjacency :: "pyval dict list \<Rightarrow> string \<Rightarrow> string list" where
  "adjacency steps i = concat (map step_deps (filter (\<lambda>d. step_id_of d = i) steps))"

definition plan_has_cycle :: "pyval dict list \<Rightarrow> bool" where
  "plan_has_cycle steps =
     (case dfs_roots (length steps) (adjacency steps) (map step_id_of steps) (\<lambda>_. White) of
        Some (Inr _) \<Rightarrow> False | _ \<Rightarrow> True)"

definition validate_plan :: "string list option \<Rightarrow> pyval \<Rightarrow> pyval dict \<Rightarrow> plan_error + pyval dict" where
  "validate_plan supported plan request = (case plan of
       PDict d \<Rightarrow>
         let unknown = unknown_keys plan_fields d in
         if unknown \<noteq> [] then Inl (InvalidPlan (''Unknown plan fields: '' @ names_text unknown))
         else ebind (echeck (has_fields plan_fields d) (InvalidPlan ''Missing plan field'')) (\<lambda>_.
           ebind (ensure_identifier InvalidPlan ''plan_id'' (dget d ''plan_id'')) (\<lambda>_.
           ebind (echeck (dget d ''request_id'' = dget request ''request_id'')
             (InvalidPlan ''Plan request_id does not match approved request'')) (\<lambda>_.
           ebind (echeck (dget d ''project_id'' = dget request ''project_id'')
             (InvalidPlan ''Plan project_id does not match approved request'')) (\<lambda>_.
           ebind (echeck (is_str (dget d ''summary'')) (InvalidPlan ''Plan summary must be a string'')) (\<lambda>_.
           (case dget d ''steps'' of
              PList [] \<Rightarrow> Inl (InvalidPlan ''Plan must contain at least one step'')
            | PList vs \<Rightarrow>
                ebind (validate_plan_steps supported [] vs) (\<lambda>steps.
                ebind (validate_plan_dependencies steps) (\<lambda>_.
                ebind (echeck (\<not> plan_has_cycle steps)
                  (CircularPlan ''Plan contains circular dependencies'')) (\<lambda>_. Inr d)))
            | _ \<Rightarrow> Inl (InvalidPlan ''Plan steps must be a list'')))))))
     | _ \<Rightarrow> Inl (InvalidPlan ''Plan must be a mapping''))"

section \<open>Order\<close>

definition mission_ref :: "pyval dict \<Rightarrow> string" where
  "mission_ref m = py_str (dget m ''mission_id'')"

definition mission_deps :: "pyval dict \<Rightarrow> string list" where
  "mission_deps m = text_list (dget m ''dependencies'')"

definition priority_of :: "pyval dict \<Rightarrow> int" where
  "priority_of m = (case dget m ''priority'' of PInt i \<Rightarrow> i | PBool True \<Rightarrow> 1 | _ \<Rightarrow> 0)"

text \<open>The tables \<open>id_to_mission\<close>, \<open>indegree\<close> and \<open>meta\<close> keep the last mission of an identifier.\<close>

definition lookup_mission :: "pyval dict list \<Rightarrow> string \<Rightarrow> (nat \<times> pyval dict) option" where
  "lookup_mission ms = map_of (rev (map (\<lambda>(n, m). (mission_ref m, (n, m))) (enumerate 0 ms)))"

definition mission_degree :: "pyval dict list \<Rightarrow> string \<Rightarrow> int" where
  "mission_degree ms i = (case lookup_mission ms i of
       None \<Rightarrow> 0 | Some (_, m) \<Rightarrow> int (length (mission_deps m)))"

definition ready_key :: "pyval dict list \<Rightarrow> string \<Rightarrow> int \<times> string \<times> nat" where
  "ready_key ms i = (case lookup_mission ms i of
       None \<Rightarrow> (0, [], 0) | Some (n, m) \<Rightarrow> (priority_of m, step_id_of m, n))"

definition dependants :: "pyval dict list \<Rightarrow> string \<Rightarrow> string list" where
  "dependants ms i = concat (map (\<lambda>m. map (\<lambda>_. mission_ref m)
     (filter (\<lambda>d. d = i) (mission_deps m))) ms)"

fun lower_degrees :: "string list \<Rightarrow> (string \<Rightarrow> int) \<Rightarrow> string list \<Rightarrow> (string \<Rightarrow> int) \<times> string list" where
  "lower_degrees [] deg ready = (deg, ready)"
| "lower_degrees (d # ds) deg ready = (let deg' = deg(d := deg d - 1) in
     lower_degrees ds deg' (if deg' d = 0 then ready @ [d] else ready))"

definition degree_sum :: "pyval dict list \<Rightarrow> (string \<Rightarrow> int) \<Rightarrow> nat" where
  "degree_sum ms deg = (\<Sum>i \<in> mission_ref ` set ms. nat (deg i))"

lemma set_dependants: "set (dependants ms i) \<subseteq> mission_ref ` set ms"
  by (auto simp: dependants_def)

lemma lower_degrees_sum:
  "set ds \<subseteq> mission_ref ` set ms \<Longrightarrow> lower_degrees ds deg ready = (deg', ready') \<Longrightarrow>
     length ready' + degree_sum ms deg' \<le> length ready + degree_sum ms deg"
proof (induction ds arbitrary: deg ready)
  case (Cons d ds)
  let ?deg = "deg(d := deg d - 1)" and ?ids = "mission_ref ` set ms"
  let ?ready = "if ?deg d = 0 then ready @ [d] else ready"
  have d: "d \<in> ?ids" "finite ?ids" using Cons.prems(1) by auto
  have split: "degree_sum ms f = nat (f d) + (\<Sum>i \<in> ?ids - {d}. nat (f i))" for f
    unfolding degree_sum_def by (rule sum.remove [OF d(2,1)])
  have "length ?ready + degree_sum ms ?deg \<le> length ready + degree_sum ms deg"
    by (auto simp: split)
  moreover have "length ready' + degree_sum ms deg' \<le> length ?ready + degree_sum ms ?deg"
    by (rule Cons.IH) (use Cons.prems in \<open>simp_all add: Let_def fun_upd_def\<close>)
  ultimately show ?case by simp
qed simp

lemma lower_dependants:
  assumes "lower_degrees (dependants ms i) deg ready = (deg', ready')"
  shows "length ready' + degree_sum ms deg' < Suc (length ready + degree_sum ms deg)"
  using lower_degrees_sum [OF set_dependants assms] by simp

function plan_loop :: "pyval dict list \<Rightarrow> (string \<Rightarrow> int) \<Rightarrow> string list \<Rightarrow> string list" where
  "plan_loop ms deg [] = []"
| "plan_loop ms deg (i # ready) =
     (case lower_degrees (dependants ms i) deg ready of
        (deg', ready') \<Rightarrow> i # plan_loop ms deg' (sort_key (ready_key ms) ready'))"
  by pat_completeness auto
termination plan_loop
  by (relation "measure (\<lambda>(ms, deg, ready). length ready + degree_sum ms deg)")
    (auto split: prod.split intro: lower_dependants)

definition order_missions :: "pyval dict list \<Rightarrow> plan_error + pyval dict list" where
  "order_missions ms =
     (let deg = mission_degree ms;
          ready = filter (\<lambda>i. deg i = 0) (dedup (map mission_ref ms));
          ordered = plan_loop ms deg (sort_key (ready_key ms) ready)
      in if length ordered \<noteq> length ms then Inl (CircularPlan ''Cycle detected during ordering'')
         else Inr (map (\<lambda>i. snd (the (lookup_mission ms i))) ordered))"

section \<open>Missions\<close>

text \<open>One call of the generator for each step; a bad or repeated identifier stops the plan.\<close>

fun generate_ids :: "('g \<Rightarrow> pyval \<times> 'g) \<Rightarrow> string list \<Rightarrow> nat \<Rightarrow> ('g, plan_error, string list) action" where
  "generate_ids gen seen 0 = mret []"
| "generate_ids gen seen (Suc n) = (\<lambda>g. case gen g of
       (PStr (c # cs), g') \<Rightarrow>
         (if (c # cs) \<in> set seen
          then mraise (InvalidPlan ''Identifier generator produced duplicate mission_id'') g'
          else mbind (generate_ids gen ((c # cs) # seen) n) (\<lambda>is. mret ((c # cs) # is)) g')
     | (_, g') \<Rightarrow> mraise (InvalidPlan ''Identifier generator returned an invalid mission_id'') g')"

definition mission_of_step ::
  "pyval dict \<Rightarrow> pyval \<Rightarrow> string \<Rightarrow> (string \<Rightarrow> string) \<Rightarrow> pyval dict \<Rightarrow> pyval dict" where
  "mission_of_step request plan_id now ref step =
     [(''mission_id'', PStr (ref (step_id_of step))),
      (''project_id'', dget request ''project_id''),
      (''request_id'', dget request ''request_id''),
      (''conversation_id'', dget request ''conversation_id''),
      (''plan_id'', plan_id),
      (''step_id'', dget step ''step_id''),
      (''title'', dget step ''title''),
      (''description'', dget step ''description''),
      (''task_type'', dget step ''task_type''),
      (''provider_id'', dget request ''provider_id''),
      (''model_id'', dget request ''model_id''),
      (''dependencies'', PList (map PStr (sort (map ref (step_deps step))))),
      (''priority'', dget step ''priority''),
      (''payload'', redact_value (dget step ''payload'')),
      (''status'', PStr ''pending''),
      (''created_at'', PStr now)]"

definition steps_of :: "pyval dict \<Rightarrow> pyval dict list" where
  "steps_of plan = (case dget plan ''steps'' of
       PList vs \<Rightarrow> map (\<lambda>v. case v of PDict d \<Rightarrow> d | _ \<Rightarrow> []) vs | _ \<Rightarrow> [])"

definition build_missions ::
  "string list option \<Rightarrow> ('g \<Rightarrow> pyval \<times> 'g) \<Rightarrow> string \<Rightarrow> pyval \<Rightarrow> pyval \<Rightarrow>
   ('g, plan_error, pyval dict list) action" where
  "build_missions supported gen now plan request =
     mbind (mlift (validate_approved_request supported request)) (\<lambda>r.
     mbind (mlift (validate_plan supported plan r)) (\<lambda>p.
     let steps = steps_of p in
     mbind (generate_ids gen [] (length steps)) (\<lambda>ids.
     let ref = (\<lambda>s. the (map_of (zip (map step_id_of steps) ids) s)) in
     mlift (order_missions (map (mission_of_step r (dget p ''plan_id'') now ref) steps)))))"

section \<open>The coordinator's interface\<close>

record build_result =
  br_ok :: bool
  br_plan_id :: string
  br_summary :: string
  br_missions :: "pyval dict list"

definition failed_build :: build_result where
  "failed_build = \<lparr>br_ok = False, br_plan_id = [], br_summary = [], br_missions = []\<rparr>"

definition text_field :: "pyval \<Rightarrow> string \<Rightarrow> string" where
  "text_field v k = (case v of
       PDict d \<Rightarrow> (if py_truth (dget d k) then py_str (dget d k) else []) | _ \<Rightarrow> [])"

definition validate_and_build ::
  "string list option \<Rightarrow> ('g \<Rightarrow> pyval \<times> 'g) \<Rightarrow> string \<Rightarrow> pyval \<Rightarrow> pyval \<Rightarrow> 'g \<Rightarrow> build_result \<times> 'g" where
  "validate_and_build supported gen now plan request g = (case request of
       PDict d \<Rightarrow>
         (case build_missions supported gen now plan
             (PDict (map (\<lambda>k. (k, dget d k)) approved_fields)) g of
            (Inl _, g') \<Rightarrow> (failed_build, g')
          | (Inr ms, g') \<Rightarrow> (\<lparr>br_ok = True, br_plan_id = text_field plan ''plan_id'',
              br_summary = text_field plan ''summary'', br_missions = ms\<rparr>, g'))
     | _ \<Rightarrow> (failed_build, g))"

end
