(* ===== verification/GreedyOrder.thy ===== *)
theory GreedyOrder
  imports FlowOrder
begin

text \<open>
  Worklists that always take the best ready element, on any table \<open>D\<close> of dependencies and any
  injective key.  The list such a worklist produces is the least one, by keys, that puts
  dependencies first, and it leaves something out only when there is a cycle.  The order of plan
  missions rests on these facts; the worklist of flows is the case of the identity as key.
\<close>

definition ready_set :: "('a \<Rightarrow> 'a set) \<Rightarrow> 'a set \<Rightarrow> 'a set \<Rightarrow> 'a set" where
  "ready_set D ids E = {i \<in> ids - E. D i \<subseteq> E}"

fun best_first ::
  "('a \<Rightarrow> 'a set) \<Rightarrow> ('a \<Rightarrow> 'k::linorder) \<Rightarrow> 'a set \<Rightarrow> 'a set \<Rightarrow> 'a list \<Rightarrow> bool" where
  "best_first D key ids E [] = (ready_set D ids E = {})"
| "best_first D key ids E (i # is) =
     (i \<in> ready_set D ids E \<and> (\<forall>j \<in> ready_set D ids E. key i \<le> key j) \<and>
      best_first D key ids (insert i E) is)"

lemma best_first_ordered:
  "best_first D key ids E is \<Longrightarrow> ordered_from D E is \<and> distinct is \<and> set is \<subseteq> ids - E"
  by (induction "is" arbitrary: E) (auto simp: ready_set_def)

lemma best_first_stuck:
  "best_first D key ids E is \<Longrightarrow> ready_set D ids (E \<union> set is) = {}"
proof (induction "is" arbitrary: E)
  case (Cons i "is")
  then have "ready_set D ids (insert i E \<union> set is) = {}" by (intro Cons.IH) simp
  then show ?case by simp
qed simp

lemma best_first_least:
  assumes "best_first D key ids E is" and "inj_on key ids"
    and "ordered_from D E zs" "distinct zs" "set zs = ids - E"
  shows "set is = ids - E \<and> map key is \<le> map key zs"
  using assms(1,3-)
proof (induction "is" arbitrary: E zs)
  case Nil
  have "zs = []"
  proof (cases zs)
    case (Cons z zs')
    then have "z \<in> ready_set D ids E" using Nil.prems by (auto simp: ready_set_def)
    with Nil.prems(1) show ?thesis by simp
  qed
  with Nil.prems(4) show ?case by simp
next
  case (Cons i "is")
  then have i: "i \<in> ready_set D ids E" and best: "\<And>j. j \<in> ready_set D ids E \<Longrightarrow> key i \<le> key j"
    and rest: "best_first D key ids (insert i E) is" by auto
  have mem: "i \<in> set zs" using i Cons.prems(4) by (simp add: ready_set_def)
  then obtain z zs' where zs: "zs = z # zs'" by (cases zs) auto
  have o: "ordered_from D (insert i E) (remove1 i zs)" by (rule ordered_from_remove1 [OF Cons.prems(2)])
  have d: "distinct (remove1 i zs)" using Cons.prems(3) by simp
  have s: "set (remove1 i zs) = ids - insert i E" using Cons.prems(3,4) by auto
  note ih = Cons.IH [OF rest o d s]
  have eq: "set (i # is) = ids - E" using ih i by (auto simp: ready_set_def)
  have z: "z \<in> ready_set D ids E" using Cons.prems zs by (auto simp: ready_set_def)
  show ?case
  proof (cases "z = i")
    case True
    then show ?thesis using ih eq zs by simp
  next
    case False
    then have "key i \<noteq> key z" using assms(2) i z by (auto simp: inj_on_def ready_set_def)
    with best [OF z] have "key i < key z" by simp
    then show ?thesis using eq zs by simp
  qed
qed

text \<open>Without a cycle nothing is left out.\<close>

lemma best_first_complete:
  assumes "best_first D key ids {} is" and "finite ids" and "\<forall>i \<in> ids. D i \<subseteq> ids"
    and "acyclic {(d, i). i \<in> ids \<and> d \<in> D i}"
  shows "set is = ids"
proof (rule ccontr)
  let ?R = "{(d, i). i \<in> ids \<and> d \<in> D i}" and ?rest = "ids - set is"
  assume "set is \<noteq> ids"
  then have ne: "?rest \<noteq> {}" using best_first_ordered [OF assms(1)] by auto
  have "?R \<subseteq> ids \<times> ids" using assms(3) by auto
  then have "finite ?R" using assms(2) by (metis finite_SigmaI finite_subset)
  then have "wf ?R" using assms(4) by (rule finite_acyclic_wf)
  from ne obtain x where "x \<in> ?rest" by blast
  from wfE_min [OF \<open>wf ?R\<close> this] obtain m where
    m: "m \<in> ?rest" "\<And>d. (d, m) \<in> ?R \<Longrightarrow> d \<notin> ?rest" by blast
  then have "D m \<subseteq> set is" using assms(3) by auto
  then have "m \<in> ready_set D ids ({} \<union> set is)" using m(1) by (simp add: ready_set_def)
  with best_first_stuck [OF assms(1)] show False by simp
qed

end
