(* ===== verification/PlanOrder.thy ===== *)
theory PlanOrder
  imports PlanBuilder GreedyOrder
begin

text \<open>
  The order of plan missions.  The worklist of \<open>PlanBuilder\<close> always takes the ready mission with
  the best priority, so it computes the least arrangement, by priority, step and position, that
  puts dependencies first; on a plan that passed the checks it leaves nothing out.
\<close>

section \<open>The tables\<close>

definition mission_set :: "pyval dict list \<Rightarrow> bool" where
  "mission_set ms \<longleftrightarrow> distinct (map mission_ref ms) \<and>
     (\<forall>m \<in> set ms. set (mission_deps m) \<subseteq> mission_ref ` set ms)"

definition deps_of_ref :: "pyval dict list \<Rightarrow> string \<Rightarrow> string list" where
  "deps_of_ref ms i = (case lookup_mission ms i of None \<Rightarrow> [] | Some (_, m) \<Rightarrow> mission_deps m)"

abbreviation deps_table :: "pyval dict list \<Rightarrow> string \<Rightarrow> string set" where
  "deps_table ms i \<equiv> set (deps_of_ref ms i)"

lemma lookup_mission_iff:
  assumes "distinct (map mission_ref ms)"
  shows "lookup_mission ms i = Some (n, m) \<longleftrightarrow> n < length ms \<and> ms ! n = m \<and> mission_ref m = i"
proof -
  let ?es = "map (\<lambda>(n, m). (mission_ref m, (n, m))) (enumerate 0 ms)"
  have "map fst ?es = map (mission_ref \<circ> snd) (enumerate 0 ms)"
    by (simp add: comp_def case_prod_unfold)
  also have "\<dots> = map mission_ref ms" by (metis map_map map_snd_enumerate)
  finally have d: "distinct (map fst ?es)" using assms by simp
  then have "distinct (map fst (rev ?es))" by (simp only: rev_map [symmetric] distinct_rev)
  then have "lookup_mission ms i = Some (n, m) \<longleftrightarrow> (i, (n, m)) \<in> set (rev ?es)"
    unfolding lookup_mission_def by (rule map_of_eq_Some_iff)
  also have "\<dots> \<longleftrightarrow> (n, m) \<in> set (enumerate 0 ms) \<and> mission_ref m = i" by auto
  finally show ?thesis by (auto simp: in_set_enumerate_eq)
qed

lemma lookup_member:
  assumes "distinct (map mission_ref ms)" "m \<in> set ms"
  shows "\<exists>n. lookup_mission ms (mission_ref m) = Some (n, m) \<and> n < length ms \<and> ms ! n = m"
  using assms by (metis in_set_conv_nth lookup_mission_iff)

lemma deps_of_member [simp]:
  "distinct (map mission_ref ms) \<Longrightarrow> m \<in> set ms \<Longrightarrow> deps_of_ref ms (mission_ref m) = mission_deps m"
  by (drule (1) lookup_member) (auto simp: deps_of_ref_def)

lemma degree_member [simp]:
  "distinct (map mission_ref ms) \<Longrightarrow> m \<in> set ms \<Longrightarrow>
     mission_degree ms (mission_ref m) = int (length (mission_deps m))"
  by (drule (1) lookup_member) (auto simp: mission_degree_def)

lemma ready_key_inj: "distinct (map mission_ref ms) \<Longrightarrow> inj_on (ready_key ms) (mission_ref ` set ms)"
proof (rule inj_onI)
  fix i j assume d: "distinct (map mission_ref ms)" and i: "i \<in> mission_ref ` set ms"
    and j: "j \<in> mission_ref ` set ms" and eq: "ready_key ms i = ready_key ms j"
  obtain n m where n: "lookup_mission ms i = Some (n, m)" "ms ! n = m" "mission_ref m = i"
    using i lookup_member [OF d] by blast
  obtain k l where k: "lookup_mission ms j = Some (k, l)" "ms ! k = l" "mission_ref l = j"
    using j lookup_member [OF d] by blast
  have "n = k" using eq by (simp add: ready_key_def n k)
  then show "i = j" using n k by simp
qed

section \<open>Releasing dependants\<close>

lemma count_filter_map: "count_list (map (\<lambda>_. x) ys) x = length ys"
  by (induction ys) auto

lemma count_dependants:
  "distinct (map mission_ref ms) \<Longrightarrow> m \<in> set ms \<Longrightarrow>
     count_list (dependants ms i) (mission_ref m) = count_list (mission_deps m) i"
proof (induction ms)
  case (Cons a ms)
  have split: "dependants (a # ms) i = map (\<lambda>_. mission_ref a) (filter (\<lambda>d. d = i) (mission_deps a)) @
      dependants ms i"
    by (simp add: dependants_def)
  have len: "length (filter (\<lambda>d. d = i) xs) = count_list xs i" for xs
    by (induction xs) auto
  show ?case
  proof (cases "m = a")
    case True
    have "mission_ref a \<notin> set (dependants ms i)" using Cons.prems set_dependants [of ms i] by auto
    then have "count_list (dependants ms i) (mission_ref a) = 0" by (simp add: count_list_0_iff)
    then show ?thesis using True by (simp add: split count_filter_map len)
  next
    case False
    then have m: "m \<in> set ms" using Cons.prems(2) by simp
    then have "mission_ref m \<in> mission_ref ` set ms" by simp
    then have "mission_ref m \<noteq> mission_ref a" using Cons.prems(1) by auto
    then have "count_list (map (\<lambda>_. mission_ref a) ys) (mission_ref m) = 0" for ys :: "string list"
      by (induction ys) auto
    then show ?thesis using Cons m by (simp add: split)
  qed
qed simp

lemma count_outside: "j \<notin> mission_ref ` set ms \<Longrightarrow> count_list (dependants ms i) j = 0"
  using set_dependants [of ms i] by (auto simp: count_list_0_iff)

lemma lower_degrees_result:
  "lower_degrees ds deg ready = (deg', ready') \<Longrightarrow> \<forall>j. int (count_list ds j) \<le> deg j \<or> j \<notin> set ds \<Longrightarrow>
     deg' = (\<lambda>j. deg j - int (count_list ds j)) \<and>
     (\<exists>new. ready' = ready @ new \<and> distinct new \<and> set new = {j \<in> set ds. deg j = int (count_list ds j)})"
proof (induction ds arbitrary: deg ready)
  case (Cons d ds)
  let ?deg = "deg(d := deg d - 1)"
  let ?ready = "if ?deg d = 0 then ready @ [d] else ready"
  have run: "lower_degrees ds ?deg ?ready = (deg', ready')"
    using Cons.prems(1) by (simp add: Let_def)
  have pre: "\<forall>j. int (count_list ds j) \<le> ?deg j \<or> j \<notin> set ds"
  proof
    fix j
    show "int (count_list ds j) \<le> ?deg j \<or> j \<notin> set ds"
      using spec [OF Cons.prems(2), of j] by (cases "j = d") auto
  qed
  obtain new where new: "ready' = ?ready @ new" "distinct new"
      "set new = {j \<in> set ds. ?deg j = int (count_list ds j)}"
    and deg': "deg' = (\<lambda>j. ?deg j - int (count_list ds j))"
    using Cons.IH [OF run pre] by blast
  have d: "int (count_list ds d) + 1 \<le> deg d" using Cons.prems(2) by (auto dest: spec [of _ d])
  have goal1: "deg' = (\<lambda>j. deg j - int (count_list (d # ds) j))" by (rule ext) (simp add: deg')
  show ?case
  proof (cases "deg d = 1")
    case True
    then have "d \<notin> set ds" using d by (metis add_le_same_cancel2 count_list_0_iff of_nat_le_0_iff)
    then have "set (d # new) = {j \<in> set (d # ds). deg j = int (count_list (d # ds) j)}"
      using True new(3) by (auto simp: count_list_0_iff)
    moreover have "distinct (d # new)" using new(2,3) \<open>d \<notin> set ds\<close> by auto
    moreover have "ready' = ready @ d # new" using new(1) True by simp
    ultimately show ?thesis using goal1 by blast
  next
    case False
    have "set new = {j \<in> set (d # ds). deg j = int (count_list (d # ds) j)}"
    proof (cases "d \<in> set ds")
      case True
      then show ?thesis using new(3) by auto
    next
      case nd: False
      then have "count_list ds d = 0" by (simp add: count_list_0_iff)
      then show ?thesis using new(3) False nd by auto
    qed
    moreover have "ready' = ready @ new" using new(1) False by simp
    ultimately show ?thesis using goal1 new(2) by blast
  qed
qed simp

section \<open>The worklist is best first\<close>

definition plan_worklist :: "pyval dict list \<Rightarrow> string set \<Rightarrow> (string \<Rightarrow> int) \<Rightarrow> string list \<Rightarrow> bool" where
  "plan_worklist ms E deg ready \<longleftrightarrow>
     E \<subseteq> mission_ref ` set ms \<and> (\<forall>i \<in> E. deps_table ms i \<subseteq> E) \<and>
     (\<forall>i \<in> mission_ref ` set ms. deg i = int (length (filter (\<lambda>d. d \<notin> E) (deps_of_ref ms i)))) \<and>
     distinct ready \<and> set ready = ready_set (deps_table ms) (mission_ref ` set ms) E \<and>
     sorted (map (ready_key ms) ready)"

lemma length_outside:
  "i \<notin> E \<Longrightarrow> length (filter (\<lambda>d. d \<notin> E) xs) =
     length (filter (\<lambda>d. d \<notin> insert i E) xs) + count_list xs i"
  by (induction xs) auto

lemma plan_worklist_pop:
  assumes d: "distinct (map mission_ref ms)" and w: "plan_worklist ms E deg (i # ready)"
    and r: "lower_degrees (dependants ms i) deg ready = (deg', ready')"
  shows "plan_worklist ms (insert i E) deg' (sort_key (ready_key ms) ready')"
proof -
  let ?ids = "mission_ref ` set ms" and ?D = "deps_table ms"
  have E: "E \<subseteq> ?ids" "\<And>j. j \<in> E \<Longrightarrow> ?D j \<subseteq> E"
    and deg: "\<And>j. j \<in> ?ids \<Longrightarrow> deg j = int (length (filter (\<lambda>d. d \<notin> E) (deps_of_ref ms j)))"
    and ready: "distinct (i # ready)" "set (i # ready) = ready_set ?D ?ids E"
    using w by (auto simp: plan_worklist_def)
  have i: "i \<in> ?ids" "i \<notin> E" "?D i \<subseteq> E" using ready(2) by (auto simp: ready_set_def)
  have cnt: "count_list (dependants ms i) j = count_list (deps_of_ref ms j) i" if "j \<in> ?ids" for j
    using that d by (auto simp: count_dependants)
  have pre: "\<forall>j. int (count_list (dependants ms i) j) \<le> deg j \<or> j \<notin> set (dependants ms i)"
  proof
    fix j
    show "int (count_list (dependants ms i) j) \<le> deg j \<or> j \<notin> set (dependants ms i)"
      using set_dependants [of ms i] length_outside [OF i(2), of "deps_of_ref ms j"]
      by (cases "j \<in> ?ids") (auto simp: deg cnt)
  qed
  obtain new where deg': "deg' = (\<lambda>j. deg j - int (count_list (dependants ms i) j))"
    and new: "ready' = ready @ new" "distinct new"
      "set new = {j \<in> set (dependants ms i). deg j = int (count_list (dependants ms i) j)}"
    using lower_degrees_result [OF r pre] by blast
  have new_iff: "j \<in> set new \<longleftrightarrow> j \<in> ?ids \<and> i \<in> ?D j \<and> ?D j \<subseteq> insert i E" for j
  proof (cases "j \<in> ?ids")
    case True
    have mem: "j \<in> set (dependants ms i) \<longleftrightarrow> i \<in> ?D j"
      using cnt [OF True] by (metis count_list_0_iff)
    have "deg j = int (count_list (dependants ms i) j) \<longleftrightarrow>
        length (filter (\<lambda>d. d \<notin> insert i E) (deps_of_ref ms j)) = 0"
      using length_outside [OF i(2), of "deps_of_ref ms j"] by (simp add: deg True cnt)
    also have "\<dots> \<longleftrightarrow> ?D j \<subseteq> insert i E" by (auto simp: filter_empty_conv)
    finally show ?thesis using True mem new(3) by auto
  next
    case False
    then show ?thesis using new(3) set_dependants [of ms i] by auto
  qed
  have fresh: "j \<notin> E \<and> j \<noteq> i \<and> \<not> ?D j \<subseteq> E" if "j \<in> set new" for j
    using that new_iff [of j] i E(2) by auto
  have set': "set ready' = ready_set ?D ?ids (insert i E)"
  proof (intro equalityI subsetI)
    fix j assume "j \<in> set ready'"
    then consider "j \<in> set ready" | "j \<in> set new" using new(1) by auto
    then show "j \<in> ready_set ?D ?ids (insert i E)"
    proof cases
      case 1
      then have "j \<in> ready_set ?D ?ids E" "j \<noteq> i" using ready by auto
      then show ?thesis by (auto simp: ready_set_def)
    next
      case 2
      then show ?thesis using new_iff fresh by (auto simp: ready_set_def)
    qed
  next
    fix j assume j: "j \<in> ready_set ?D ?ids (insert i E)"
    show "j \<in> set ready'"
    proof (cases "?D j \<subseteq> E")
      case True
      then have "j \<in> ready_set ?D ?ids E" using j by (auto simp: ready_set_def)
      then have "j \<in> set (i # ready)" using ready(2) by blast
      then show ?thesis using j new(1) by (auto simp: ready_set_def)
    next
      case False
      then have "i \<in> ?D j" using j by (auto simp: ready_set_def)
      then have "j \<in> set new" using j new_iff by (auto simp: ready_set_def)
      then show ?thesis using new(1) by simp
    qed
  qed
  have "set ready \<inter> set new = {}"
  proof -
    have "set ready \<subseteq> ready_set ?D ?ids E" using ready(2) by auto
    then show ?thesis using fresh by (auto simp: ready_set_def)
  qed
  then have "distinct ready'" using ready(1) new(1,2) by auto
  moreover have "deg' j = int (length (filter (\<lambda>d. d \<notin> insert i E) (deps_of_ref ms j)))"
    if "j \<in> ?ids" for j
    using length_outside [OF i(2), of "deps_of_ref ms j"] that by (simp add: deg' deg cnt)
  ultimately show ?thesis
    using E i set' by (auto simp: plan_worklist_def)
qed

lemma plan_loop_best_first:
  assumes "distinct (map mission_ref ms)" "plan_worklist ms E deg ready"
  shows "best_first (deps_table ms) (ready_key ms) (mission_ref ` set ms) E (plan_loop ms deg ready)"
  using assms
proof (induction ms deg ready arbitrary: E rule: plan_loop.induct)
  case (1 ms deg)
  then show ?case by (simp add: plan_worklist_def)
next
  case (2 ms deg i ready)
  obtain deg' ready' where r: "lower_degrees (dependants ms i) deg ready = (deg', ready')"
    by (cases "lower_degrees (dependants ms i) deg ready")
  have w: "plan_worklist ms (insert i E) deg' (sort_key (ready_key ms) ready')"
    by (rule plan_worklist_pop [OF "2.prems" r])
  have s: "sorted (map (ready_key ms) (i # ready))"
    and st: "set (i # ready) = ready_set (deps_table ms) (mission_ref ` set ms) E"
    using "2.prems"(2) by (simp_all add: plan_worklist_def)
  have "\<forall>j \<in> ready_set (deps_table ms) (mission_ref ` set ms) E. ready_key ms i \<le> ready_key ms j"
    unfolding st [symmetric] using s by auto
  moreover have "i \<in> ready_set (deps_table ms) (mission_ref ` set ms) E"
    unfolding st [symmetric] by simp
  ultimately show ?case
    using "2.IH" [OF r [symmetric] "2.prems"(1) w] by (simp add: r)
qed

lemma plan_worklist_start:
  assumes "mission_set ms"
  shows "plan_worklist ms {} (mission_degree ms)
    (sort_key (ready_key ms) (filter (\<lambda>i. mission_degree ms i = 0) (dedup (map mission_ref ms))))"
proof -
  have d: "distinct (map mission_ref ms)" using assms by (simp add: mission_set_def)
  have deg: "mission_degree ms i = int (length (deps_of_ref ms i))" if "i \<in> mission_ref ` set ms" for i
    using that d by auto
  then show ?thesis
    by (auto simp: plan_worklist_def ready_set_def deg)
qed

definition plan_ids :: "pyval dict list \<Rightarrow> string list" where
  "plan_ids ms = plan_loop ms (mission_degree ms)
     (sort_key (ready_key ms) (filter (\<lambda>i. mission_degree ms i = 0) (dedup (map mission_ref ms))))"

lemma plan_ids_best_first:
  "mission_set ms \<Longrightarrow>
     best_first (deps_table ms) (ready_key ms) (mission_ref ` set ms) {} (plan_ids ms)"
  using plan_loop_best_first [OF _ plan_worklist_start]
  by (simp add: plan_ids_def mission_set_def)

section \<open>The order\<close>

text \<open>An arrangement of the missions: the same missions, each behind the ones it depends on.\<close>

definition plan_arrangement :: "pyval dict list \<Rightarrow> pyval dict list \<Rightarrow> bool" where
  "plan_arrangement ms ys \<longleftrightarrow> mset ys = mset ms \<and>
     ordered_from (deps_table ms) {} (map mission_ref ys)"

abbreviation plan_keys :: "pyval dict list \<Rightarrow> pyval dict list \<Rightarrow> (int \<times> string \<times> nat) list" where
  "plan_keys ms ys \<equiv> map (\<lambda>m. ready_key ms (mission_ref m)) ys"

lemma order_missions_eq:
  "order_missions ms = (if length (plan_ids ms) \<noteq> length ms
     then Inl (CircularPlan ''Cycle detected during ordering'')
     else Inr (map (\<lambda>i. snd (the (lookup_mission ms i))) (plan_ids ms)))"
  by (simp add: order_missions_def plan_ids_def Let_def)

lemma plan_ids_all:
  assumes "mission_set ms"
  shows "length (plan_ids ms) = length ms \<longleftrightarrow> set (plan_ids ms) = mission_ref ` set ms"
proof -
  have o: "distinct (plan_ids ms)" "set (plan_ids ms) \<subseteq> mission_ref ` set ms"
    using best_first_ordered [OF plan_ids_best_first [OF assms]] by auto
  have c: "card (mission_ref ` set ms) = length ms"
    using assms distinct_card [of "map mission_ref ms"] by (simp add: mission_set_def)
  show ?thesis
  proof
    assume "length (plan_ids ms) = length ms"
    then have "card (set (plan_ids ms)) = card (mission_ref ` set ms)"
      using o(1) c by (simp add: distinct_card)
    with o(2) show "set (plan_ids ms) = mission_ref ` set ms" by (simp add: card_subset_eq)
  next
    assume "set (plan_ids ms) = mission_ref ` set ms"
    with o(1) c show "length (plan_ids ms) = length ms" by (metis distinct_card)
  qed
qed

lemma ids_to_missions:
  assumes d: "distinct (map mission_ref ms)" and "distinct is" "set is = mission_ref ` set ms"
  defines "ys \<equiv> map (\<lambda>i. snd (the (lookup_mission ms i))) is"
  shows "mset ys = mset ms" "map mission_ref ys = is"
proof -
  have f: "mission_ref (snd (the (lookup_mission ms i))) = i \<and> snd (the (lookup_mission ms i)) \<in> set ms"
    if "i \<in> set is" for i
    using that assms(3) lookup_member [OF d] by force
  show refs: "map mission_ref ys = is"
    unfolding ys_def by (simp add: comp_def map_idI f)
  have "set ys = set ms"
  proof (intro equalityI subsetI)
    fix m assume "m \<in> set ys"
    then show "m \<in> set ms" using f by (auto simp: ys_def)
  next
    fix m assume m: "m \<in> set ms"
    then have "mission_ref m \<in> set is" using assms(3) by simp
    moreover have "snd (the (lookup_mission ms (mission_ref m))) = m"
      using lookup_member [OF d m] by auto
    ultimately show "m \<in> set ys" unfolding ys_def by force
  qed
  moreover have "distinct ys" using refs assms(2) by (metis distinct_map)
  moreover have "distinct ms" using d by (simp add: distinct_map)
  ultimately show "mset ys = mset ms" by (simp add: set_eq_iff_mset_eq_distinct [symmetric])
qed

lemma order_missions_Inr:
  assumes ms: "mission_set ms" and o: "order_missions ms = Inr ys"
  shows "plan_arrangement ms ys" "map mission_ref ys = plan_ids ms"
proof -
  have d: "distinct (map mission_ref ms)" using ms by (simp add: mission_set_def)
  have l: "length (plan_ids ms) = length ms"
    and ys: "ys = map (\<lambda>i. snd (the (lookup_mission ms i))) (plan_ids ms)"
    using o by (simp_all add: order_missions_eq split: if_splits)
  have b: "ordered_from (deps_table ms) {} (plan_ids ms)" "distinct (plan_ids ms)"
    using best_first_ordered [OF plan_ids_best_first [OF ms]] by auto
  note m = ids_to_missions [OF d b(2) plan_ids_all [OF ms, THEN iffD1, OF l], folded ys]
  show "map mission_ref ys = plan_ids ms" by (rule m(2))
  with b(1) m(1) show "plan_arrangement ms ys" by (simp add: plan_arrangement_def)
qed

lemma arrangement_refs:
  assumes "mission_set ms" "plan_arrangement ms zs"
  shows "distinct (map mission_ref zs)" "set (map mission_ref zs) = mission_ref ` set ms"
proof -
  have m: "mset zs = mset ms" using assms(2) by (simp add: plan_arrangement_def)
  then have "mset (map mission_ref zs) = mset (map mission_ref ms)" by (simp only: mset_map)
  from mset_eq_imp_distinct_iff [OF this] show "distinct (map mission_ref zs)"
    using assms(1) by (simp add: mission_set_def)
  show "set (map mission_ref zs) = mission_ref ` set ms"
    by (simp only: set_map mset_eq_setD [OF m])
qed

lemma order_missions_best:
  assumes ms: "mission_set ms" and z: "plan_arrangement ms zs"
  shows "\<exists>ys. order_missions ms = Inr ys \<and> plan_keys ms ys \<le> plan_keys ms zs"
proof -
  have inj: "inj_on (ready_key ms) (mission_ref ` set ms)"
    using ms by (intro ready_key_inj) (simp add: mission_set_def)
  have "set (plan_ids ms) = mission_ref ` set ms - {} \<and>
      map (ready_key ms) (plan_ids ms) \<le> map (ready_key ms) (map mission_ref zs)"
    using best_first_least [OF plan_ids_best_first [OF ms] inj, of "map mission_ref zs"]
      arrangement_refs [OF ms z] z by (simp add: plan_arrangement_def)
  then have "length (plan_ids ms) = length ms"
    and le: "map (ready_key ms) (plan_ids ms) \<le> plan_keys ms zs"
    using plan_ids_all [OF ms] by (simp_all add: comp_def)
  then obtain ys where ys: "order_missions ms = Inr ys" by (simp add: order_missions_eq)
  have "plan_keys ms ys = map (ready_key ms) (plan_ids ms)"
    by (simp flip: order_missions_Inr(2) [OF ms ys] add: comp_def)
  with le ys show ?thesis by simp
qed

lemma order_missions_acyclic:
  assumes ms: "mission_set ms" and "acyclic {(d, i). i \<in> mission_ref ` set ms \<and> d \<in> deps_table ms i}"
  shows "\<exists>ys. order_missions ms = Inr ys"
proof -
  have d: "distinct (map mission_ref ms)" using ms by (simp add: mission_set_def)
  have "\<forall>i \<in> mission_ref ` set ms. deps_table ms i \<subseteq> mission_ref ` set ms"
    using ms d by (auto simp: mission_set_def)
  then have "set (plan_ids ms) = mission_ref ` set ms"
    using best_first_complete [OF plan_ids_best_first [OF ms]] assms(2) by simp
  then show ?thesis using plan_ids_all [OF ms] by (simp add: order_missions_eq)
qed

text \<open>C13: The order of a plan's missions is the best one: the worklist returns a list exactly when
  it is an arrangement of the missions with every mission behind its dependencies, and no other
  arrangement is smaller by the sequence of priority, step identifier and position.\<close>

theorem order_missions_least:
  assumes "mission_set ms"
  shows "order_missions ms = Inr ys \<longleftrightarrow>
    plan_arrangement ms ys \<and> (\<forall>zs. plan_arrangement ms zs \<longrightarrow> plan_keys ms ys \<le> plan_keys ms zs)"
proof
  assume o: "order_missions ms = Inr ys"
  show "plan_arrangement ms ys \<and> (\<forall>zs. plan_arrangement ms zs \<longrightarrow> plan_keys ms ys \<le> plan_keys ms zs)"
    using order_missions_Inr(1) [OF assms o] order_missions_best [OF assms] o by fastforce
next
  assume a: "plan_arrangement ms ys \<and> (\<forall>zs. plan_arrangement ms zs \<longrightarrow> plan_keys ms ys \<le> plan_keys ms zs)"
  then obtain xs where xs: "order_missions ms = Inr xs" "plan_keys ms xs \<le> plan_keys ms ys"
    using order_missions_best [OF assms] by blast
  have ax: "plan_arrangement ms xs" by (rule order_missions_Inr(1) [OF assms xs(1)])
  with a xs(2) have keys: "plan_keys ms xs = plan_keys ms ys" by (meson order_antisym)
  have d: "distinct (map mission_ref ms)" using assms by (simp add: mission_set_def)
  have "mset xs = mset ms" "mset ys = mset ms" using a ax by (simp_all add: plan_arrangement_def)
  from this [THEN mset_eq_setD] have sub: "set xs \<union> set ys = set ms" by simp
  have inj: "inj_on (\<lambda>m. ready_key ms (mission_ref m)) (set ms)"
    using comp_inj_on [of mission_ref "set ms" "ready_key ms"] ready_key_inj [OF d] d
    by (simp add: distinct_map comp_def)
  have "xs = ys"
    by (rule map_inj_on [of "\<lambda>m. ready_key ms (mission_ref m)"]) (use keys sub inj in \<open>simp_all only:\<close>)
  with xs(1) show "order_missions ms = Inr ys" by simp
qed

lemma order_missions_least_witness:
  "plan_arrangement
     [[(''mission_id'', PStr ''m2''), (''dependencies'', PList [PStr ''m1'']), (''priority'', PInt 1)],
      [(''mission_id'', PStr ''m3''), (''dependencies'', PList []), (''priority'', PInt 9)],
      [(''mission_id'', PStr ''m1''), (''dependencies'', PList []), (''priority'', PInt 5)]]
     [[(''mission_id'', PStr ''m1''), (''dependencies'', PList []), (''priority'', PInt 5)],
      [(''mission_id'', PStr ''m2''), (''dependencies'', PList [PStr ''m1'']), (''priority'', PInt 1)],
      [(''mission_id'', PStr ''m3''), (''dependencies'', PList []), (''priority'', PInt 9)]]"
  (is "plan_arrangement ?ms ?ys")
proof -
  have "mission_set ?ms" by code_simp
  moreover have "order_missions ?ms = Inr ?ys" by code_simp
  ultimately show ?thesis using order_missions_least [of ?ms ?ys] by blast
qed

end
