(* ===== verification/AutonomousQueue.thy ===== *)
theory AutonomousQueue
  imports MissionLifecycle
begin

text \<open>
  \<^verbatim>\<open>agent/runtime/autonomous_mission_queue.py\<close>: the mission queue with a bounded default of
  retries, and the two decisions of a human on a blocked mission.  The queue file and every other
  operation are those of \<open>MissionQueue\<close>.
\<close>

datatype review_error = QueueError queue_error | ApproveNotBlocked | RejectNotBlocked

text \<open>The default is the argument, or the environment's text, clamped to 0 to 3.\<close>

definition autonomous_default :: "pyval option \<Rightarrow> string \<Rightarrow> conv_error + int" where
  "autonomous_default configured env =
     ebind (py_int (case configured of None \<Rightarrow> PStr env | Some v \<Rightarrow> v)) (\<lambda>n. Inr (max 0 (min n 3)))"

definition aq_enqueue ::
  "int \<Rightarrow> string \<Rightarrow> int \<Rightarrow> string list \<Rightarrow> int option \<Rightarrow> queue \<Rightarrow> queue_error + queue" where
  "aq_enqueue dflt i prio deps retries q =
     mq_enqueue dflt i prio deps
       (Some (case retries of None \<Rightarrow> dflt | Some r \<Rightarrow> if r \<le> 0 then dflt else r)) q"

definition review_step ::
  "mission_state \<Rightarrow> review_error \<Rightarrow> string \<Rightarrow> disk \<Rightarrow> review_error + disk" where
  "review_step final err i d = (case ebind (load_queue d) (\<lambda>q. ebind (get_mission i q) (\<lambda>m. Inr (q, m))) of
       Inl e \<Rightarrow> Inl (QueueError e)
     | Inr (q, m) \<Rightarrow>
         if m_state m = final then Inr d
         else if m_state m \<noteq> Blocked then Inl err
         else (case validated (put_mission i (m\<lparr>m_state := final\<rparr>) q) of
             Inl e \<Rightarrow> Inl (QueueError e) | Inr q' \<Rightarrow> Inr (save_queue q')))"

definition approve_manual_review :: "string \<Rightarrow> disk \<Rightarrow> review_error + disk" where
  "approve_manual_review = review_step Completed ApproveNotBlocked"

definition reject_manual_review :: "string \<Rightarrow> disk \<Rightarrow> review_error + disk" where
  "reject_manual_review = review_step Cancelled RejectNotBlocked"

section \<open>Files that hold a well-formed queue\<close>

definition disk_wf :: "disk \<Rightarrow> bool" where
  "disk_wf d \<longleftrightarrow> (\<exists>q. load_queue d = Inr q \<and> queue_wf q)"

lemma disk_ok_wf: "disk_ok d \<Longrightarrow> disk_wf d"
  using lifecycle_wf by (auto simp: disk_ok_def disk_wf_def)

lemma disk_wf_saved:
  assumes "queue_wf q"
  shows "load_queue (save_queue q) = Inr (stored q)" "disk_wf (save_queue q)"
    "mission_at (save_queue q) = map_of (missions q)"
proof -
  show load: "load_queue (save_queue q) = Inr (stored q)"
    using assms by (simp add: load_queue_save queue_wf_def)
  then show "disk_wf (save_queue q)" using queue_wf_stored [OF assms] by (simp add: disk_wf_def)
  show "mission_at (save_queue q) = map_of (missions q)"
    using load by (simp add: mission_at_loaded map_of_stored_wf [OF assms])
qed

lemma queue_wf_enqueue:
  assumes wf: "queue_wf q" and e: "mq_enqueue dflt i prio deps retries q = Inr q'"
  shows "queue_wf q'"
proof -
  let ?n = "new_mission dflt i prio deps retries q"
  have q': "missions q' = AList.update i ?n (missions q)" "next_seq q' = next_seq q + 1"
    and v: "validate_no_cycles (missions q') = Inr ()"
    using e by (auto simp: mq_enqueue_Inr)
  have "e \<in> set (missions q') \<Longrightarrow> e = (i, ?n) \<or> e \<in> set (missions q)" for e
    using set_update_alist queue_wf_distinct [OF wf] by (simp add: q')
  then have "\<forall>(k, x) \<in> set (missions q'). m_id x = k \<and> sorted (m_deps x)"
    using wf by (fastforce simp: queue_wf_def queue_ok_def new_mission_def)
  then show ?thesis
    using wf validate_no_cycles_acyclic [OF v] by (auto simp: queue_wf_def queue_ok_def q')
qed

text \<open>Adding and removing a mission, seen through lookups.\<close>

lemma locked_enqueue:
  assumes l: "load_queue d = Inr q" "queue_wf q" and e: "locked (mq_enqueue dflt i p deps r) d = Inr d'"
  shows "mission_at d i = None" "disk_wf d'"
    "mission_at d' = (mission_at d)(i \<mapsto> new_mission dflt i p deps r q)"
    "\<exists>q'. load_queue d' = Inr q' \<and> next_seq q' = next_seq q + 1"
proof -
  obtain q' where q': "mq_enqueue dflt i p deps r q = Inr q'" "d' = save_queue q'"
    using e l(1) by (auto simp: locked_def err_simps)
  note wf = queue_wf_enqueue [OF l(2) q'(1)]
  show "disk_wf d'" unfolding q'(2) by (rule disk_wf_saved(2) [OF wf])
  show "mission_at d i = None"
    using q'(1) by (auto simp: mq_enqueue_Inr mission_at_loaded [OF l(1)] map_of_eq_None_iff)
  show "mission_at d' = (mission_at d)(i \<mapsto> new_mission dflt i p deps r q)"
    using q'(1) unfolding q'(2) disk_wf_saved(3) [OF wf]
    by (simp add: mq_enqueue_Inr mission_at_loaded [OF l(1)] put_mission_def)
  show "\<exists>q'. load_queue d' = Inr q' \<and> next_seq q' = next_seq q + 1"
    using q'(1) unfolding q'(2) disk_wf_saved(1) [OF wf]
    by (simp add: mq_enqueue_Inr stored_def put_mission_def)
qed

lemma dep_graph_new:
  assumes new: "map_of ms i = None" and free: "\<And>j k. map_of ms j = Some k \<Longrightarrow> i \<notin> set (m_deps k)"
    and m: "i \<notin> set (m_deps m)" and a: "acyclic (dep_graph ms)"
  shows "acyclic (dep_graph (AList.update i m ms))"
proof -
  have sub: "dep_graph (AList.update i m ms) \<subseteq> dep_graph ms \<union> {i} \<times> set (m_deps m)"
    using free by (auto simp: dep_graph_def split: if_splits)
  have "(x, i) \<notin> dep_graph ms" for x using free by (auto simp: dep_graph_def)
  then have "acyclic (dep_graph ms \<union> {i} \<times> set (m_deps m))" by (rule acyclic_add_source [OF a _ m])
  then show ?thesis by (rule acyclic_subset [OF _ sub])
qed

text \<open>A new mission nobody waits for is always accepted.\<close>

lemma locked_enqueue_ok:
  assumes d: "disk_wf d" and new: "mission_at d i = None"
    and free: "\<And>j k. mission_at d j = Some k \<Longrightarrow> i \<notin> set (m_deps k)" and self: "i \<notin> set deps"
  shows "\<exists>d'. locked (mq_enqueue dflt i p deps r) d = Inr d'"
proof -
  obtain q where l: "load_queue d = Inr q" and wf: "queue_wf q" using d by (auto simp: disk_wf_def)
  note at = mission_at_loaded [OF l]
  let ?m = "new_mission dflt i p deps r q"
  have a: "acyclic (dep_graph (AList.update i ?m (missions q)))"
    using new free self queue_wf_acyclic [OF wf] unfolding at
    by (intro dep_graph_new) (auto simp: new_mission_def)
  have "distinct (map fst (AList.update i ?m (missions q)))" using queue_wf_distinct [OF wf] by simp
  then have "validate_no_cycles (AList.update i ?m (missions q)) = Inr ()"
    using a by (simp add: validate_no_cycles_iff)
  then have "\<exists>q'. mq_enqueue dflt i p deps r q = Inr q'"
    using new unfolding mq_enqueue_Inr by (auto simp: at map_of_eq_None_iff)
  then show ?thesis by (auto simp: locked_def l)
qed

lemma locked_dequeue:
  assumes d: "disk_wf d" and m: "mission_at d i = Some m" "m_state m \<noteq> Running"
    and free: "\<And>j k. mission_at d j = Some k \<Longrightarrow> j \<noteq> i \<Longrightarrow> i \<notin> set (m_deps k)"
  obtains d' where "locked (mq_dequeue i) d = Inr d'" "disk_wf d'" "mission_at d' = (mission_at d)(i := None)"
proof -
  obtain q where l: "load_queue d = Inr q" and wf: "queue_wf q" using d by (auto simp: disk_wf_def)
  note at = mission_at_loaded [OF l]
  let ?q = "q\<lparr>missions := AList.delete i (missions q)\<rparr>"
  have "mq_dequeue i q = Inr ?q"
    using m free by (auto simp: mq_dequeue_Inr [OF wf] at)
  then have "locked (mq_dequeue i) d = Inr (save_queue ?q)" by (simp add: locked_def l)
  moreover have "mission_at (save_queue ?q) = (mission_at d)(i := None)"
    by (simp add: disk_wf_saved(3) [OF queue_wf_delete [OF wf]] at)
  ultimately show ?thesis using that disk_wf_saved(2) [OF queue_wf_delete [OF wf]] by blast
qed

section \<open>Decisions on blocked missions\<close>

lemma review_step_blocked:
  assumes l: "load_queue d = Inr q" and wf: "queue_wf q"
    and m: "mission_at d i = Some m" "m_state m = Blocked" and final: "final \<noteq> Blocked"
  obtains d' where "review_step final err i d = Inr d'" "disk_wf d'"
    "mission_at d' = (mission_at d)(i \<mapsto> m\<lparr>m_state := final\<rparr>)"
proof -
  note at = mission_at_loaded [OF l]
  have look: "map_of (missions q) i = Some m" using m(1) by (simp add: at)
  let ?m = "m\<lparr>m_state := final\<rparr>"
  have wf': "queue_wf (put_mission i ?m q)"
    by (rule queue_wf_put [OF wf look]) (simp_all add: queue_wfD(1) [OF wf look])
  then have "review_step final err i d = Inr (save_queue (put_mission i ?m q))"
    using m(2) final by (simp add: review_step_def l get_mission_def look)
  then show ?thesis using that disk_wf_saved [OF wf'] by (simp add: at)
qed

text \<open>C30: A human approval completes a mission that has never run: blocked while it was waiting, it is
  completed whatever its dependencies are.\<close>

theorem approval_ignores_dependencies:
  assumes "disk_wf d" and "mission_at d i = Some m" and "m_state m = Pending"
  shows "\<exists>d1 d2. apply_op dflt (Block i) d = Inr d1 \<and> approve_manual_review i d1 = Inr d2 \<and>
    mission_at d2 = (mission_at d)(i \<mapsto> m\<lparr>m_state := Completed\<rparr>)"
proof -
  obtain q where l: "load_queue d = Inr q" and wf: "queue_wf q" using assms(1) by (auto simp: disk_wf_def)
  note at = mission_at_loaded [OF l]
  let ?q = "put_mission i (m\<lparr>m_state := Blocked\<rparr>) q"
  have look: "map_of (missions q) i = Some m" using assms(2) by (simp add: at)
  have wf': "queue_wf ?q" by (rule queue_wf_put [OF wf look]) (simp_all add: queue_wfD(1) [OF wf look])
  have b: "apply_op dflt (Block i) d = Inr (save_queue ?q)"
    using assms(3) by (simp add: locked_def l mq_block_eq [OF wf] get_mission_def look)
  have "queue_wf (stored ?q)" by (rule queue_wf_stored [OF wf'])
  from review_step_blocked [OF disk_wf_saved(1) [OF wf'] this, of i "m\<lparr>m_state := Blocked\<rparr>" Completed ApproveNotBlocked]
  obtain d2 where d2: "approve_manual_review i (save_queue ?q) = Inr d2"
      "mission_at d2 = (mission_at (save_queue ?q))(i \<mapsto> m\<lparr>m_state := Completed\<rparr>)"
    by (auto simp: disk_wf_saved(3) [OF wf'] approve_manual_review_def)
  then show ?thesis using b by (simp add: disk_wf_saved(3) [OF wf'] at)
qed

theorem approval_ignores_dependencies_witness:
  "\<exists>d m d1 d2. disk_wf d \<and> mission_at d ''b'' = Some m \<and> m_deps m = [''a''] \<and>
    apply_op 3 (Block ''b'') d = Inr d1 \<and> approve_manual_review ''b'' d1 = Inr d2 \<and>
    mission_at d2 ''b'' = Some (m\<lparr>m_state := Completed\<rparr>)"
proof -
  let ?e = "mq_enqueue 3 ''b'' 0 [''a''] None"
  have e: "disk_wf None"
    using reachable_disk_ok [OF reachable_disk.start] by (rule disk_ok_wf)
  have none: "mission_at None i = None" for i by (simp add: mission_at_def load_queue_def)
  obtain d where d: "locked ?e None = Inr d"
    using locked_enqueue_ok [OF e none, of "''b''" "[''a'']" 3 0 None] none by auto
  obtain q where "load_queue None = Inr q" "queue_wf q" using e by (auto simp: disk_wf_def)
  note eff = locked_enqueue [OF this d]
  have sorted_dedup: "sort (dedup [''a'']) = [''a'']" by code_simp
  obtain m where m: "mission_at d ''b'' = Some m" "m_state m = Pending" "m_deps m = [''a'']"
    using eff by (simp add: new_mission_def sorted_dedup)
  show ?thesis using approval_ignores_dependencies [OF _ m(1,2), of 3] eff m by auto
qed

section \<open>The retry budget\<close>

lemma autonomous_default_range:
  "autonomous_default configured env = Inr n \<Longrightarrow> 0 \<le> n \<and> n \<le> 3"
  by (auto simp: autonomous_default_def err_simps)

text \<open>Without a request of its own, or with the legacy zero, a mission gets the bounded default.\<close>

lemma aq_enqueue_retries:
  assumes "aq_enqueue n i p deps r q = Inr q'" and "r = None \<or> r = Some 0"
  shows "map_of (missions q') i = Some (new_mission n i p deps (Some n) q)"
  using assms by (auto simp: aq_enqueue_def mq_enqueue_Inr new_mission_def)

end
