(* ===== verification/RequestQueueAdapter.thy ===== *)
theory RequestQueueAdapter
  imports AutonomousQueue MissionWriter PlanBuilder
begin

text \<open>
  \<^verbatim>\<open>agent/runtime/production_request_queue_adapter.py\<close>, with the choice of root and queue of its
  two subclasses: missions of a plan get a definition file each and enter the mission queue, all of
  them or none.  The state is the queue file and the table of files; path resolution and what can
  be written are arguments.  A failing write leaves no file; directories are not in the table.
\<close>

section \<open>Data\<close>

record request_queue =
  rq_disk :: disk
  rq_files :: file_table

record adapter_config =
  ra_project :: string
  ra_root :: file_path                       \<comment> \<open>\<open>missions_root\<close>\<close>
  ra_resolve :: "file_path \<Rightarrow> file_path"
  ra_writable :: "file_path \<Rightarrow> bool"
  ra_autonomous :: "int option"              \<comment> \<open>the default of \<open>AutonomousMissionQueue\<close>, if it is one\<close>

datatype adapter_error =
    MissionsNotSequence
  | InvalidMission
  | CrossProject
  | InvalidMissionId
  | DuplicateMissionId
  | InvalidPriority
  | InvalidDependencies
  | MissionPathEscape
  | DefinitionExists
  | InvalidRequestId
  | InvalidPayload
  | ForbiddenPayloadKey
  | InvalidDeliverables
  | InvalidDeliverable
  | UnsafeDeliverablePath
  | UnknownDependency
  | WriteFailed
  | QueueRaised queue_error

record prepared =
  pr_id :: string
  pr_priority :: int
  pr_deps :: "string list"
  pr_path :: file_path
  pr_content :: string

section \<open>Checks of one mission\<close>

definition mission_char :: "char \<Rightarrow> bool" where
  "mission_char c = (let n = of_char c :: nat in
     48 \<le> n \<and> n \<le> 57 \<or> 65 \<le> n \<and> n \<le> 90 \<or> 97 \<le> n \<and> n \<le> 122 \<or> n = 95 \<or> n = 45)"

definition mission_id_ok :: "string \<Rightarrow> bool" where
  "mission_id_ok s = (case s of [] \<Rightarrow> False
     | c # r \<Rightarrow> mission_char c \<and> c \<noteq> CHR ''_'' \<and> c \<noteq> CHR ''-'' \<and> list_all mission_char r \<and> length r \<le> 127)"

text \<open>\<open>str(value or "").strip()\<close>\<close>

definition stripped_text :: "pyval \<Rightarrow> string" where
  "stripped_text v = strip (if py_truth v then py_str v else [])"

definition valid_id :: "pyval \<Rightarrow> adapter_error + string" where
  "valid_id v = (let text = stripped_text v in
     if mission_id_ok text then Inr text else Inl InvalidMissionId)"

definition validate_payload :: "pyval \<Rightarrow> adapter_error + pyval dict" where
  "validate_payload payload = (case payload of
       PNone \<Rightarrow> Inr []
     | PDict d \<Rightarrow> if forbidden_walk forbidden_payload_keys [PDict d] then Inl ForbiddenPayloadKey else Inr d
     | _ \<Rightarrow> Inl InvalidPayload)"

definition definition_path :: "adapter_config \<Rightarrow> string \<Rightarrow> adapter_error + file_path" where
  "definition_path cfg i = (let path = ra_resolve cfg (ra_root cfg @ [i @ ''.md'']) in
     if strict_prefix (ra_resolve cfg (ra_root cfg)) path then Inr path else Inl MissionPathEscape)"

section \<open>The definition file\<close>

text \<open>\<open>json.dumps(payload, sort_keys=True, indent=2)\<close>\<close>

definition json_line :: "nat \<Rightarrow> string" where
  "json_line n = CHR 10 # replicate (2 * n) (CHR '' '')"

fun json_pretty :: "nat \<Rightarrow> pyval \<Rightarrow> string" and
    pretty_items :: "nat \<Rightarrow> pyval list \<Rightarrow> string" and
    pretty_entries :: "nat \<Rightarrow> (string \<times> pyval) list \<Rightarrow> string" where
  "json_pretty n PNone = ''null''"
| "json_pretty n (PBool b) = (if b then ''true'' else ''false'')"
| "json_pretty n (PInt i) = int_str i"
| "json_pretty n (PStr s) = json_string True s"
| "json_pretty n (PList vs) = (case vs of [] \<Rightarrow> ''[]'' | _ \<Rightarrow>
     CHR ''['' # json_line (Suc n) @ pretty_items (Suc n) vs @ json_line n @ '']'')"
| "json_pretty n (PDict kvs) = (case kvs of [] \<Rightarrow> ''{}'' | _ \<Rightarrow>
     CHR ''{'' # json_line (Suc n) @ pretty_entries (Suc n) kvs @ json_line n @ ''}'')"
| "pretty_items n [] = []"
| "pretty_items n (v # vs) = json_pretty n v @
     (if vs = [] then [] else CHR '','' # json_line n @ pretty_items n vs)"
| "pretty_entries n [] = []"
| "pretty_entries n (e # es) = json_string True (fst e) @ '': '' @ json_pretty n (snd e) @
     (if es = [] then [] else CHR '','' # json_line n @ pretty_entries n es)"

definition json_indented :: "pyval \<Rightarrow> string" where
  "json_indented v = json_pretty 0 (json_sort v)"

definition check_deliverable :: "pyval \<Rightarrow> adapter_error + string" where
  "check_deliverable item = (case item of
       PStr s \<Rightarrow>
         let candidate = strip s; parts = split_on (CHR ''/'') candidate in
         if candidate = [] then Inl InvalidDeliverable
         else if starts_with candidate ''/'' \<or> CHR 0x5C \<in> set candidate \<or>
             list_ex (\<lambda>p. p \<in> {[], ''.'', ''..''}) parts \<or> hd parts = ''.git''
         then Inl UnsafeDeliverablePath
         else Inr candidate
     | _ \<Rightarrow> Inl InvalidDeliverable)"

definition payload_deliverables :: "pyval dict \<Rightarrow> adapter_error + string list" where
  "payload_deliverables payload = (case dget_or payload ''deliverables'' (PList []) of
       PList vs \<Rightarrow> ebind (emap check_deliverable vs) (\<lambda>ds. Inr (dedup ds))
     | _ \<Rightarrow> Inl InvalidDeliverables)"

definition or_text :: "pyval \<Rightarrow> string \<Rightarrow> string" where
  "or_text v alternative = strip (if py_truth v then py_str v else alternative)"

definition unlines :: "string list \<Rightarrow> string" where
  "unlines ls = concat (map (\<lambda>l. l @ [CHR 10]) ls)"

definition requirement_lines :: "string list" where
  "requirement_lines =
     [''## Execution Requirements'', [],
      ''- Inspect the existing repository before modifying files.'',
      ''- Keep changes limited to this mission'' @ [CHR 39] @ ''s objective.'',
      ''- Do not expose credentials, tokens, secrets, or private keys.'',
      ''- Do not execute destructive or irreversible operations without approval.'',
      ''- Run relevant automated tests and validation.'',
      ''- Review the resulting diff before commit.'',
      ''- Use the existing Mission Runner Git branch and commit workflow.'']"

definition definition_text ::
  "string \<Rightarrow> string \<Rightarrow> string \<Rightarrow> string \<Rightarrow> string \<Rightarrow> string list \<Rightarrow> pyval dict \<Rightarrow> string" where
  "definition_text title mission_id request_id task_type description deliverables payload =
     unlines ([''# '' @ title, [], ''Mission ID: '' @ mission_id, ''Request ID: '' @ request_id,
         ''Task Type: '' @ task_type, [], ''## Objective'', [], description, [], ''## Deliverables'', []] @
       map (\<lambda>item. ''- '' @ item) deliverables @
       [[], ''## Context'', [], ''```json'', json_indented (PDict payload), ''```'', []] @
       requirement_lines)"

definition render_definition :: "pyval dict \<Rightarrow> adapter_error + string" where
  "render_definition m =
     ebind (valid_id (dget m ''mission_id'')) (\<lambda>i.
     let request = or_text (dget m ''request_id'') [] in
     ebind (echeck (request \<noteq> []) InvalidRequestId) (\<lambda>_.
     ebind (validate_payload (dget_or m ''payload'' (PDict []))) (\<lambda>payload.
     ebind (payload_deliverables payload) (\<lambda>ds.
       Inr (definition_text (or_text (dget m ''title'') i) i request
         (or_text (dget m ''task_type'') ''general'') (or_text (dget m ''description'') []) ds payload)))))"

section \<open>A batch\<close>

definition prepare_mission ::
  "adapter_config \<Rightarrow> file_table \<Rightarrow> string list \<Rightarrow> pyval \<Rightarrow> adapter_error + prepared" where
  "prepare_mission cfg files ids v = (case v of
       PDict m \<Rightarrow>
         ebind (echeck (stripped_text (dget m ''project_id'') = ra_project cfg) CrossProject) (\<lambda>_.
         ebind (valid_id (dget m ''mission_id'')) (\<lambda>i.
         ebind (echeck (i \<notin> set ids) DuplicateMissionId) (\<lambda>_.
         ebind (case dget_or m ''priority'' (PInt 0) of
             PInt p \<Rightarrow> Inr p | PBool b \<Rightarrow> Inr (of_bool b) | _ \<Rightarrow> Inl InvalidPriority) (\<lambda>priority.
         ebind (case dget_or m ''dependencies'' (PList []) of
             PList vs \<Rightarrow> emap valid_id vs | _ \<Rightarrow> Inl InvalidDependencies) (\<lambda>deps.
         ebind (definition_path cfg i) (\<lambda>path.
         ebind (echeck (map_of files path = None) DefinitionExists) (\<lambda>_.
         ebind (render_definition m) (\<lambda>content.
           Inr \<lparr>pr_id = i, pr_priority = priority, pr_deps = deps, pr_path = path,
             pr_content = content\<rparr>))))))))
     | _ \<Rightarrow> Inl InvalidMission)"

fun prepare_missions ::
  "adapter_config \<Rightarrow> file_table \<Rightarrow> string list \<Rightarrow> pyval list \<Rightarrow> adapter_error + prepared list" where
  "prepare_missions cfg files ids [] = Inr []"
| "prepare_missions cfg files ids (v # vs) =
     ebind (prepare_mission cfg files ids v) (\<lambda>p.
     ebind (prepare_missions cfg files (ids @ [pr_id p]) vs) (\<lambda>ps. Inr (p # ps)))"

definition check_known :: "disk \<Rightarrow> prepared list \<Rightarrow> adapter_error + unit" where
  "check_known d ps =
     (let outside = filter (\<lambda>dep. dep \<notin> pr_id ` set ps) (concat (map pr_deps ps)) in
      if outside = [] then Inr ()
      else (case load_queue d of
          Inl e \<Rightarrow> Inl (QueueRaised e)
        | Inr q \<Rightarrow> echeck (list_all (\<lambda>dep. dep \<in> m_id ` snd ` set (missions q)) outside) UnknownDependency))"

definition adapter_enqueue :: "adapter_config \<Rightarrow> prepared \<Rightarrow> queue \<Rightarrow> queue_error + queue" where
  "adapter_enqueue cfg p = (case ra_autonomous cfg of
       None \<Rightarrow> mq_enqueue 0 (pr_id p) (pr_priority p) (pr_deps p) (Some 0)
     | Some dflt \<Rightarrow> aq_enqueue dflt (pr_id p) (pr_priority p) (pr_deps p) (Some 0))"

text \<open>The two loops of the \<open>try\<close> block: what stopped them, what they had done, and the state.\<close>

fun write_definitions ::
  "adapter_config \<Rightarrow> file_path list \<Rightarrow> prepared list \<Rightarrow> request_queue \<Rightarrow>
   adapter_error option \<times> file_path list \<times> request_queue" where
  "write_definitions cfg written [] s = (None, written, s)"
| "write_definitions cfg written (p # ps) s =
     (if ra_writable cfg (pr_path p)
      then write_definitions cfg (written @ [pr_path p]) ps
        (s\<lparr>rq_files := AList.update (pr_path p) (pr_content p) (rq_files s)\<rparr>)
      else (Some WriteFailed, written, s))"

fun enqueue_prepared ::
  "adapter_config \<Rightarrow> string list \<Rightarrow> prepared list \<Rightarrow> request_queue \<Rightarrow>
   adapter_error option \<times> string list \<times> request_queue" where
  "enqueue_prepared cfg enqueued [] s = (None, enqueued, s)"
| "enqueue_prepared cfg enqueued (p # ps) s = (case locked (adapter_enqueue cfg p) (rq_disk s) of
       Inr d \<Rightarrow> enqueue_prepared cfg (enqueued @ [pr_id p]) ps (s\<lparr>rq_disk := d\<rparr>)
     | Inl e \<Rightarrow> (Some (QueueRaised e), enqueued, s))"

text \<open>The rollback, last first; a refused removal is passed over.\<close>

definition remove_mission :: "string \<Rightarrow> disk \<Rightarrow> disk" where
  "remove_mission i d = (case locked (mq_dequeue i) d of Inl _ \<Rightarrow> d | Inr d' \<Rightarrow> d')"

definition roll_back :: "string list \<Rightarrow> file_path list \<Rightarrow> request_queue \<Rightarrow> request_queue" where
  "roll_back enqueued written s =
     s\<lparr>rq_disk := fold remove_mission (rev enqueued) (rq_disk s),
       rq_files := fold AList.delete (rev written) (rq_files s)\<rparr>"

definition submit_prepared ::
  "adapter_config \<Rightarrow> prepared list \<Rightarrow> (request_queue, adapter_error, string list) action" where
  "submit_prepared cfg ps s = (case write_definitions cfg [] ps s of
       (Some e, written, s') \<Rightarrow> (Inl e, roll_back [] written s')
     | (None, written, s') \<Rightarrow> (case enqueue_prepared cfg [] ps s' of
           (Some e, enqueued, s'') \<Rightarrow> (Inl e, roll_back enqueued written s'')
         | (None, enqueued, s'') \<Rightarrow> (Inr enqueued, s'')))"

definition enqueue_batch :: "adapter_config \<Rightarrow> pyval \<Rightarrow> (request_queue, adapter_error, string list) action" where
  "enqueue_batch cfg ms = (case ms of
       PList vs \<Rightarrow>
         mbind mget (\<lambda>s.
         mbind (mlift (prepare_missions cfg (rq_files s) [] vs)) (\<lambda>ps.
         mbind (mlift (check_known (rq_disk s) ps)) (\<lambda>_. submit_prepared cfg ps)))
     | _ \<Rightarrow> mraise MissionsNotSequence)"

section \<open>Correlation with requests\<close>

text \<open>The missions of the queue whose identifier is not blank, with their definition, if there is one.\<close>

definition defined_mission ::
  "adapter_config \<Rightarrow> file_table \<Rightarrow> pyval dict \<Rightarrow> adapter_error + (string \<times> pyval dict \<times> string) option" where
  "defined_mission cfg files m = (let i = stripped_text (dget m ''id'') in
     if i = [] then Inr None
     else ebind (definition_path cfg i) (\<lambda>path.
       Inr (map_option (\<lambda>text. (i, m, text)) (map_of files path))))"

definition defined_missions ::
  "adapter_config \<Rightarrow> request_queue \<Rightarrow> adapter_error + (string \<times> pyval dict \<times> string) list" where
  "defined_missions cfg s = (case load_queue (rq_disk s) of
       Inl e \<Rightarrow> Inl (QueueRaised e)
     | Inr q \<Rightarrow> ebind (emap (defined_mission cfg (rq_files s)) (mq_list q)) (\<lambda>os.
         Inr (List.map_filter (\<lambda>x. x) os)))"

definition mission_ids_for_request ::
  "adapter_config \<Rightarrow> pyval \<Rightarrow> request_queue \<Rightarrow> adapter_error + string list" where
  "mission_ids_for_request cfg request s = (let r = stripped_text request in
     if r = [] then Inr []
     else ebind (defined_missions cfg s) (\<lambda>ds.
       Inr (map fst (filter (\<lambda>(_, _, text). contains text (''Request ID: '' @ r)) ds))))"

fun request_line :: "string list \<Rightarrow> string" where
  "request_line [] = []"
| "request_line (l # ls) = (if starts_with l ''Request ID: '' then strip (drop (length ''Request ID: '') l)
     else request_line ls)"

definition list_request_ids :: "adapter_config \<Rightarrow> request_queue \<Rightarrow> adapter_error + string list" where
  "list_request_ids cfg s = ebind (defined_missions cfg s) (\<lambda>ds.
     let correlated = filter (\<lambda>(_, r). r \<noteq> []) (map (\<lambda>(_, m, text).
           (case dget_or m ''created_seq'' (PInt 0) of PInt n \<Rightarrow> n | PBool b \<Rightarrow> of_bool b | _ \<Rightarrow> 0,
            request_line (splitlines text))) ds)
     in Inr (dedup (map snd (sort_key (\<lambda>(n, _). - n) correlated))))"

end
