(* ===== verification/RequestBatch.thy ===== *)
theory RequestBatch
  imports RequestQueueAdapter
begin

text \<open>
  A batch of the request queue adapter is all or nothing: when every mission stands behind the
  missions it depends on, and nothing in the queue waits for one of them, a failing batch leaves
  the missions of the queue and the definition files as they were.
\<close>

section \<open>What a batch adds\<close>

definition adapter_retries :: "adapter_config \<Rightarrow> int" where
  "adapter_retries cfg = (case ra_autonomous cfg of None \<Rightarrow> 0 | Some n \<Rightarrow> n)"

definition queued :: "adapter_config \<Rightarrow> int \<Rightarrow> prepared \<Rightarrow> mission" where
  "queued cfg n p = \<lparr>m_id = pr_id p, m_priority = pr_priority p, m_deps = sort (dedup (pr_deps p)),
     m_state = Pending, m_seq = n, m_attempts = 0, m_retries = adapter_retries cfg\<rparr>"

fun added ::
  "adapter_config \<Rightarrow> int \<Rightarrow> prepared list \<Rightarrow> (string \<Rightarrow> mission option) \<Rightarrow> string \<Rightarrow> mission option" where
  "added cfg n [] M = M"
| "added cfg n (p # ps) M = added cfg (n + 1) ps (M(pr_id p \<mapsto> queued cfg n p))"

lemma added_snoc:
  "added cfg n (ps @ [p]) M = (added cfg n ps M)(pr_id p \<mapsto> queued cfg (n + int (length ps)) p)"
  by (induction ps arbitrary: n M) (simp_all add: algebra_simps)

lemma added_outside: "i \<notin> pr_id ` set ps \<Longrightarrow> added cfg n ps M i = M i"
  by (induction ps arbitrary: n M) auto

lemma added_inside:
  "added cfg n ps M i = Some m \<Longrightarrow> i \<in> pr_id ` set ps \<Longrightarrow> \<exists>p \<in> set ps. \<exists>k. pr_id p = i \<and> m = queued cfg k p"
proof (induction ps arbitrary: n M)
  case (Cons p ps)
  show ?case
  proof (cases "i \<in> pr_id ` set ps")
    case True
    have "added cfg (n + 1) ps (M(pr_id p \<mapsto> queued cfg n p)) i = Some m" using Cons.prems(1) by simp
    from Cons.IH [OF this True] show ?thesis by (metis list.set_intros(2))
  next
    case False
    then have "m = queued cfg n p" "pr_id p = i" using Cons.prems by (auto simp: added_outside)
    then show ?thesis by auto
  qed
qed simp

lemma adapter_enqueue_eq:
  "adapter_enqueue cfg p = mq_enqueue (adapter_retries cfg) (pr_id p) (pr_priority p) (pr_deps p)
     (Some (adapter_retries cfg))"
  by (rule ext) (simp add: adapter_enqueue_def adapter_retries_def aq_enqueue_def split: option.split)

lemma enqueue_prepared_effect:
  "enqueue_prepared cfg enqueued ps s = (err, enqueued', s') \<Longrightarrow> load_queue (rq_disk s) = Inr q \<Longrightarrow>
     queue_wf q \<Longrightarrow>
     \<exists>k \<le> length ps. enqueued' = enqueued @ map pr_id (take k ps) \<and> (err = None \<longrightarrow> k = length ps) \<and>
       disk_wf (rq_disk s') \<and> rq_files s' = rq_files s \<and>
       mission_at (rq_disk s') = added cfg (next_seq q) (take k ps) (mission_at (rq_disk s)) \<and>
       (\<forall>p \<in> set (take k ps). mission_at (rq_disk s) (pr_id p) = None)"
proof (induction ps arbitrary: enqueued s q)
  case Nil
  then show ?case by (auto simp: disk_wf_def)
next
  case (Cons p ps)
  show ?case
  proof (cases "locked (adapter_enqueue cfg p) (rq_disk s)")
    case (Inl e)
    then show ?thesis using Cons.prems by (intro exI [of _ 0]) (auto simp: disk_wf_def)
  next
    case (Inr d)
    note fx = locked_enqueue [OF Cons.prems(2,3) Inr [unfolded adapter_enqueue_eq]]
    have new: "new_mission (adapter_retries cfg) (pr_id p) (pr_priority p) (pr_deps p)
        (Some (adapter_retries cfg)) q = queued cfg (next_seq q) p"
      by (simp add: new_mission_def queued_def)
    from fx(2,4) obtain q' where q': "load_queue d = Inr q'" "queue_wf q'" "next_seq q' = next_seq q + 1"
      by (auto simp: disk_wf_def)
    have run: "enqueue_prepared cfg (enqueued @ [pr_id p]) ps (s\<lparr>rq_disk := d\<rparr>) = (err, enqueued', s')"
      using Cons.prems(1) by (simp add: Inr)
    have "load_queue (rq_disk (s\<lparr>rq_disk := d\<rparr>)) = Inr q'" by (simp add: q'(1))
    from Cons.IH [OF run this q'(2)] obtain k where k: "k \<le> length ps"
      "enqueued' = (enqueued @ [pr_id p]) @ map pr_id (take k ps)" "err = None \<longrightarrow> k = length ps"
      "disk_wf (rq_disk s')" "rq_files s' = rq_files s"
      "mission_at (rq_disk s') = added cfg (next_seq q') (take k ps) (mission_at d)"
      "\<forall>x \<in> set (take k ps). mission_at d (pr_id x) = None"
      by auto
    have none: "\<forall>x \<in> set (take k ps). mission_at (rq_disk s) (pr_id x) = None"
      using k(7) by (auto simp: fx(3) split: if_splits)
    show ?thesis
      using k none fx(1) by (intro exI [of _ "Suc k"]) (simp add: fx(3) new q'(3))
  qed
qed

lemma write_definitions_effect:
  "write_definitions cfg written ps s = (err, written', s') \<Longrightarrow>
     \<exists>k \<le> length ps. written' = written @ map pr_path (take k ps) \<and> (err = None \<longrightarrow> k = length ps) \<and>
       rq_disk s' = rq_disk s \<and>
       map_of (rq_files s') = map_of (rq_files s) ++ map_of (rev (map (\<lambda>p. (pr_path p, pr_content p)) (take k ps)))"
proof (induction ps arbitrary: written s)
  case (Cons p ps)
  show ?case
  proof (cases "ra_writable cfg (pr_path p)")
    case True
    let ?s = "s\<lparr>rq_files := AList.update (pr_path p) (pr_content p) (rq_files s)\<rparr>"
    have "write_definitions cfg (written @ [pr_path p]) ps ?s = (err, written', s')"
      using Cons.prems True by simp
    from Cons.IH [OF this] obtain k where k: "k \<le> length ps"
      "written' = (written @ [pr_path p]) @ map pr_path (take k ps)" "err = None \<longrightarrow> k = length ps"
      "rq_disk s' = rq_disk ?s"
      "map_of (rq_files s') = map_of (rq_files ?s) ++
         map_of (rev (map (\<lambda>p. (pr_path p, pr_content p)) (take k ps)))"
      by blast
    have "map_of (rq_files s') = map_of (rq_files s) ++
        map_of (rev (map (\<lambda>p. (pr_path p, pr_content p)) (take (Suc k) (p # ps))))"
      unfolding k(5) by (rule ext) (simp add: map_add_def split: option.split)
    then show ?thesis using k(1-4) by (intro exI [of _ "Suc k"]) simp
  next
    case False
    then show ?thesis using Cons.prems by (intro exI [of _ 0]) auto
  qed
qed simp

section \<open>The rollback\<close>

fun backward_deps :: "prepared list \<Rightarrow> bool" where
  "backward_deps [] = True"
| "backward_deps (p # ps) = (set (pr_deps p) \<inter> pr_id ` set ps = {} \<and> backward_deps ps)"

lemma backward_deps_append:
  "backward_deps (ps @ qs) \<longleftrightarrow> backward_deps ps \<and> backward_deps qs \<and>
     (\<forall>p \<in> set ps. set (pr_deps p) \<inter> pr_id ` set qs = {})"
  by (induction ps) auto

definition unclaimed :: "(string \<Rightarrow> mission option) \<Rightarrow> string set \<Rightarrow> bool" where
  "unclaimed M ids \<longleftrightarrow> (\<forall>j m. M j = Some m \<longrightarrow> set (m_deps m) \<inter> ids = {})"

lemma remove_added:
  "disk_wf d \<Longrightarrow> mission_at d = added cfg n ps M \<Longrightarrow> backward_deps ps \<Longrightarrow> distinct (map pr_id ps) \<Longrightarrow>
     \<forall>p \<in> set ps. M (pr_id p) = None \<Longrightarrow> unclaimed M (pr_id ` set ps) \<Longrightarrow>
     mission_at (fold remove_mission (rev (map pr_id ps)) d) = M \<and>
     disk_wf (fold remove_mission (rev (map pr_id ps)) d)"
proof (induction ps arbitrary: d rule: rev_induct)
  case (snoc p ps)
  let ?i = "pr_id p"
  have at: "mission_at d = (added cfg n ps M)(?i \<mapsto> queued cfg (n + int (length ps)) p)"
    using snoc.prems(2) unfolding added_snoc .
  have fresh: "?i \<notin> pr_id ` set ps" using snoc.prems(4) by auto
  have free: "?i \<notin> set (m_deps k)" if k: "mission_at d j = Some k" "j \<noteq> ?i" for j k
  proof (cases "j \<in> pr_id ` set ps")
    case True
    then obtain x c where "x \<in> set ps" "k = queued cfg c x"
      using k added_inside [of cfg n ps M j k] by (auto simp: at)
    then show ?thesis using snoc.prems(3) by (auto simp: backward_deps_append queued_def)
  next
    case False
    then have "M j = Some k" using k by (simp add: at added_outside)
    then show ?thesis using snoc.prems(6) by (auto simp: unclaimed_def)
  qed
  obtain d' where d': "locked (mq_dequeue ?i) d = Inr d'" "disk_wf d'" "mission_at d' = (mission_at d)(?i := None)"
    by (rule locked_dequeue [OF snoc.prems(1), of ?i "queued cfg (n + int (length ps)) p"])
      (use free in \<open>auto simp: at queued_def\<close>)
  have "added cfg n ps M ?i = None" using fresh snoc.prems(5) by (simp add: added_outside)
  then have "mission_at d' = added cfg n ps M" by (simp add: d'(3) at fun_upd_idem)
  moreover have "unclaimed M (pr_id ` set ps)" using snoc.prems(6) by (auto simp: unclaimed_def)
  ultimately show ?case
    using snoc.IH [OF d'(2)] snoc.prems by (simp add: remove_mission_def d'(1) backward_deps_append)
qed simp

lemma map_of_deletes: "map_of (fold AList.delete ks fs) k = (if k \<in> set ks then None else map_of fs k)"
  by (induction ks arbitrary: fs) auto

section \<open>All or nothing\<close>

definition same_content :: "request_queue \<Rightarrow> request_queue \<Rightarrow> bool" where
  "same_content s s' \<longleftrightarrow> mission_at (rq_disk s') = mission_at (rq_disk s) \<and>
     map_of (rq_files s') = map_of (rq_files s) \<and> disk_wf (rq_disk s')"

definition batch_added :: "adapter_config \<Rightarrow> prepared list \<Rightarrow> request_queue \<Rightarrow> request_queue \<Rightarrow> bool" where
  "batch_added cfg ps s s' \<longleftrightarrow> disk_wf (rq_disk s') \<and>
     (\<exists>q. load_queue (rq_disk s) = Inr q \<and>
       mission_at (rq_disk s') = added cfg (next_seq q) ps (mission_at (rq_disk s))) \<and>
     map_of (rq_files s') =
       map_of (rq_files s) ++ map_of (rev (map (\<lambda>p. (pr_path p, pr_content p)) ps))"

lemma written_restored:
  assumes "map_of fs' = map_of fs ++ map_of (rev (map (\<lambda>p. (pr_path p, pr_content p)) ps))"
    and "\<forall>p \<in> set ps. map_of fs (pr_path p) = None"
  shows "map_of (fold AList.delete (rev (map pr_path ps)) fs') = map_of fs"
proof
  fix k
  show "map_of (fold AList.delete (rev (map pr_path ps)) fs') k = map_of fs k"
  proof (cases "k \<in> pr_path ` set ps")
    case True
    then show ?thesis using assms(2) by (auto simp: map_of_deletes)
  next
    case False
    then have "map_of (rev (map (\<lambda>p. (pr_path p, pr_content p)) ps)) k = None"
      by (force simp: map_of_eq_None_iff)
    then show ?thesis using False by (simp add: map_of_deletes assms(1) map_add_def)
  qed
qed

lemma submit_prepared_effect:
  assumes wf: "disk_wf (rq_disk s)" and run: "submit_prepared cfg ps s = (r, s')"
    and bwd: "backward_deps ps" and d: "distinct (map pr_id ps)"
    and fresh: "\<forall>p \<in> set ps. map_of (rq_files s) (pr_path p) = None"
    and un: "unclaimed (mission_at (rq_disk s)) (pr_id ` set ps)"
  shows "(case r of Inl _ \<Rightarrow> same_content s s' | Inr ids \<Rightarrow> ids = map pr_id ps \<and> batch_added cfg ps s s')"
proof -
  obtain werr written s1 where w: "write_definitions cfg [] ps s = (werr, written, s1)"
    by (cases "write_definitions cfg [] ps s")
  obtain k where k: "written = map pr_path (take k ps)" "werr = None \<longrightarrow> k = length ps" "k \<le> length ps"
    "rq_disk s1 = rq_disk s"
    "map_of (rq_files s1) = map_of (rq_files s) ++ map_of (rev (map (\<lambda>p. (pr_path p, pr_content p)) (take k ps)))"
    using write_definitions_effect [OF w] by auto
  have "\<forall>p \<in> set (take k ps). map_of (rq_files s) (pr_path p) = None"
    using fresh by (auto dest: in_set_takeD)
  note files = written_restored [OF k(5) this, folded k(1)]
  show ?thesis
  proof (cases werr)
    case (Some e)
    then have "r = Inl e" "s' = roll_back [] written s1" using run by (auto simp: submit_prepared_def w)
    then show ?thesis using files wf by (simp add: same_content_def roll_back_def k(4))
  next
    case None
    obtain qerr enqueued s2 where e: "enqueue_prepared cfg [] ps s1 = (qerr, enqueued, s2)"
      by (cases "enqueue_prepared cfg [] ps s1")
    obtain q where q: "load_queue (rq_disk s) = Inr q" "queue_wf q" using wf by (auto simp: disk_wf_def)
    obtain j where j: "j \<le> length ps" "enqueued = map pr_id (take j ps)" "qerr = None \<longrightarrow> j = length ps"
      "disk_wf (rq_disk s2)" "rq_files s2 = rq_files s1"
      "mission_at (rq_disk s2) = added cfg (next_seq q) (take j ps) (mission_at (rq_disk s))"
      "\<forall>p \<in> set (take j ps). mission_at (rq_disk s) (pr_id p) = None"
      using enqueue_prepared_effect [OF e] q by (auto simp: k(4))
    show ?thesis
    proof (cases qerr)
      case None
      then have "r = Inr enqueued" "s' = s2" using run w e \<open>werr = None\<close> by (auto simp: submit_prepared_def)
      then show ?thesis using j k \<open>werr = None\<close> None q(1) by (simp add: batch_added_def)
    next
      case (Some x)
      then have r: "r = Inl x" "s' = roll_back enqueued written s2"
        using run w e \<open>werr = None\<close> by (auto simp: submit_prepared_def)
      have split: "backward_deps (take j ps @ drop j ps)" using bwd by simp
      have bj: "backward_deps (take j ps)" using split by (simp only: backward_deps_append)
      have dj: "distinct (map pr_id (take j ps))" using d by (simp flip: take_map)
      have uj: "unclaimed (mission_at (rq_disk s)) (pr_id ` set (take j ps))"
        using un set_take_subset [of j ps] unfolding unclaimed_def by blast
      have "mission_at (rq_disk s') = mission_at (rq_disk s) \<and> disk_wf (rq_disk s')"
        using remove_added [OF j(4,6) bj dj j(7) uj] by (simp add: r(2) roll_back_def j(2))
      then show ?thesis using files by (simp add: r same_content_def roll_back_def j(5))
    qed
  qed
qed

text \<open>Nothing but a write error or an identifier already queued stops such a batch.\<close>

lemma enqueue_prepared_ok:
  "disk_wf (rq_disk s) \<Longrightarrow> backward_deps ps \<Longrightarrow> distinct (map pr_id ps) \<Longrightarrow>
     \<forall>p \<in> set ps. mission_at (rq_disk s) (pr_id p) = None \<and> pr_id p \<notin> set (pr_deps p) \<Longrightarrow>
     unclaimed (mission_at (rq_disk s)) (pr_id ` set ps) \<Longrightarrow>
     \<exists>ids s'. enqueue_prepared cfg enqueued ps s = (None, ids, s')"
proof (induction ps arbitrary: enqueued s)
  case (Cons p ps)
  obtain q where q: "load_queue (rq_disk s) = Inr q" "queue_wf q"
    using Cons.prems(1) by (auto simp: disk_wf_def)
  have free: "pr_id p \<notin> set (m_deps k)" if "mission_at (rq_disk s) j = Some k" for j k
    using Cons.prems(5) that by (auto simp: unclaimed_def)
  obtain d where d: "locked (adapter_enqueue cfg p) (rq_disk s) = Inr d"
    unfolding adapter_enqueue_eq using locked_enqueue_ok [OF Cons.prems(1) _ free] Cons.prems(4)
    by (meson list.set_intros(1))
  note fx = locked_enqueue [OF q d [unfolded adapter_enqueue_eq]]
  let ?s = "s\<lparr>rq_disk := d\<rparr>"
  have "\<exists>ids s'. enqueue_prepared cfg (enqueued @ [pr_id p]) ps ?s = (None, ids, s')"
  proof (rule Cons.IH)
    show "disk_wf (rq_disk ?s)" by (simp add: fx(2))
    show "backward_deps ps" "distinct (map pr_id ps)" using Cons.prems(2,3) by simp_all
    show "\<forall>x \<in> set ps. mission_at (rq_disk ?s) (pr_id x) = None \<and> pr_id x \<notin> set (pr_deps x)"
      using Cons.prems(3,4) by (simp add: fx(3)) (metis image_eqI)
    show "unclaimed (mission_at (rq_disk ?s)) (pr_id ` set ps)"
      using Cons.prems(2,5) by (auto simp: unclaimed_def fx(3) new_mission_def)
  qed
  then show ?case by (simp add: d)
qed simp

lemma write_definitions_ok:
  "\<forall>p \<in> set ps. ra_writable cfg (pr_path p) \<Longrightarrow>
     \<exists>written s'. write_definitions cfg written0 ps s = (None, written, s')"
  by (induction ps arbitrary: written0 s) auto

lemma submit_prepared_ok:
  assumes "disk_wf (rq_disk s)" and "backward_deps ps" and "distinct (map pr_id ps)"
    and "unclaimed (mission_at (rq_disk s)) (pr_id ` set ps)"
    and "\<forall>p \<in> set ps. mission_at (rq_disk s) (pr_id p) = None \<and> pr_id p \<notin> set (pr_deps p) \<and>
      ra_writable cfg (pr_path p)"
  shows "\<exists>ids s'. submit_prepared cfg ps s = (Inr ids, s')"
proof -
  obtain written s1 where w: "write_definitions cfg [] ps s = (None, written, s1)"
    using write_definitions_ok [of ps cfg] assms(5) by blast
  have same: "rq_disk s1 = rq_disk s" using write_definitions_effect [OF w] by blast
  have "\<exists>ids s'. enqueue_prepared cfg [] ps s1 = (None, ids, s')"
    by (rule enqueue_prepared_ok) (use assms same in auto)
  then show ?thesis by (auto simp: submit_prepared_def w)
qed

text \<open>Conversely a batch that went through was writable and new.\<close>

lemma write_definitions_None:
  "write_definitions cfg written ps s = (None, written', s') \<Longrightarrow> \<forall>p \<in> set ps. ra_writable cfg (pr_path p)"
  by (induction ps arbitrary: written s) (auto split: if_splits)

lemma submit_prepared_Inr:
  assumes "disk_wf (rq_disk s)" and "submit_prepared cfg ps s = (Inr ids, s')"
  shows "\<forall>p \<in> set ps. mission_at (rq_disk s) (pr_id p) = None \<and> ra_writable cfg (pr_path p)"
proof -
  obtain written s1 where w: "write_definitions cfg [] ps s = (None, written, s1)"
    and e: "enqueue_prepared cfg [] ps s1 = (None, ids, s')"
    using assms(2) by (auto simp: submit_prepared_def split: prod.splits option.splits)
  have same: "rq_disk s1 = rq_disk s" using write_definitions_effect [OF w] by blast
  obtain q where q: "load_queue (rq_disk s1) = Inr q" "queue_wf q"
    using assms(1) same by (auto simp: disk_wf_def)
  show ?thesis
    using enqueue_prepared_effect [OF e q] write_definitions_None [OF w] by (auto simp: same)
qed

section \<open>From missions to prepared ones\<close>

lemma mission_char_no_space: "mission_char c \<Longrightarrow> \<not> py_space c"
  by (auto simp: mission_char_def py_space_def Let_def)

lemma mission_id_ok_chars: "mission_id_ok s \<Longrightarrow> s \<noteq> [] \<and> (\<forall>c \<in> set s. mission_char c)"
  by (cases s) (auto simp: mission_id_ok_def list_all_iff)

lemma mission_id_ok_strip: "mission_id_ok s \<Longrightarrow> strip s = s"
  using mission_id_ok_chars mission_char_no_space by (intro strip_solid) blast

lemma valid_id_text:
  assumes "mission_id_ok (py_str v)" and "valid_id v = Inr i"
  shows "i = py_str v"
proof -
  have "\<not> mission_id_ok (strip [])" by (simp add: strip_def mission_id_ok_def)
  then show ?thesis
    using assms mission_id_ok_strip [OF assms(1)]
    by (auto simp: valid_id_def stripped_text_def Let_def split: if_splits)
qed

definition plain_id :: "pyval dict \<Rightarrow> bool" where
  "plain_id m \<longleftrightarrow> mission_id_ok (py_str (dget m ''mission_id''))"

lemma prepare_mission_Inr:
  assumes "prepare_mission cfg files ids v = Inr p"
  shows "\<exists>m vs. v = PDict m \<and> pr_id p \<notin> set ids \<and> valid_id (dget m ''mission_id'') = Inr (pr_id p) \<and>
    dget_or m ''dependencies'' (PList []) = PList vs \<and> emap valid_id vs = Inr (pr_deps p) \<and>
    map_of files (pr_path p) = None \<and> render_definition m = Inr (pr_content p) \<and>
    stripped_text (dget m ''project_id'') = ra_project cfg \<and>
    definition_path cfg (pr_id p) = Inr (pr_path p)"
proof -
  obtain m where m: "v = PDict m" using assms by (cases v) (auto simp: prepare_mission_def)
  obtain vs where vs: "dget_or m ''dependencies'' (PList []) = PList vs"
    using assms unfolding m prepare_mission_def
    by (cases "dget_or m ''dependencies'' (PList [])") (auto simp: err_simps)
  show ?thesis using assms unfolding m prepare_mission_def by (auto simp: vs err_simps)
qed

lemma prepare_missions_Inr:
  "prepare_missions cfg files ids vs = Inr ps \<Longrightarrow>
     list_all2 (\<lambda>v p. \<exists>ids. prepare_mission cfg files ids v = Inr p) vs ps \<and>
     distinct (map pr_id ps) \<and> set ids \<inter> pr_id ` set ps = {}"
proof (induction vs arbitrary: ids ps)
  case (Cons v vs)
  then obtain p qs where p: "prepare_mission cfg files ids v = Inr p"
    "prepare_missions cfg files (ids @ [pr_id p]) vs = Inr qs" "ps = p # qs"
    by (auto simp: err_simps)
  moreover have "pr_id p \<notin> set ids" using prepare_mission_Inr [OF p(1)] by blast
  ultimately show ?case using Cons.IH [OF p(2)] by auto
qed simp

end
