(* ===== verification/EnqueueCoordinator.thy ===== *)
theory EnqueueCoordinator
  imports PyMonad PyValue FlowOrder
begin

text \<open>
  \<^verbatim>\<open>agent/orchestrator/queue_enqueue_coordinator.py\<close>: a list of missions is checked and handed to
  a project's queue, in one call where the queue takes batches and one by one otherwise.  The
  resolver, the clock and the event sink are arguments; a queue is what the code looks at, its
  project and its methods by name.  A sink that raises loses the event, so \<open>co_emit\<close> has no error.
\<close>

section \<open>Data\<close>

definition batch_methods :: "string list" where
  "batch_methods = [''enqueue_batch'', ''enqueue_many'', ''enqueue_missions'']"

definition single_methods :: "string list" where
  "single_methods = [''enqueue'', ''enqueue_one'', ''enqueue_mission'']"

definition required_mission_fields :: "string list" where
  "required_mission_fields = [''mission_id'', ''project_id'', ''request_id'', ''conversation_id'',
     ''plan_id'', ''step_id'', ''title'', ''description'', ''task_type'', ''provider_id'', ''model_id'',
     ''dependencies'', ''priority'', ''payload'', ''status'', ''created_at'']"

definition allowed_event_keys :: "string list" where
  "allowed_event_keys = [''type'', ''project_id'', ''mission_id'', ''mission_ids'', ''count'',
     ''enqueued_count'', ''atomic'', ''timestamp'']"

type_synonym 's queue_method = "pyval \<Rightarrow> ('s, unit, pyval) action"

record 's project_queue =
  pq_project :: "pyval option"                      \<comment> \<open>\<open>None\<close>: no such attribute\<close>
  pq_method :: "string \<Rightarrow> 's queue_method option"   \<comment> \<open>\<open>None\<close>: missing or not callable\<close>

record 's coordinator =
  co_resolve :: "pyval \<Rightarrow> pyval \<Rightarrow> ('s, unit, 's project_queue) action"
  co_now :: "'s \<Rightarrow> string \<times> 's"                     \<comment> \<open>\<open>_now_iso\<close>, the fallback included\<close>
  co_emit :: "pyval dict \<Rightarrow> 's \<Rightarrow> 's"

record enqueue_check =
  ec_valid :: bool
  ec_reason :: "string option"
  ec_error :: "string option"

record enqueue_result =
  er_accepted :: bool
  er_project :: string
  er_missions :: "string list"
  er_count :: nat
  er_atomic :: bool
  er_blocked :: "string option"
  er_created :: string

section \<open>The check of a request\<close>

definition refuse :: "string \<Rightarrow> string \<Rightarrow> enqueue_check" where
  "refuse reason err = \<lparr>ec_valid = False, ec_reason = Some reason, ec_error = Some err\<rparr>"

text \<open>The checks of one mission, in order; an error is the reason with the detail.\<close>

definition invalid_enqueue :: "string \<Rightarrow> (string \<times> string) + 'a" where
  "invalid_enqueue err = Inl (''invalid_enqueue_request'', err)"

definition enqueue_id :: "pyval dict \<Rightarrow> string" where
  "enqueue_id m = py_str (dget m ''mission_id'')"

definition check_mission :: "pyval \<Rightarrow> string list \<Rightarrow> pyval \<Rightarrow> (string \<times> string) + pyval dict" where
  "check_mission project ids v = (case v of
       PDict m \<Rightarrow>
         if fst ` set m \<noteq> set required_mission_fields then invalid_enqueue ''unknown_or_missing_fields''
         else if enqueue_id m = [] then invalid_enqueue ''missing_mission_id''
         else if enqueue_id m \<in> set ids then invalid_enqueue ''duplicate_mission_id''
         else if py_str (dget m ''project_id'') \<noteq> py_str project
         then Inl (''cross_project_reference'', ''mission_project_mismatch'')
         else if dget m ''status'' \<noteq> PStr ''pending'' then invalid_enqueue ''status_not_pending''
         else Inr m
     | _ \<Rightarrow> invalid_enqueue ''mission_not_mapping'')"

fun check_missions :: "pyval \<Rightarrow> string list \<Rightarrow> pyval list \<Rightarrow> (string \<times> string) + pyval dict list" where
  "check_missions project ids [] = Inr []"
| "check_missions project ids (v # vs) =
     ebind (check_mission project ids v) (\<lambda>m.
     ebind (check_missions project (ids @ [enqueue_id m]) vs) (\<lambda>ms. Inr (m # ms)))"

definition check_enqueue_dep ::
  "string list \<Rightarrow> string list \<Rightarrow> string \<Rightarrow> (string \<times> string) + unit" where
  "check_enqueue_dep ids seen d =
     (if d \<notin> set ids then invalid_enqueue ''unknown_dependency''
      else if d \<notin> set seen then invalid_enqueue ''dependency_order_violation'' else Inr ())"

fun check_order :: "string list \<Rightarrow> string list \<Rightarrow> pyval dict list \<Rightarrow> (string \<times> string) + unit" where
  "check_order ids seen [] = Inr ()"
| "check_order ids seen (m # ms) = (case dget m ''dependencies'' of
       PList deps \<Rightarrow>
         if enqueue_id m \<in> set (map py_str deps) then invalid_enqueue ''self_dependency''
         else ebind (emap (check_enqueue_dep ids seen) (map py_str deps)) (\<lambda>_.
           check_order ids (seen @ [enqueue_id m]) ms)
     | _ \<Rightarrow> invalid_enqueue ''dependencies_not_list'')"

definition non_blank :: "pyval \<Rightarrow> bool" where
  "non_blank v = (case v of PStr s \<Rightarrow> strip s \<noteq> [] | _ \<Rightarrow> False)"

definition validate_enqueue_request :: "pyval \<Rightarrow> pyval \<Rightarrow> pyval \<Rightarrow> enqueue_check" where
  "validate_enqueue_request project reference ms =
     (if \<not> non_blank project then refuse ''invalid_enqueue_request'' ''invalid_project_id''
      else case ms of
          PList (v # vs) \<Rightarrow>
            (case ebind (check_missions project [] (v # vs)) (\<lambda>ds.
                check_order (map enqueue_id ds) [] ds) of
               Inl (reason, err) \<Rightarrow> refuse reason err
             | Inr _ \<Rightarrow>
                 if \<not> non_blank reference
                 then refuse ''invalid_enqueue_request'' ''invalid_queue_reference''
                 else \<lparr>ec_valid = True, ec_reason = None, ec_error = None\<rparr>)
        | _ \<Rightarrow> refuse ''invalid_enqueue_request'' ''empty_or_invalid_missions'')"

section \<open>Events and results\<close>

definition emit_safe :: "'s coordinator \<Rightarrow> pyval dict \<Rightarrow> 's \<Rightarrow> 's" where
  "emit_safe co event s =
     (let safe = map (\<lambda>k. (k, dget event k)) (filter (\<lambda>k. map_of event k \<noteq> None) allowed_event_keys)
      in if map_of safe ''timestamp'' = None
         then (case co_now co s of (t, s') \<Rightarrow> co_emit co (safe @ [(''timestamp'', PStr t)]) s')
         else co_emit co safe s)"

text \<open>The usual event: its time is read when the event is built.\<close>

definition emit_now :: "'s coordinator \<Rightarrow> string \<Rightarrow> pyval \<Rightarrow> pyval dict \<Rightarrow> 's \<Rightarrow> 's" where
  "emit_now co kind project details s = (case co_now co s of (t, s') \<Rightarrow>
     emit_safe co ((''type'', PStr kind) # (''project_id'', project) # details @ [(''timestamp'', PStr t)]) s')"

definition counted :: "nat \<Rightarrow> bool \<Rightarrow> pyval dict" where
  "counted n atomic = [(''enqueued_count'', PInt (int n)), (''atomic'', PBool atomic)]"

definition enqueue_outcome ::
  "bool \<Rightarrow> pyval \<Rightarrow> string list \<Rightarrow> bool \<Rightarrow> string option \<Rightarrow> string \<Rightarrow> enqueue_result" where
  "enqueue_outcome accepted project ids atomic blocked created =
     \<lparr>er_accepted = accepted, er_project = py_str project, er_missions = ids, er_count = length ids,
      er_atomic = atomic, er_blocked = blocked, er_created = created\<rparr>"

section \<open>Handing the missions over\<close>

definition first_callable :: "'s project_queue \<Rightarrow> string list \<Rightarrow> 's queue_method option" where
  "first_callable q names = (case filter (\<lambda>n. pq_method q n \<noteq> None) names of
       [] \<Rightarrow> None | n # _ \<Rightarrow> pq_method q n)"

definition ids_of :: "pyval \<Rightarrow> string list" where
  "ids_of ms = (case ms of
       PList vs \<Rightarrow> map (\<lambda>v. case v of PDict m \<Rightarrow> enqueue_id m | _ \<Rightarrow> []) vs | _ \<Rightarrow> [])"

definition same_ids :: "pyval \<Rightarrow> string list \<Rightarrow> bool" where
  "same_ids returned expected = (case returned of PList vs \<Rightarrow> map py_str vs = expected | _ \<Rightarrow> False)"

definition enqueue_together ::
  "'s coordinator \<Rightarrow> 's queue_method \<Rightarrow> pyval \<Rightarrow> pyval \<Rightarrow> string \<Rightarrow> 's \<Rightarrow> enqueue_result \<times> 's" where
  "enqueue_together co batch project ms created s =
     (let expected = ids_of ms;
          amount = (''count'', PInt (int (length expected)));
          s1 = emit_now co ''queue_batch_started'' project [amount, (''atomic'', PBool True)] s
      in case batch ms s1 of
           (Inr returned, s2) \<Rightarrow>
             if same_ids returned expected
             then (enqueue_outcome True project expected True None created,
               emit_now co ''enqueue_completed'' project (counted (length expected) True)
                 (emit_now co ''queue_batch_completed'' project [amount, (''atomic'', PBool True)] s2))
             else (enqueue_outcome False project [] True (Some ''queue_failed'') created,
               emit_now co ''enqueue_completed'' project (counted 0 True)
                 (emit_now co ''queue_failed'' project (counted 0 True) s2))
         | (Inl _, s2) \<Rightarrow>
             (enqueue_outcome False project [] True (Some ''queue_failed'') created,
               emit_now co ''enqueue_completed'' project (counted 0 True)
                 (emit_now co ''queue_failed'' project (counted 0 True) s2)))"

definition enqueue_stopped ::
  "'s coordinator \<Rightarrow> pyval \<Rightarrow> nat \<Rightarrow> string list \<Rightarrow> string \<Rightarrow> 's \<Rightarrow> enqueue_result \<times> 's" where
  "enqueue_stopped co project amount ids created s =
     (let n = length ids;
          s1 = emit_now co ''queue_failed'' project (counted n False) s;
          s2 = (if ids = [] then s1 else emit_now co ''partial_enqueue'' project
            ((''count'', PInt (int amount)) # counted n False) s1)
      in (enqueue_outcome False project ids False
            (Some (if ids = [] then ''queue_failed'' else ''partial_enqueue'')) created,
          emit_now co ''enqueue_completed'' project (counted n False) s2))"

fun enqueue_each ::
  "'s coordinator \<Rightarrow> 's queue_method \<Rightarrow> pyval \<Rightarrow> nat \<Rightarrow> string \<Rightarrow> string list \<Rightarrow> pyval list \<Rightarrow> 's \<Rightarrow>
   enqueue_result \<times> 's" where
  "enqueue_each co single project amount created ids [] s =
     (enqueue_outcome True project ids False None created,
      emit_now co ''enqueue_completed'' project (counted (length ids) False) s)"
| "enqueue_each co single project amount created ids (v # vs) s =
     (let mid = hd (ids_of (PList [v])) in
      case single v s of
        (Inr rv, s') \<Rightarrow>
          if rv = PBool False then enqueue_stopped co project amount ids created s'
          else enqueue_each co single project amount created (ids @ [mid]) vs
            (emit_now co ''mission_enqueued'' project
              [(''mission_id'', PStr mid), (''atomic'', PBool False)] s')
      | (Inl _, s') \<Rightarrow> enqueue_stopped co project amount ids created s')"

definition enqueue_singly ::
  "'s coordinator \<Rightarrow> 's queue_method \<Rightarrow> pyval \<Rightarrow> pyval \<Rightarrow> string \<Rightarrow> 's \<Rightarrow> enqueue_result \<times> 's" where
  "enqueue_singly co single project ms created s = (case ms of
       PList vs \<Rightarrow> enqueue_each co single project (length vs) created [] vs
         (emit_now co ''queue_individual_started'' project
           [(''count'', PInt (int (length vs))), (''atomic'', PBool False)] s)
     | _ \<Rightarrow> (enqueue_outcome False project [] False None created, s))"

definition not_enqueued :: "pyval \<Rightarrow> string \<Rightarrow> string \<Rightarrow> enqueue_result" where
  "not_enqueued project reason created = enqueue_outcome False project [] False (Some reason) created"

definition enqueue_resolved ::
  "'s coordinator \<Rightarrow> 's project_queue \<Rightarrow> pyval \<Rightarrow> pyval \<Rightarrow> string \<Rightarrow> 's \<Rightarrow> enqueue_result \<times> 's" where
  "enqueue_resolved co q project ms created s =
     (if map_option py_str (pq_project q) \<noteq> Some (py_str project)
      then (not_enqueued project ''cross_project_reference'' created,
        emit_now co ''queue_resolution_failed'' project [] s)
      else case first_callable q batch_methods of
          Some batch \<Rightarrow> enqueue_together co batch project ms created s
        | None \<Rightarrow> (case first_callable q single_methods of
              Some single \<Rightarrow> enqueue_singly co single project ms created s
            | None \<Rightarrow> (not_enqueued project ''unsupported_queue_interface'' created, s)))"

definition coordinator_enqueue ::
  "'s coordinator \<Rightarrow> pyval \<Rightarrow> pyval \<Rightarrow> pyval \<Rightarrow> 's \<Rightarrow> enqueue_result \<times> 's" where
  "coordinator_enqueue co project reference ms s =
     (case co_now co s of (created, s1) \<Rightarrow>
        let check = validate_enqueue_request project reference ms in
        if \<not> ec_valid check
        then (not_enqueued project
          (case ec_reason check of Some (c # r) \<Rightarrow> c # r | _ \<Rightarrow> ''invalid_enqueue_request'') created, s1)
        else let s2 = emit_safe co [(''type'', PStr ''queue_resolution_started''),
            (''project_id'', project), (''timestamp'', PStr created)] s1 in
          (case co_resolve co project reference s2 of
             (Inl _, s3) \<Rightarrow> (not_enqueued project ''queue_resolution_failed'' created,
               emit_now co ''queue_resolution_failed'' project [] s3)
           | (Inr q, s3) \<Rightarrow> enqueue_resolved co q project ms created s3))"

text \<open>\<open>latest_events\<close> keeps the allowed fields of the sink's events.\<close>

definition sanitized_events :: "unit + pyval list \<Rightarrow> pyval dict list" where
  "sanitized_events answer = (case answer of
       Inl _ \<Rightarrow> []
     | Inr es \<Rightarrow> concat (map (\<lambda>e. case e of
           PDict d \<Rightarrow> [map (\<lambda>k. (k, dget d k)) (filter (\<lambda>k. map_of d k \<noteq> None) allowed_event_keys)]
         | _ \<Rightarrow> []) es))"

section \<open>What the check accepts\<close>

definition deps_at :: "pyval dict \<Rightarrow> string set" where
  "deps_at m = (case dget m ''dependencies'' of PList vs \<Rightarrow> py_str ` set vs | _ \<Rightarrow> {})"

fun deps_before :: "string set \<Rightarrow> pyval dict list \<Rightarrow> bool" where
  "deps_before E [] = True"
| "deps_before E (m # ms) = (deps_at m \<subseteq> E \<and> deps_before (insert (enqueue_id m) E) ms)"

text \<open>A mission the coordinator takes for a project, apart from its dependencies.\<close>

definition submittable :: "pyval \<Rightarrow> pyval dict \<Rightarrow> bool" where
  "submittable project m \<longleftrightarrow> fst ` set m = set required_mission_fields \<and> enqueue_id m \<noteq> [] \<and>
     py_str (dget m ''project_id'') = py_str project \<and> dget m ''status'' = PStr ''pending''"

definition submission :: "pyval \<Rightarrow> pyval dict list \<Rightarrow> bool" where
  "submission project ms \<longleftrightarrow> ms \<noteq> [] \<and> distinct (map enqueue_id ms) \<and>
     (\<forall>m \<in> set ms. submittable project m \<and> is_list (dget m ''dependencies'')) \<and> deps_before {} ms"

lemma deps_before_ordered:
  "(\<And>m. m \<in> set ms \<Longrightarrow> D (enqueue_id m) = deps_at m) \<Longrightarrow>
     deps_before E ms \<longleftrightarrow> ordered_from D E (map enqueue_id ms)"
  by (induction ms arbitrary: E) auto

lemma check_mission_Inr:
  "check_mission project ids v = Inr m \<longleftrightarrow>
     v = PDict m \<and> enqueue_id m \<notin> set ids \<and> submittable project m"
  by (auto simp: check_mission_def invalid_enqueue_def submittable_def split: pyval.splits if_splits)

lemma check_missions_Inr:
  "check_missions project ids vs = Inr ms \<longleftrightarrow> vs = map PDict ms \<and>
     distinct (map enqueue_id ms) \<and> set ids \<inter> enqueue_id ` set ms = {} \<and>
     (\<forall>m \<in> set ms. submittable project m)"
proof (induction vs arbitrary: ids ms)
  case (Cons v vs)
  show ?case by (cases ms) (auto simp: Cons check_mission_Inr err_simps)
qed auto

lemma check_dependencies_ok:
  "set seen \<subseteq> set ids \<Longrightarrow> is_ok (emap (check_enqueue_dep ids seen) ds) \<longleftrightarrow> set ds \<subseteq> set seen"
  by (auto simp: is_ok_emap check_enqueue_dep_def invalid_enqueue_def)

lemma check_order_Inr:
  "set seen \<subseteq> set ids \<Longrightarrow> enqueue_id ` set ms \<subseteq> set ids \<Longrightarrow> distinct (map enqueue_id ms) \<Longrightarrow>
     set seen \<inter> enqueue_id ` set ms = {} \<Longrightarrow>
     check_order ids seen ms = Inr () \<longleftrightarrow>
       (\<forall>m \<in> set ms. is_list (dget m ''dependencies'')) \<and> deps_before (set seen) ms"
proof (induction ms arbitrary: seen)
  case (Cons m ms)
  show ?case
  proof (cases "dget m ''dependencies''")
    case (PList deps)
    have d: "deps_at m = set (map py_str deps)" by (simp add: deps_at_def PList)
    have ih: "check_order ids (seen @ [enqueue_id m]) ms = Inr () \<longleftrightarrow>
        (\<forall>m \<in> set ms. is_list (dget m ''dependencies'')) \<and> deps_before (insert (enqueue_id m) (set seen)) ms"
      using Cons.IH [of "seen @ [enqueue_id m]"] Cons.prems by auto
    have "(\<exists>x. emap (check_enqueue_dep ids seen) (map py_str deps) = Inr x) \<longleftrightarrow> set (map py_str deps) \<subseteq> set seen"
      using check_dependencies_ok [OF Cons.prems(1)] by (simp only: is_ok_iff)
    then show ?thesis
      using Cons.prems by (auto simp: PList d ih invalid_enqueue_def err_simps is_list_def [of "PList _"]
          simp del: set_map)
  qed (simp_all add: invalid_enqueue_def is_list_def)
qed simp

lemma validate_enqueue_accepts:
  "ec_valid (validate_enqueue_request project reference vs) \<longleftrightarrow>
     non_blank project \<and> non_blank reference \<and> (\<exists>ms. vs = PList (map PDict ms) \<and> submission project ms)"
proof -
  have run: "is_ok (ebind (check_missions project [] ws) (\<lambda>ds. check_order (map enqueue_id ds) [] ds)) \<longleftrightarrow>
      (\<exists>ms. ws = map PDict ms \<and> (ws \<noteq> [] \<longrightarrow> submission project ms))" for ws
    by (auto simp: is_ok_iff err_simps check_missions_Inr check_order_Inr submission_def)
  show ?thesis
  proof (cases vs)
    case (PList ws)
    show ?thesis
    proof (cases ws)
      case Nil
      then show ?thesis by (simp add: PList validate_enqueue_request_def refuse_def submission_def)
    next
      case (Cons w us)
      have "ec_valid (validate_enqueue_request project reference vs) \<longleftrightarrow> non_blank project \<and> non_blank reference \<and>
          is_ok (ebind (check_missions project [] ws) (\<lambda>ds. check_order (map enqueue_id ds) [] ds))"
        by (auto simp: PList Cons validate_enqueue_request_def refuse_def is_ok_def split: sum.splits)
      then show ?thesis unfolding run by (auto simp: PList Cons)
    qed
  qed (simp_all add: validate_enqueue_request_def refuse_def)
qed

section \<open>What the coordinator relies on\<close>

text \<open>The clock, the sink and the resolver leave what \<open>view\<close> shows of the world alone.\<close>

locale quiet_coordinator =
  fixes co :: "'s coordinator" and view :: "'s \<Rightarrow> 'v"
  assumes now_view: "view (snd (co_now co s)) = view s"
    and emit_view: "view (co_emit co event s) = view s"
    and resolve_view: "view (snd (co_resolve co project reference s)) = view s"
begin

lemma emit_safe_view: "view (emit_safe co event s) = view s"
  using now_view [of s] by (cases "co_now co s") (simp add: emit_safe_def Let_def emit_view)

lemma emit_now_view: "view (emit_now co kind project details s) = view s"
  using now_view [of s] by (cases "co_now co s") (simp add: emit_now_def emit_safe_view)

end

text \<open>A queue that takes batches: with what it accepts at once it does \<open>taken\<close>, or it raises and
  \<open>kept\<close> relates the worlds before and after.\<close>

locale batch_coordinator = quiet_coordinator co view
  for co :: "'s coordinator" and view :: "'s \<Rightarrow> 'v" +
  fixes takes :: "pyval dict list \<Rightarrow> 'v \<Rightarrow> bool"
    and taken :: "pyval dict list \<Rightarrow> 'v \<Rightarrow> 'v \<Rightarrow> bool"
    and kept :: "'v \<Rightarrow> 'v \<Rightarrow> bool"
  assumes batch: "co_resolve co project reference s = (Inr q, s1) \<Longrightarrow> submission project ms \<Longrightarrow>
      \<exists>f. first_callable q batch_methods = Some f \<and> (\<forall>s. takes ms (view s) \<longrightarrow>
        (case f (PList (map PDict ms)) s of
           (Inl _, s') \<Rightarrow> kept (view s) (view s')
         | (Inr v, s') \<Rightarrow> same_ids v (map enqueue_id ms) \<and> taken ms (view s) (view s')))"
begin

lemma enqueue_together_cases:
  assumes run: "enqueue_together co f project (PList (map PDict ms)) created s = (r, s')"
    and f: "case f (PList (map PDict ms)) (emit_now co ''queue_batch_started'' project
        [(''count'', PInt (int (length ms))), (''atomic'', PBool True)] s) of
        (Inl _, s') \<Rightarrow> kept (view s) (view s')
      | (Inr v, s') \<Rightarrow> same_ids v (map enqueue_id ms) \<and> taken ms (view s) (view s')"
  shows "if er_accepted r then er_missions r = map enqueue_id ms \<and> taken ms (view s) (view s')
    else er_missions r = [] \<and> kept (view s) (view s')"
proof -
  have ids: "ids_of (PList (map PDict ms)) = map enqueue_id ms" by (simp add: ids_of_def)
  show ?thesis
    using run f
    by (auto simp: enqueue_together_def ids Let_def enqueue_outcome_def emit_now_view
        split: prod.splits sum.splits)
qed

lemma coordinator_enqueue_cases:
  assumes run: "coordinator_enqueue co project reference vs s = (r, s')"
    and takes: "\<And>ms. vs = PList (map PDict ms) \<Longrightarrow> takes ms (view s)"
    and refl: "kept (view s) (view s)"
  shows "if er_accepted r
    then \<exists>ms. vs = PList (map PDict ms) \<and> submission project ms \<and> er_missions r = map enqueue_id ms \<and>
      taken ms (view s) (view s')
    else er_missions r = [] \<and> kept (view s) (view s')"
proof -
  obtain created s1 where c: "co_now co s = (created, s1)" by (cases "co_now co s")
  have v1: "view s1 = view s" using now_view [of s] by (simp add: c)
  let ?s2 = "emit_safe co [(''type'', PStr ''queue_resolution_started''), (''project_id'', project),
    (''timestamp'', PStr created)] s1"
  have v2: "view ?s2 = view s" by (simp add: emit_safe_view v1)
  show ?thesis
  proof (cases "ec_valid (validate_enqueue_request project reference vs)")
    case False
    then have "er_accepted r = False" "er_missions r = []" "s' = s1"
      using run by (auto simp: coordinator_enqueue_def c Let_def not_enqueued_def enqueue_outcome_def)
    then show ?thesis using refl v1 by simp
  next
    case True
    then obtain ms where ms: "vs = PList (map PDict ms)" "submission project ms"
      by (auto simp: validate_enqueue_accepts)
    obtain a s3 where a: "co_resolve co project reference ?s2 = (a, s3)"
      by (cases "co_resolve co project reference ?s2")
    have v3: "view s3 = view s" using resolve_view [of project reference ?s2] by (simp add: a v2)
    show ?thesis
    proof (cases a)
      case (Inl u)
      then have "er_accepted r = False" "er_missions r = []" "view s' = view s"
        using run True a v3
        by (auto simp: coordinator_enqueue_def c Let_def not_enqueued_def enqueue_outcome_def emit_now_view)
      then show ?thesis using refl by simp
    next
      case (Inr q)
      have res: "enqueue_resolved co q project vs created s3 = (r, s')"
        using run True a by (simp add: coordinator_enqueue_def c Let_def Inr)
      from batch [OF a [unfolded Inr] ms(2)] obtain f where f: "first_callable q batch_methods = Some f"
        "\<And>s. takes ms (view s) \<Longrightarrow> (case f (PList (map PDict ms)) s of
           (Inl _, s') \<Rightarrow> kept (view s) (view s')
         | (Inr v, s') \<Rightarrow> same_ids v (map enqueue_id ms) \<and> taken ms (view s) (view s'))"
        by blast
      show ?thesis
      proof (cases "map_option py_str (pq_project q) = Some (py_str project)")
        case False
        then have "er_accepted r = False" "er_missions r = []" "view s' = view s"
          using res v3
          by (auto simp: enqueue_resolved_def not_enqueued_def enqueue_outcome_def emit_now_view)
        then show ?thesis using refl by simp
      next
        case same: True
        let ?s4 = "emit_now co ''queue_batch_started'' project
          [(''count'', PInt (int (length ms))), (''atomic'', PBool True)] s3"
        have v4: "view ?s4 = view s3" by (rule emit_now_view)
        have t: "takes ms (view ?s4)" using takes [OF ms(1)] v3 v4 by simp
        have run': "enqueue_together co f project (PList (map PDict ms)) created s3 = (r, s')"
          using res same f(1) by (simp add: enqueue_resolved_def ms(1))
        from enqueue_together_cases [OF run' f(2) [OF t, unfolded v4]] show ?thesis
          using ms unfolding v3 by (cases "er_accepted r") auto
      qed
    qed
  qed
qed

end

end
