(* ===== verification/RequestComposition.thy ===== *)
theory RequestComposition
  imports RequestBatch EnqueueCoordinator
begin

text \<open>
  \<^verbatim>\<open>agent/runtime/production_request_composition.py\<close>: the coordinator over the request queue
  adapter, with the production sink and resolver.  A submission through them is exact: it is
  accepted exactly when every mission can be prepared, is new and can be written, and otherwise
  the queue and the definitions stay as they were.
\<close>

section \<open>Wiring\<close>

record 'c request_world =
  rw_queue :: request_queue
  rw_events :: "pyval dict list"
  rw_clock :: 'c

record 'c request_setup =
  rs_project :: string
  rs_reference :: string
  rs_adapter :: adapter_config
  rs_tick :: "'c \<Rightarrow> string \<times> 'c"

definition sink_event :: "pyval dict \<Rightarrow> 'c request_world \<Rightarrow> 'c request_world" where
  "sink_event event w = w\<lparr>rw_events := rw_events w @ [event]\<rparr>"

definition sink_named :: "string \<Rightarrow> pyval dict \<Rightarrow> 'c request_world \<Rightarrow> 'c request_world" where
  "sink_named name payload = sink_event
     (fold (\<lambda>(k, v). AList.update k v) payload [(''type'', PStr name)])"

definition last_items :: "int \<Rightarrow> 'a list \<Rightarrow> 'a list" where
  "last_items limit xs =
     (if limit > 0 then drop (length xs - nat limit) xs else drop (nat (- limit)) xs)"

definition sink_latest :: "int \<Rightarrow> pyval \<Rightarrow> 'c request_world \<Rightarrow> pyval dict list" where
  "sink_latest limit project w = last_items limit
     (if project = PNone then rw_events w else filter (\<lambda>e. dget e ''project_id'' = project) (rw_events w))"

definition batch_method :: "adapter_config \<Rightarrow> 'c request_world queue_method" where
  "batch_method cfg ms w = (case enqueue_batch cfg ms (rw_queue w) of
       (Inl _, q) \<Rightarrow> (Inl (), w\<lparr>rw_queue := q\<rparr>)
     | (Inr ids, q) \<Rightarrow> (Inr (PList (map PStr ids)), w\<lparr>rw_queue := q\<rparr>))"

definition adapter_queue :: "adapter_config \<Rightarrow> 'c request_world project_queue" where
  "adapter_queue cfg = \<lparr>pq_project = Some (PStr (ra_project cfg)),
     pq_method = (\<lambda>name. if name \<in> set batch_methods then Some (batch_method cfg) else None)\<rparr>"

definition resolve_queue ::
  "'c request_setup \<Rightarrow> pyval \<Rightarrow> pyval \<Rightarrow> ('c request_world, unit, 'c request_world project_queue) action" where
  "resolve_queue rs project reference =
     (if project \<noteq> PStr (rs_project rs) then mraise ()
      else if reference \<noteq> PStr (rs_reference rs) then mraise ()
      else mret (adapter_queue (rs_adapter rs)))"

definition tick_world :: "'c request_setup \<Rightarrow> 'c request_world \<Rightarrow> string \<times> 'c request_world" where
  "tick_world rs w = (case rs_tick rs (rw_clock w) of (t, c) \<Rightarrow> (t, w\<lparr>rw_clock := c\<rparr>))"

definition production_coordinator :: "'c request_setup \<Rightarrow> 'c request_world coordinator" where
  "production_coordinator rs = \<lparr>co_resolve = resolve_queue rs, co_now = tick_world rs, co_emit = sink_event\<rparr>"

text \<open>\<open>build_production_request_composition\<close>: blank names are refused, the adapter strips its project.\<close>

definition build_setup ::
  "string \<Rightarrow> string \<Rightarrow> file_path \<Rightarrow> (file_path \<Rightarrow> file_path) \<Rightarrow> (file_path \<Rightarrow> bool) \<Rightarrow> (nat \<Rightarrow> string \<times> nat) \<Rightarrow>
   string + nat request_setup" where
  "build_setup project reference root resolve writable tick =
     (if strip project = [] then Inl ''invalid_project_id''
      else if strip reference = [] then Inl ''invalid_queue_reference''
      else Inr \<lparr>rs_project = project, rs_reference = reference,
        rs_adapter = \<lparr>ra_project = strip project, ra_root = root, ra_resolve = resolve,
          ra_writable = writable, ra_autonomous = None\<rparr>, rs_tick = tick\<rparr>)"

section \<open>The adapter keeps the coordinator's contract\<close>

text \<open>What a submission needs: plain identifiers that no queued mission waits for.\<close>

definition takes_batch :: "pyval dict list \<Rightarrow> request_queue \<Rightarrow> bool" where
  "takes_batch ms q \<longleftrightarrow> disk_wf (rq_disk q) \<and> (\<forall>m \<in> set ms. plain_id m) \<and>
     unclaimed (mission_at (rq_disk q)) (enqueue_id ` set ms)"

definition took_batch :: "adapter_config \<Rightarrow> pyval dict list \<Rightarrow> request_queue \<Rightarrow> request_queue \<Rightarrow> bool" where
  "took_batch cfg ms q q' \<longleftrightarrow> (\<exists>ps. prepare_missions cfg (rq_files q) [] (map PDict ms) = Inr ps \<and>
     map pr_id ps = map enqueue_id ms \<and> batch_added cfg ps q q')"

lemma list_all2_right: "list_all2 P xs ys \<Longrightarrow> y \<in> set ys \<Longrightarrow> \<exists>x \<in> set xs. P x y"
  by (induction rule: list_all2_induct) auto

lemma deps_before_within: "deps_before E ms \<Longrightarrow> m \<in> set ms \<Longrightarrow> deps_at m \<subseteq> E \<union> enqueue_id ` set ms"
  by (induction ms arbitrary: E) fastforce+

lemma prepared_mission:
  assumes p: "prepare_mission cfg files ids (PDict m) = Inr p" and "plain_id m"
    and deps: "is_list (dget m ''dependencies'')" "\<forall>d \<in> deps_at m. mission_id_ok d"
  shows "pr_id p = enqueue_id m" "set (pr_deps p) = deps_at m"
proof -
  obtain vs where vs: "valid_id (dget m ''mission_id'') = Inr (pr_id p)"
    "dget_or m ''dependencies'' (PList []) = PList vs" "emap valid_id vs = Inr (pr_deps p)"
    using prepare_mission_Inr [OF p] by auto
  show "pr_id p = enqueue_id m"
    using valid_id_text [OF _ vs(1)] assms(2) by (simp add: plain_id_def enqueue_id_def)
  have "dget m ''dependencies'' = PList vs"
    using vs(2) deps(1) by (auto simp: dget_or_def dget_def is_list_def split: option.splits)
  then have at: "deps_at m = py_str ` set vs" by (simp add: deps_at_def)
  have "list_all2 (\<lambda>v d. valid_id v = Inr d) vs (pr_deps p)" using vs(3) by (simp add: emap_Inr_iff)
  then have "list_all2 (\<lambda>v d. d = py_str v) vs (pr_deps p)"
    by (rule list.rel_mono_strong) (use deps(2) valid_id_text in \<open>auto simp: at\<close>)
  then have "pr_deps p = map py_str vs" by (induction rule: list_all2_induct) auto
  then show "set (pr_deps p) = deps_at m" by (simp add: at)
qed

lemma prepared_backward:
  "list_all2 (\<lambda>m p. pr_id p = enqueue_id m \<and> set (pr_deps p) = deps_at m) ms ps \<Longrightarrow>
     deps_before E ms \<Longrightarrow> distinct (map enqueue_id ms) \<Longrightarrow> E \<inter> enqueue_id ` set ms = {} \<Longrightarrow>
     map pr_id ps = map enqueue_id ms \<and> backward_deps ps \<and> (\<forall>p \<in> set ps. pr_id p \<notin> set (pr_deps p))"
proof (induction arbitrary: E rule: list_all2_induct)
  case (Cons m ms p ps)
  have tail: "map pr_id ps = map enqueue_id ms \<and> backward_deps ps \<and> (\<forall>p \<in> set ps. pr_id p \<notin> set (pr_deps p))"
    using Cons.IH [of "insert (enqueue_id m) E"] Cons.prems by auto
  then have "pr_id ` set ps = enqueue_id ` set ms" by (metis list.set_map)
  then show ?case using tail Cons.hyps Cons.prems by auto
qed simp

lemma prepared_submission:
  assumes sub: "submission project ms" and plain: "\<forall>m \<in> set ms. plain_id m"
    and p: "prepare_missions cfg files [] (map PDict ms) = Inr ps"
  shows "map pr_id ps = map enqueue_id ms" "backward_deps ps" "\<forall>p \<in> set ps. pr_id p \<notin> set (pr_deps p)"
proof -
  have ok: "\<forall>d \<in> deps_at m. mission_id_ok d" if "m \<in> set ms" for m
    using deps_before_within [of "{}" ms m] sub plain that
    by (auto simp: submission_def plain_id_def enqueue_id_def)
  have "list_all2 (\<lambda>v p. \<exists>ids. prepare_mission cfg files ids v = Inr p) (map PDict ms) ps"
    using prepare_missions_Inr [OF p] by simp
  then have "list_all2 (\<lambda>m p. \<exists>ids. prepare_mission cfg files ids (PDict m) = Inr p) ms ps"
    by (simp add: list_all2_map1)
  then have "list_all2 (\<lambda>m p. pr_id p = enqueue_id m \<and> set (pr_deps p) = deps_at m) ms ps"
    by (rule list.rel_mono_strong)
      (use ok sub plain prepared_mission in \<open>auto simp: submission_def\<close>)
  from prepared_backward [OF this, of "{}"] sub
  show "map pr_id ps = map enqueue_id ms" "backward_deps ps" "\<forall>p \<in> set ps. pr_id p \<notin> set (pr_deps p)"
    by (auto simp: submission_def)
qed

lemma prepared_fresh_paths:
  "prepare_missions cfg files ids vs = Inr ps \<Longrightarrow> \<forall>p \<in> set ps. map_of files (pr_path p) = None"
proof -
  assume "prepare_missions cfg files ids vs = Inr ps"
  then have "list_all2 (\<lambda>v p. \<exists>ids. prepare_mission cfg files ids v = Inr p) vs ps"
    using prepare_missions_Inr by blast
  then have "list_all2 (\<lambda>v p. map_of files (pr_path p) = None) vs ps"
    by (rule list_all2_mono) (use prepare_mission_Inr in blast)
  then show ?thesis by (auto dest: list_all2_right)
qed

text \<open>One call of the adapter with a submission.\<close>

lemma enqueue_batch_submission:
  assumes sub: "submission project ms" and t: "takes_batch ms q"
  shows "case enqueue_batch cfg (PList (map PDict ms)) q of
      (Inl _, q') \<Rightarrow> same_content q q' \<and>
        \<not> (\<exists>ps. prepare_missions cfg (rq_files q) [] (map PDict ms) = Inr ps \<and>
          (\<forall>p \<in> set ps. mission_at (rq_disk q) (pr_id p) = None \<and> ra_writable cfg (pr_path p)))
    | (Inr ids, q') \<Rightarrow> \<exists>ps. prepare_missions cfg (rq_files q) [] (map PDict ms) = Inr ps \<and>
        ids = map enqueue_id ms \<and> ids = map pr_id ps \<and> batch_added cfg ps q q' \<and>
        (\<forall>p \<in> set ps. mission_at (rq_disk q) (pr_id p) = None \<and> ra_writable cfg (pr_path p))"
proof (cases "prepare_missions cfg (rq_files q) [] (map PDict ms)")
  case (Inl e)
  then show ?thesis using t by (simp add: enqueue_batch_def same_content_def takes_batch_def)
next
  case (Inr ps)
  have plain: "\<forall>m \<in> set ms. plain_id m" and wf: "disk_wf (rq_disk q)" using t by (auto simp: takes_batch_def)
  note pr = prepared_submission [OF sub plain Inr]
  have ids: "pr_id ` set ps = enqueue_id ` set ms" using pr(1) by (metis list.set_map)
  have "set (pr_deps p) \<subseteq> pr_id ` set ps" if "p \<in> set ps" for p
  proof -
    have "list_all2 (\<lambda>v p. \<exists>ids. prepare_mission cfg (rq_files q) ids v = Inr p) (map PDict ms) ps"
      using prepare_missions_Inr [OF Inr] by simp
    from list_all2_right [OF this that] obtain m ids where
      m: "m \<in> set ms" "prepare_mission cfg (rq_files q) ids (PDict m) = Inr p"
      by auto
    have at: "deps_at m \<subseteq> enqueue_id ` set ms"
      using deps_before_within [of "{}" ms m] sub m(1) by (simp add: submission_def)
    then have "\<forall>d \<in> deps_at m. mission_id_ok d"
      using plain by (auto simp: plain_id_def enqueue_id_def)
    then have "set (pr_deps p) = deps_at m"
      using prepared_mission(2) [OF m(2)] plain sub m(1) by (auto simp: submission_def)
    then show ?thesis using at ids by simp
  qed
  then have "filter (\<lambda>dep. dep \<notin> pr_id ` set ps) (concat (map pr_deps ps)) = []"
    by (auto simp: filter_empty_conv)
  then have "check_known (rq_disk q) ps = Inr ()" by (simp add: check_known_def Let_def)
  then have run: "enqueue_batch cfg (PList (map PDict ms)) q = submit_prepared cfg ps q"
    by (simp add: enqueue_batch_def Inr)
  have d: "distinct (map pr_id ps)" using prepare_missions_Inr [OF Inr] by simp
  have un: "unclaimed (mission_at (rq_disk q)) (pr_id ` set ps)" using t ids by (simp add: takes_batch_def)
  obtain r q' where r: "submit_prepared cfg ps q = (r, q')" by (cases "submit_prepared cfg ps q")
  note fx = submit_prepared_effect [OF wf r pr(2) d prepared_fresh_paths [OF Inr] un]
  show ?thesis
  proof (cases r)
    case (Inl e)
    have "\<not> (\<forall>p \<in> set ps. mission_at (rq_disk q) (pr_id p) = None \<and> ra_writable cfg (pr_path p))"
    proof
      assume "\<forall>p \<in> set ps. mission_at (rq_disk q) (pr_id p) = None \<and> ra_writable cfg (pr_path p)"
      with pr(3) have "\<exists>ids s'. submit_prepared cfg ps q = (Inr ids, s')"
        by (intro submit_prepared_ok [OF wf pr(2) d un]) blast
      then show False by (simp add: r Inl)
    qed
    then show ?thesis using fx by (simp add: run r Inl Inr)
  next
    case ok: (Inr ids)
    then show ?thesis
      using fx submit_prepared_Inr [OF wf r [unfolded ok]] pr(1) by (simp add: run r Inr)
  qed
qed

lemma first_batch_method: "first_callable (adapter_queue cfg) batch_methods = Some (batch_method cfg)"
  by (simp add: first_callable_def adapter_queue_def batch_methods_def)

lemma batch_method_submission:
  assumes "submission project ms" and "takes_batch ms (rw_queue w)"
  shows "case batch_method cfg (PList (map PDict ms)) w of
      (Inl _, w') \<Rightarrow> same_content (rw_queue w) (rw_queue w')
    | (Inr v, w') \<Rightarrow> same_ids v (map enqueue_id ms) \<and> took_batch cfg ms (rw_queue w) (rw_queue w')"
proof -
  obtain r q' where r: "enqueue_batch cfg (PList (map PDict ms)) (rw_queue w) = (r, q')"
    by (cases "enqueue_batch cfg (PList (map PDict ms)) (rw_queue w)")
  have "map py_str (map PStr ids) = ids" for ids by (induction ids) (simp_all add: py_str_def)
  then show ?thesis
    using enqueue_batch_submission [OF assms, of cfg]
    by (cases r) (auto simp: r batch_method_def same_ids_def took_batch_def simp del: map_map)
qed

interpretation production: batch_coordinator "production_coordinator rs" rw_queue takes_batch
    "took_batch (rs_adapter rs)" same_content
  for rs :: "'c request_setup"
proof
  fix s :: "'c request_world" and event project reference
  show "rw_queue (snd (co_now (production_coordinator rs) s)) = rw_queue s"
    by (simp add: production_coordinator_def tick_world_def split: prod.split)
  show "rw_queue (co_emit (production_coordinator rs) event s) = rw_queue s"
    by (simp add: production_coordinator_def sink_event_def)
  show "rw_queue (snd (co_resolve (production_coordinator rs) project reference s)) = rw_queue s"
    by (simp add: production_coordinator_def resolve_queue_def)
next
  fix s s1 :: "'c request_world" and q project reference ms
  assume r: "co_resolve (production_coordinator rs) project reference s = (Inr q, s1)"
    and sub: "submission project ms"
  then have q: "q = adapter_queue (rs_adapter rs)"
    by (auto simp: production_coordinator_def resolve_queue_def split: if_splits)
  show "\<exists>f. first_callable q batch_methods = Some f \<and> (\<forall>s. takes_batch ms (rw_queue s) \<longrightarrow>
      (case f (PList (map PDict ms)) s of
         (Inl _, s') \<Rightarrow> same_content (rw_queue s) (rw_queue s')
       | (Inr v, s') \<Rightarrow> same_ids v (map enqueue_id ms) \<and>
           took_batch (rs_adapter rs) ms (rw_queue s) (rw_queue s')))"
    unfolding q by (intro exI [of _ "batch_method (rs_adapter rs)"] conjI allI impI
        first_batch_method batch_method_submission [OF sub])
qed

section \<open>A submission is all or nothing\<close>

text \<open>Submitting missions is all or nothing.  If they carry plain identifiers that no queued
  mission waits for, an accepted submission has queued every mission behind its dependencies and
  written its definition, and one that is not accepted leaves queue and definitions as they were.\<close>

lemma submission_all_or_nothing:
  assumes "coordinator_enqueue (production_coordinator rs) project reference vs w = (r, w')"
    and "disk_wf (rq_disk (rw_queue w))"
    and "\<And>ms. vs = PList (map PDict ms) \<Longrightarrow> takes_batch ms (rw_queue w)"
  shows "if er_accepted r
    then \<exists>ms ps. vs = PList (map PDict ms) \<and> submission project ms \<and>
      prepare_missions (rs_adapter rs) (rq_files (rw_queue w)) [] (map PDict ms) = Inr ps \<and>
      er_missions r = map pr_id ps \<and> batch_added (rs_adapter rs) ps (rw_queue w) (rw_queue w')
    else er_missions r = [] \<and> same_content (rw_queue w) (rw_queue w')"
proof -
  have "same_content (rw_queue w) (rw_queue w)" using assms(2) by (simp add: same_content_def)
  from production.coordinator_enqueue_cases [OF assms(1,3) this] show ?thesis
    by (cases "er_accepted r") (fastforce simp: took_batch_def)+
qed

section \<open>When a submission is accepted\<close>

lemma submission_reaches_queue:
  fixes rs :: "'c request_setup" and w :: "'c request_world"
  assumes run: "coordinator_enqueue (production_coordinator rs) (PStr (rs_project rs)) (PStr (rs_reference rs))
      (PList (map PDict ms)) w = (r, w')"
    and sub: "submission (PStr (rs_project rs)) ms"
    and names: "strip (rs_project rs) \<noteq> []" "strip (rs_reference rs) \<noteq> []"
      "ra_project (rs_adapter rs) = rs_project rs"
  obtains w0 :: "'c request_world" where "rw_queue w0 = rw_queue w"
    and "er_accepted r \<longleftrightarrow> (case fst (batch_method (rs_adapter rs) (PList (map PDict ms)) w0) of
      Inl _ \<Rightarrow> False | Inr v \<Rightarrow> same_ids v (map enqueue_id ms))"
proof -
  let ?co = "production_coordinator rs" and ?p = "PStr (rs_project rs)" and ?ms = "PList (map PDict ms)"
  have valid: "ec_valid (validate_enqueue_request ?p (PStr (rs_reference rs)) ?ms)"
    using sub names by (auto simp: validate_enqueue_accepts non_blank_def)
  obtain created w1 where now: "co_now ?co w = (created, w1)" by (cases "co_now ?co w")
  let ?w2 = "emit_safe ?co [(''type'', PStr ''queue_resolution_started''), (''project_id'', ?p),
    (''timestamp'', PStr created)] w1"
  have res: "co_resolve ?co ?p (PStr (rs_reference rs)) ?w2 = (Inr (adapter_queue (rs_adapter rs)), ?w2)"
    by (simp add: production_coordinator_def resolve_queue_def)
  have "enqueue_resolved ?co (adapter_queue (rs_adapter rs)) ?p ?ms created ?w2 = (r, w')"
    using run valid by (simp add: coordinator_enqueue_def now res)
  moreover have m: "map_option py_str (pq_project (adapter_queue (rs_adapter rs))) = Some (py_str ?p)"
    by (simp add: adapter_queue_def names(3))
  ultimately have tog: "enqueue_together ?co (batch_method (rs_adapter rs)) ?p ?ms created ?w2 = (r, w')"
    by (simp add: enqueue_resolved_def first_batch_method m)
  have ids: "ids_of ?ms = map enqueue_id ms" by (simp add: ids_of_def)
  let ?w3 = "emit_now ?co ''queue_batch_started'' ?p
    [(''count'', PInt (int (length ms))), (''atomic'', PBool True)] ?w2"
  have acc: "er_accepted r \<longleftrightarrow> (case fst (batch_method (rs_adapter rs) ?ms ?w3) of
      Inl _ \<Rightarrow> False | Inr v \<Rightarrow> same_ids v (map enqueue_id ms))"
    using tog by (auto simp: enqueue_together_def ids Let_def enqueue_outcome_def split: prod.splits sum.splits if_splits)
  have kept: "rw_queue ?w3 = rw_queue w"
    using production.now_view [of rs w]
    by (simp add: production.emit_now_view production.emit_safe_view now)
  show ?thesis by (rule that [OF kept acc])
qed

lemma submission_accepted_iff:
  fixes rs :: "'c request_setup" and w :: "'c request_world"
  assumes "coordinator_enqueue (production_coordinator rs) (PStr (rs_project rs)) (PStr (rs_reference rs))
      (PList (map PDict ms)) w = (r, w')"
    and sub: "submission (PStr (rs_project rs)) ms" and t: "takes_batch ms (rw_queue w)"
    and "strip (rs_project rs) \<noteq> []" "strip (rs_reference rs) \<noteq> []" "ra_project (rs_adapter rs) = rs_project rs"
  shows "er_accepted r \<longleftrightarrow>
    (\<exists>ps. prepare_missions (rs_adapter rs) (rq_files (rw_queue w)) [] (map PDict ms) = Inr ps \<and>
      (\<forall>p \<in> set ps. mission_at (rq_disk (rw_queue w)) (pr_id p) = None \<and> ra_writable (rs_adapter rs) (pr_path p)))"
proof -
  obtain w0 :: "'c request_world" where w0: "rw_queue w0 = rw_queue w"
    and acc: "er_accepted r \<longleftrightarrow> (case fst (batch_method (rs_adapter rs) (PList (map PDict ms)) w0) of
      Inl _ \<Rightarrow> False | Inr v \<Rightarrow> same_ids v (map enqueue_id ms))"
    by (rule submission_reaches_queue [OF assms(1,2,4-6)])
  have "map py_str (map PStr ids) = ids" for ids by (induction ids) (simp_all add: py_str_def)
  then have same: "same_ids (PList (map PStr ids)) expected \<longleftrightarrow> ids = expected" for ids expected
    by (simp add: same_ids_def)
  obtain b q' where b: "enqueue_batch (rs_adapter rs) (PList (map PDict ms)) (rw_queue w) = (b, q')"
    by (cases "enqueue_batch (rs_adapter rs) (PList (map PDict ms)) (rw_queue w)")
  note fx = enqueue_batch_submission [OF sub t, of "rs_adapter rs", unfolded b]
  show ?thesis
  proof (cases b)
    case (Inl e)
    then show ?thesis using fx acc by (simp add: batch_method_def w0 b)
  next
    case (Inr ids)
    then have "er_accepted r" using fx acc by (auto simp: batch_method_def w0 b same)
    moreover have "\<exists>ps. prepare_missions (rs_adapter rs) (rq_files (rw_queue w)) [] (map PDict ms) = Inr ps \<and>
        (\<forall>p \<in> set ps. mission_at (rq_disk (rw_queue w)) (pr_id p) = None \<and> ra_writable (rs_adapter rs) (pr_path p))"
      using fx Inr by auto
    ultimately show ?thesis by blast
  qed
qed

end
