(* ===== verification/PlanEnqueue.thy ===== *)
theory PlanEnqueue
  imports PlanOrder RequestComposition
begin

text \<open>
  From an approved request to the queue: the missions the builder makes of a plan it accepts are
  a submission the coordinator accepts, in an order that puts every mission behind its
  dependencies.
\<close>

section \<open>What a validated plan is\<close>

definition plain_step :: "pyval dict \<Rightarrow> bool" where
  "plain_step d \<longleftrightarrow> non_empty_text (dget d ''step_id'') \<and>
     (\<exists>vs. dget d ''dependencies'' = PList vs \<and> list_all non_empty_text vs)"

definition plan_steps_ok :: "pyval dict list \<Rightarrow> bool" where
  "plan_steps_ok steps \<longleftrightarrow> steps \<noteq> [] \<and> distinct (map step_id_of steps) \<and> (\<forall>d \<in> set steps. plain_step d) \<and>
     (\<forall>d \<in> set steps. set (step_deps d) \<subseteq> step_id_of ` set steps) \<and> acyclic (edges (adjacency steps))"

lemma validate_plan_step_Inr:
  "validate_plan_step supported seen v = Inr d \<Longrightarrow> v = PDict d \<and> step_id_of d \<notin> set seen \<and> plain_step d"
  by (auto simp: validate_plan_step_def Let_def err_simps plain_step_def ensure_identifier_def
      split: pyval.splits if_splits)

lemma validate_plan_steps_Inr:
  "validate_plan_steps supported seen vs = Inr ds \<Longrightarrow> vs = map PDict ds \<and>
     distinct (map step_id_of ds) \<and> set seen \<inter> step_id_of ` set ds = {} \<and> (\<forall>d \<in> set ds. plain_step d)"
proof (induction vs arbitrary: seen ds)
  case (Cons v vs)
  then obtain d es where d: "validate_plan_step supported seen v = Inr d"
    "validate_plan_steps supported (seen @ [step_id_of d]) vs = Inr es" "ds = d # es"
    by (auto simp: err_simps)
  show ?case using Cons.IH [OF d(2)] validate_plan_step_Inr [OF d(1)] d(3) by auto
qed simp

lemma plan_acyclic:
  assumes "\<not> plan_has_cycle steps"
  shows "acyclic (edges (adjacency steps))"
proof -
  obtain col where "dfs_roots (length steps) (adjacency steps) (map step_id_of steps) (\<lambda>_. White) = Some (Inr col)"
    using assms by (auto simp: plan_has_cycle_def split: option.splits sum.splits)
  then show ?thesis
    by (rule dfs_roots_accepts) (auto simp: adjacency_def filter_empty_conv)
qed

lemma dependencies_known:
  assumes "validate_plan_dependencies steps = Inr u" and "d \<in> set steps"
  shows "set (step_deps d) \<subseteq> step_id_of ` set steps"
proof -
  have "is_ok (emap (check_step_dependency (map step_id_of steps) (step_id_of d)) (step_deps d))"
    using assms unfolding validate_plan_dependencies_def
    by (auto simp: err_simps is_ok_emap dest: emap_Inr_iff [THEN iffD1] simp flip: is_ok_iff)
  then show ?thesis by (auto simp: is_ok_emap check_step_dependency_def split: if_splits)
qed

lemma steps_of_map: "dget p ''steps'' = PList (map PDict ds) \<Longrightarrow> steps_of p = ds"
  by (simp add: steps_of_def comp_def)

lemma validate_plan_Inr:
  assumes "validate_plan supported plan r = Inr p"
  shows "plan = PDict p \<and> plan_steps_ok (steps_of p)"
proof -
  obtain d where d: "plan = PDict d" using assms by (cases plan) (auto simp: validate_plan_def)
  obtain vs where vs: "dget d ''steps'' = PList vs"
    using assms unfolding d validate_plan_def
    by (cases "dget d ''steps''") (auto simp: err_simps Let_def split: if_splits)
  obtain v us where ne: "vs = v # us"
    using assms vs unfolding d validate_plan_def
    by (cases vs) (auto simp: err_simps Let_def split: if_splits)
  obtain steps where s: "validate_plan_steps supported [] vs = Inr steps"
    "\<exists>u. validate_plan_dependencies steps = Inr u" "\<not> plan_has_cycle steps" "p = d"
    using assms vs unfolding d validate_plan_def ne
    by (auto simp: err_simps Let_def split: if_splits)
  have "steps_of p = steps"
    using validate_plan_steps_Inr [OF s(1)] vs by (intro steps_of_map) (simp add: s(4))
  moreover have "steps \<noteq> []" using validate_plan_steps_Inr [OF s(1)] ne by auto
  ultimately show ?thesis
    using validate_plan_steps_Inr [OF s(1)] dependencies_known plan_acyclic [OF s(3)] s(2)
    by (auto simp: plan_steps_ok_def d s(4))
qed

section \<open>Identifiers\<close>

lemma generate_ids_Inr:
  "generate_ids gen seen n g = (Inr is, g') \<Longrightarrow>
     length is = n \<and> distinct is \<and> set is \<inter> set seen = {} \<and> [] \<notin> set is"
proof (induction n arbitrary: seen g "is")
  case (Suc n)
  obtain v g1 where v: "gen g = (v, g1)" by (cases "gen g")
  then obtain c cs js where i: "v = PStr (c # cs)" "(c # cs) \<notin> set seen"
    "generate_ids gen ((c # cs) # seen) n g1 = (Inr js, g')" "is = (c # cs) # js"
    using Suc.prems by (auto simp: m_simps split: pyval.splits list.splits if_splits)
  show ?case using Suc.IH [OF i(3)] i(2,4) by auto
qed simp

definition step_ref :: "pyval dict list \<Rightarrow> string list \<Rightarrow> string \<Rightarrow> string" where
  "step_ref steps is = (\<lambda>s. the (map_of (zip (map step_id_of steps) is) s))"

lemma step_ref_map:
  assumes "distinct (map step_id_of steps)" and "length is = length steps"
  shows "map (step_ref steps is) (map step_id_of steps) = is"
proof (rule nth_equalityI)
  fix n assume "n < length (map (step_ref steps is) (map step_id_of steps))"
  then have n: "n < length steps" by simp
  have "map_of (zip (map step_id_of steps) is) (map step_id_of steps ! n) = Some (is ! n)"
    by (rule map_of_zip_nth) (use assms n in simp_all)
  then show "map (step_ref steps is) (map step_id_of steps) ! n = is ! n" using n by (simp add: step_ref_def)
qed (use assms(2) in simp)

section \<open>The missions of a plan\<close>

lemma mission_of_step_fields [simp]:
  "mission_ref (mission_of_step r pid now ref d) = ref (step_id_of d)"
  "mission_deps (mission_of_step r pid now ref d) = sort (map ref (step_deps d))"
  "enqueue_id (mission_of_step r pid now ref d) = ref (step_id_of d)"
  "deps_at (mission_of_step r pid now ref d) = ref ` set (step_deps d)"
proof -
  have "map py_str (map PStr xs) = xs" for xs by (induction xs) (simp_all add: py_str_def)
  then show "mission_deps (mission_of_step r pid now ref d) = sort (map ref (step_deps d))"
    by (simp add: mission_deps_def mission_of_step_def text_list_def dget_def del: map_map)
  have "py_str ` PStr ` A = A" for A by (simp add: py_str_def image_image)
  then show "deps_at (mission_of_step r pid now ref d) = ref ` set (step_deps d)"
    by (simp add: deps_at_def mission_of_step_def dget_def image_image py_str_def)
qed (simp_all add: mission_ref_def enqueue_id_def mission_of_step_def dget_def py_str_def)

lemma mission_of_step_submittable:
  "ref (step_id_of d) \<noteq> [] \<Longrightarrow>
     submittable (dget r ''project_id'') (mission_of_step r pid now ref d) \<and>
     is_list (dget (mission_of_step r pid now ref d) ''dependencies'')"
  by (simp add: submittable_def)
    (auto simp: mission_of_step_def required_mission_fields_def dget_def is_list_def)

lemma adjacency_member:
  assumes "distinct (map step_id_of steps)" "d \<in> set steps"
  shows "adjacency steps (step_id_of d) = step_deps d"
proof -
  have "filter (\<lambda>x. step_id_of x = step_id_of d) steps = [d]"
    using assms
  proof (induction steps)
    case (Cons a as)
    show ?case
    proof (cases "a = d")
      case True
      then have "filter (\<lambda>x. step_id_of x = step_id_of d) as = []"
        using Cons.prems(1) by (simp add: filter_empty_conv) (metis image_eqI)
      then show ?thesis using True by simp
    next
      case False
      then show ?thesis using Cons by auto
    qed
  qed simp
  then show ?thesis by (simp add: adjacency_def)
qed

lemma acyclic_preimage:
  assumes "acyclic S" and "\<And>x y. (x, y) \<in> R \<Longrightarrow> (h y, h x) \<in> S"
  shows "acyclic R"
proof -
  have "(x, y) \<in> R\<^sup>+ \<Longrightarrow> (h y, h x) \<in> S\<^sup>+" for x y
    by (induction rule: trancl_induct) (use assms(2) in \<open>auto intro: trancl_into_trancl2\<close>)
  then show ?thesis using assms(1) by (auto simp: acyclic_def)
qed

lemma plan_missions:
  fixes r :: "pyval dict" and pid :: pyval and now :: string
  assumes ok: "plan_steps_ok steps" and inj: "inj_on ref (step_id_of ` set steps)"
  defines "ms \<equiv> map (mission_of_step r pid now ref) steps"
  shows "mission_set ms" "\<exists>ys. order_missions ms = Inr ys"
proof -
  have d: "distinct (map step_id_of steps)" and deps: "\<And>d. d \<in> set steps \<Longrightarrow> set (step_deps d) \<subseteq> step_id_of ` set steps"
    using ok by (auto simp: plan_steps_ok_def)
  have refs: "map mission_ref ms = map ref (map step_id_of steps)" by (simp add: ms_def)
  have "distinct (map mission_ref ms)" unfolding refs using d inj by (subst distinct_map) simp
  moreover have "mission_ref ` set ms = ref ` step_id_of ` set steps"
    by (simp add: ms_def image_image)
  moreover have "set (mission_deps m) \<subseteq> ref ` step_id_of ` set steps" if "m \<in> set ms" for m
    using that deps by (fastforce simp: ms_def)
  ultimately show set: "mission_set ms" by (simp add: mission_set_def)
  let ?h = "the_inv_into (step_id_of ` set steps) ref"
  have h: "?h (ref (step_id_of d)) = step_id_of d" if "d \<in> set steps" for d
    using that by (intro the_inv_into_f_f [OF inj]) simp
  have "acyclic {(d, i). i \<in> mission_ref ` set ms \<and> d \<in> deps_table ms i}"
  proof (rule acyclic_preimage [where h = ?h])
    show "acyclic (edges (adjacency steps))" using ok by (simp add: plan_steps_ok_def)
    fix x y assume "(x, y) \<in> {(d, i). i \<in> mission_ref ` set ms \<and> d \<in> deps_table ms i}"
    then obtain m where m: "m \<in> set ms" "y = mission_ref m" "x \<in> deps_table ms (mission_ref m)" by auto
    obtain s where s: "s \<in> set steps" "m = mission_of_step r pid now ref s" using m(1) by (auto simp: ms_def)
    have "x \<in> set (mission_deps m)"
      using m(3) deps_of_member [OF _ m(1)] set by (simp add: mission_set_def)
    then obtain t where t: "t \<in> set steps" "x = ref (step_id_of t)" "step_id_of t \<in> set (step_deps s)"
      using deps [OF s(1)] by (auto simp: s(2))
    have "?h y = step_id_of s" "?h x = step_id_of t" using h s t(1) by (simp_all add: m(2) s(2) t(2))
    then show "(?h y, ?h x) \<in> edges (adjacency steps)"
      using adjacency_member [OF d s(1)] t(3) by (simp add: edges_def)
  qed
  then show "\<exists>ys. order_missions ms = Inr ys" by (rule order_missions_acyclic [OF set])
qed

lemma arrangement_submission:
  fixes r :: "pyval dict" and pid :: pyval and now :: string
  assumes ok: "plan_steps_ok steps" and inj: "inj_on ref (step_id_of ` set steps)"
    and ne: "\<forall>d \<in> set steps. ref (step_id_of d) \<noteq> []"
  defines "ms \<equiv> map (mission_of_step r pid now ref) steps"
  assumes o: "order_missions ms = Inr ys"
  shows "submission (dget r ''project_id'') ys" "set (map enqueue_id ys) = ref ` step_id_of ` set steps"
proof -
  note set = plan_missions(1) [OF ok inj, of r pid now, folded ms_def]
  have a: "plan_arrangement ms ys" by (rule order_missions_Inr(1) [OF set o])
  then have "mset ys = mset ms" by (simp add: plan_arrangement_def)
  then have mem: "set ys = set ms" by (rule mset_eq_setD)
  have id: "mission_ref m = enqueue_id m" "set (mission_deps m) = deps_at m" if "m \<in> set ys" for m
    using that by (auto simp: mem ms_def)
  have refs: "map mission_ref ys = map enqueue_id ys" using id(1) by simp
  have dist: "distinct (map enqueue_id ys)" using arrangement_refs(1) [OF set a] by (simp add: refs)
  have table: "deps_table ms (enqueue_id m) = deps_at m" if "m \<in> set ys" for m
    using deps_of_member [of ms m] set that id [OF that] mem by (simp add: mission_set_def)
  have before: "deps_before {} ys"
    using a deps_before_ordered [of ys "deps_table ms" "{}"] table by (simp add: plan_arrangement_def refs)
  have sub: "submittable (dget r ''project_id'') m \<and> is_list (dget m ''dependencies'')" if m: "m \<in> set ys" for m
  proof -
    obtain d where "d \<in> set steps" "m = mission_of_step r pid now ref d" using m by (auto simp: mem ms_def)
    then show ?thesis using mission_of_step_submittable ne by blast
  qed
  have "ys \<noteq> []" using ok mem by (auto simp: plan_steps_ok_def ms_def)
  then show "submission (dget r ''project_id'') ys"
    using dist before sub by (simp add: submission_def)
  show "set (map enqueue_id ys) = ref ` step_id_of ` set steps"
    by (simp add: mem ms_def image_image)
qed

section \<open>Built missions are submissions\<close>

lemma validate_approved_request_Inr:
  "validate_approved_request supported request = Inr r \<Longrightarrow>
     request = PDict r \<and> non_empty_text (dget r ''project_id'') \<and> non_empty_text (dget r ''request_id'')"
  by (auto simp: validate_approved_request_def Let_def err_simps ensure_identifier_def
      split: pyval.splits if_splits)

lemma built_missions:
  assumes "build_missions supported gen now plan request g = (Inr ys, g')"
  obtains r p "is" g1 where "request = PDict r" "plan = PDict p" "plan_steps_ok (steps_of p)"
    "generate_ids gen [] (length (steps_of p)) g = (Inr is, g1)"
    "order_missions (map (mission_of_step r (dget p ''plan_id'') now (step_ref (steps_of p) is)) (steps_of p)) = Inr ys"
    "submission (dget r ''project_id'') ys" "set (map enqueue_id ys) = set is"
    "non_empty_text (dget r ''project_id'')"
proof -
  obtain r where r: "validate_approved_request supported request = Inr r"
    using assms by (auto simp: build_missions_def split: sum.splits)
  obtain p where p: "validate_plan supported plan r = Inr p"
    using assms r by (auto simp: build_missions_def split: sum.splits)
  let ?steps = "steps_of p"
  obtain "is" g1 where i: "generate_ids gen [] (length ?steps) g = (Inr is, g1)"
    and o: "order_missions (map (mission_of_step r (dget p ''plan_id'') now (step_ref ?steps is)) ?steps) = Inr ys"
    using assms r p by (auto simp: build_missions_def m_simps Let_def step_ref_def)
  have ok: "plan_steps_ok ?steps" "plan = PDict p" using validate_plan_Inr [OF p] by auto
  note ids = generate_ids_Inr [OF i]
  have d: "distinct (map step_id_of ?steps)" using ok(1) by (simp add: plan_steps_ok_def)
  have map: "map (step_ref ?steps is) (map step_id_of ?steps) = is" by (rule step_ref_map [OF d]) (simp add: ids)
  then have inj: "inj_on (step_ref ?steps is) (step_id_of ` set ?steps)"
    using ids by (metis distinct_map list.set_map)
  have img: "step_ref ?steps is ` step_id_of ` set ?steps = set is" using map by (metis list.set_map)
  then have ne: "\<forall>d \<in> set ?steps. step_ref ?steps is (step_id_of d) \<noteq> []" using ids by force
  note sub = arrangement_submission [OF ok(1) inj ne o]
  show ?thesis
    by (rule that [OF _ ok(2,1) i o sub(1)])
      (use validate_approved_request_Inr [OF r] sub(2) img in simp_all)
qed

lemma dget_approved: "k \<in> set approved_fields \<Longrightarrow> dget (map (\<lambda>k. (k, dget d k)) approved_fields) k = dget d k"
  by (auto simp: approved_fields_def dget_def)

lemma validate_and_build_ok:
  assumes "validate_and_build supported gen now plan request g = (b, g')" and "br_ok b"
  obtains d where "request = PDict d" "submission (dget d ''project_id'') (br_missions b)"
    "non_blank (dget d ''project_id'')"
    "\<exists>n is g1. generate_ids gen [] n g = (Inr is, g1) \<and> set (map enqueue_id (br_missions b)) = set is"
proof -
  obtain d where d: "request = PDict d"
    using assms by (cases request) (auto simp: validate_and_build_def failed_build_def)
  let ?r = "map (\<lambda>k. (k, dget d k)) approved_fields"
  obtain ms where ms: "build_missions supported gen now plan (PDict ?r) g = (Inr ms, g')" "br_missions b = ms"
    using assms by (auto simp: validate_and_build_def d failed_build_def split: prod.splits sum.splits)
  have pid: "dget ?r ''project_id'' = dget d ''project_id''"
    by (rule dget_approved) (simp add: approved_fields_def)
  have blank: "non_blank v = non_empty_text v" for v by (simp add: non_blank_def non_empty_text_def)
  from ms(1) obtain "is" g1 p where b: "submission (dget d ''project_id'') ms"
      "generate_ids gen [] (length (steps_of p)) g = (Inr is, g1)"
      "set (map enqueue_id ms) = set is" "non_empty_text (dget d ''project_id'')"
    by (rule built_missions) (use pid in auto)
  show ?thesis using that [OF d] b by (auto simp: ms(2) blank)
qed

text \<open>C10: Whatever plan the builder accepts, the coordinator accepts its missions: they are distinct,
  complete, pending, of the request's project and each behind the missions it depends on.\<close>

theorem built_missions_submittable:
  assumes "validate_and_build supported gen now plan (PDict request) g = (b, g')" and "br_ok b"
    and "non_blank reference"
  shows "ec_valid (validate_enqueue_request (dget request ''project_id'') reference
    (PList (map PDict (br_missions b))))"
  using validate_and_build_ok [OF assms(1,2)] assms(3) by (auto simp: validate_enqueue_accepts)

definition demo_request :: "pyval dict" where
  "demo_request = [(''request_id'', PStr ''r1''), (''project_id'', PStr ''shop''),
     (''conversation_id'', PStr ''c1''), (''provider_id'', PStr ''p''), (''model_id'', PStr ''m''),
     (''task_type'', PStr ''backend''), (''created_at'', PStr ''t0''), (''user_message'', PStr ''fix it'')]"

definition demo_step :: "string \<Rightarrow> string list \<Rightarrow> int \<Rightarrow> pyval" where
  "demo_step i deps n = PDict [(''step_id'', PStr i), (''title'', PStr ''t''), (''description'', PStr ''d''),
     (''dependencies'', PList (map PStr deps)), (''priority'', PInt n), (''task_type'', PStr ''backend''),
     (''payload'', PDict [])]"

definition demo_plan :: pyval where
  "demo_plan = PDict [(''plan_id'', PStr ''plan-1''), (''request_id'', PStr ''r1''),
     (''project_id'', PStr ''shop''), (''summary'', PStr ''s''),
     (''steps'', PList [demo_step ''b'' [''a''] 0, demo_step ''a'' [] 5])]"

definition demo_ids :: "nat \<Rightarrow> pyval \<times> nat" where
  "demo_ids n = (PStr (CHR ''m'' # nat_str n), Suc n)"

theorem built_missions_submittable_witness:
  "ec_valid (validate_enqueue_request (PStr ''shop'') (PStr ''main'')
    (PList (map PDict (br_missions (fst (validate_and_build None demo_ids ''t1'' demo_plan (PDict demo_request) 1))))))"
proof -
  obtain b g' where b: "validate_and_build None demo_ids ''t1'' demo_plan (PDict demo_request) 1 = (b, g')"
    by (cases "validate_and_build None demo_ids ''t1'' demo_plan (PDict demo_request) 1")
  have "br_ok (fst (validate_and_build None demo_ids ''t1'' demo_plan (PDict demo_request) 1))" by code_simp
  then have ok: "br_ok b" unfolding b by simp
  have "non_blank (PStr ''main'')" by code_simp
  moreover have "dget demo_request ''project_id'' = PStr ''shop''" by code_simp
  ultimately show ?thesis using built_missions_submittable [OF b ok] unfolding b by simp
qed

end
