(* ===== verification/PlannerContract.thy ===== *)
theory PlannerContract
  imports PyHash PlanEnqueue
begin

text \<open>
  \<^verbatim>\<open>agent/runtime/production_planner_contract_adapter.py\<close>: the production planner turns an
  approved request into a plan of one step, whose deliverables are the repository paths the user's
  message names.  A raised \<open>ValueError\<close> is its message.
\<close>

section \<open>Fields\<close>

definition require_text :: "pyval dict \<Rightarrow> string \<Rightarrow> string + string" where
  "require_text m key = (case dget m key of
       PStr s \<Rightarrow> if strip s = [] then Inl (''invalid_'' @ key) else Inr (strip s)
     | _ \<Rightarrow> Inl (''invalid_'' @ key))"

definition valid_identifier :: "string \<Rightarrow> string + string" where
  "valid_identifier s = (if mission_id_ok s then Inr s else Inl ''invalid_identifier'')"

definition planner_task_types :: "string list" where
  "planner_task_types = [''general'', ''wordpress'', ''github'', ''deployment'', ''seo'', ''content'',
     ''infrastructure'', ''inspection'', ''testing'', ''documentation'', ''api'', ''backend'', ''frontend'',
     ''security'', ''database'']"

definition normalize_task_type :: "string \<Rightarrow> string" where
  "normalize_task_type v =
     (let t = lower (strip v);
          aliased = (case map_of [(''website'', ''wordpress''), (''woocommerce'', ''wordpress''),
              (''server'', ''infrastructure''), (''infra'', ''infrastructure''), (''code'', ''general'')] t of
            None \<Rightarrow> t | Some u \<Rightarrow> u)
      in if aliased \<in> set planner_task_types then aliased else ''general'')"

definition priority_for :: "string \<Rightarrow> int" where
  "priority_for t = (case map_of [(''security'', 0), (''database'', 1), (''backend'', 2), (''api'', 2),
       (''infrastructure'', 2), (''deployment'', 3), (''wordpress'', 4), (''frontend'', 4), (''seo'', 5),
       (''content'', 6), (''inspection'', 7), (''testing'', 7), (''documentation'', 8), (''github'', 5),
       (''general'', 5)] t of None \<Rightarrow> 5 | Some n \<Rightarrow> n)"

section \<open>Deliverables\<close>

text \<open>The pattern: a run of path characters, then one or more slashes each followed by such a run,
  where the character before the match is none of them, no slash and no backslash.  Runs are
  greedy and a shorter one could only be followed by a path character, so a run is maximal.\<close>

definition path_char :: "char \<Rightarrow> bool" where
  "path_char c = (let n = of_char c :: nat in
     48 \<le> n \<and> n \<le> 57 \<or> 65 \<le> n \<and> n \<le> 90 \<or> 97 \<le> n \<and> n \<le> 122 \<or> n \<in> {95, 46, 45})"

definition path_break :: "char \<Rightarrow> bool" where
  "path_break c = (\<not> path_char c \<and> c \<noteq> CHR ''/'' \<and> c \<noteq> CHR 0x5C)"

function more_segments :: "string \<Rightarrow> string \<times> string" where
  "more_segments s = (case s of
       c # r \<Rightarrow> if c = CHR ''/'' \<and> takeWhile path_char r \<noteq> []
         then (case more_segments (dropWhile path_char r) of
             (m, rest) \<Rightarrow> (c # takeWhile path_char r @ m, rest))
         else ([], s)
     | [] \<Rightarrow> ([], s))"
  by pat_completeness auto
termination
  by (relation "measure length") (auto simp: less_Suc_eq_le length_dropWhile_le)

declare more_segments.simps [simp del]

definition path_match :: "string \<Rightarrow> (string \<times> string) option" where
  "path_match s = (case more_segments (dropWhile path_char s) of
       (m, rest) \<Rightarrow> if takeWhile path_char s = [] \<or> m = [] then None
         else Some (takeWhile path_char s @ m, rest))"

lemma more_segments_split: "more_segments s = (m, rest) \<Longrightarrow> s = m @ rest"
proof (induction s arbitrary: m rest rule: more_segments.induct)
  case (1 s)
  show ?case
  proof (cases s)
    case (Cons c r)
    show ?thesis
    proof (cases "c = CHR ''/'' \<and> takeWhile path_char r \<noteq> []")
      case True
      obtain k q where k: "more_segments (dropWhile path_char r) = (k, q)"
        by (cases "more_segments (dropWhile path_char r)")
      have "dropWhile path_char r = k @ q" by (rule "1.IH" [OF Cons True k])
      then have "r = takeWhile path_char r @ k @ q" by (metis takeWhile_dropWhile_id)
      moreover have "m = c # takeWhile path_char r @ k" "rest = q"
        using "1.prems" True k unfolding Cons more_segments.simps [of "c # r"] by auto
      ultimately show ?thesis by (simp add: Cons)
    next
      case False
      then show ?thesis using "1.prems" by (auto simp: Cons more_segments.simps [of "c # r"])
    qed
  qed (use "1.prems" in \<open>simp add: more_segments.simps\<close>)
qed

lemma path_match_split:
  assumes "path_match s = Some (m, rest)"
  shows "s = m @ rest" "m \<noteq> []"
proof -
  obtain k q where k: "more_segments (dropWhile path_char s) = (k, q)"
    by (cases "more_segments (dropWhile path_char s)")
  have "dropWhile path_char s = k @ q" by (rule more_segments_split [OF k])
  then have "s = takeWhile path_char s @ k @ q" by (metis takeWhile_dropWhile_id)
  then show "s = m @ rest" "m \<noteq> []" using assms by (auto simp: path_match_def k split: if_splits)
qed

lemma path_match_shorter: "(if b then path_match s else None) = Some (m, rest) \<Longrightarrow> length rest < length s"
  using path_match_split [of s m rest] by (auto split: if_splits)

text \<open>\<open>finditer\<close>: the matches from left to right, the search going on behind each one.\<close>

function find_paths :: "char option \<Rightarrow> string \<Rightarrow> string list" where
  "find_paths before s = (case s of [] \<Rightarrow> []
     | c # r \<Rightarrow> (case if before = None \<or> path_break (the before) then path_match s else None of
         Some (m, rest) \<Rightarrow> m # find_paths (Some (last m)) rest
       | None \<Rightarrow> find_paths (Some c) r))"
  by pat_completeness auto
termination
  by (relation "measure (\<lambda>(_, s). length s)") (auto dest: path_match_shorter)

declare find_paths.simps [simp del]

definition plain_deliverable :: "string \<Rightarrow> bool" where
  "plain_deliverable candidate = (let parts = split_on (CHR ''/'') candidate in
     \<not> starts_with candidate ''/'' \<and> \<not> list_ex (\<lambda>p. p \<in> {[], ''.'', ''..''}) parts \<and> hd parts \<noteq> ''.git'')"

definition planner_deliverables :: "string \<Rightarrow> string list" where
  "planner_deliverables message = dedup (filter plain_deliverable
     (map (\<lambda>m. rstrip_of (\<lambda>c. c \<in> set ''.,;:!?'') (strip m)) (find_paths None message)))"

section \<open>The plan\<close>

definition planner_plan_id :: "string \<Rightarrow> string \<Rightarrow> string" where
  "planner_plan_id request message = ''plan-'' @ take 16 (sha256_hex (request @ CHR 0x00 # message))"

definition planner_step_id :: "string \<Rightarrow> string" where
  "planner_step_id request = ''step-'' @ take 12 (sha256_hex request)"

definition planner_payload ::
  "string \<Rightarrow> string \<Rightarrow> string \<Rightarrow> string \<Rightarrow> string \<Rightarrow> string \<Rightarrow> string \<Rightarrow> pyval list \<Rightarrow> pyval dict" where
  "planner_payload request project root branch kind policy message uploads =
     [(''request_id'', PStr request), (''project_id'', PStr project), (''repository_root'', PStr root),
      (''default_branch'', PStr branch), (''project_type'', PStr kind), (''policy_profile'', PStr policy),
      (''user_request'', PStr message), (''upload_ids'', PList uploads),
      (''deliverables'', PList (map PStr (planner_deliverables message)))]"

definition plan_of ::
  "string \<Rightarrow> string \<Rightarrow> string \<Rightarrow> string \<Rightarrow> pyval dict \<Rightarrow> pyval dict" where
  "plan_of request project message task payload =
     [(''plan_id'', PStr (planner_plan_id request message)), (''request_id'', PStr request),
      (''project_id'', PStr project), (''summary'', PStr (take 500 message)),
      (''steps'', PList [PDict
        [(''step_id'', PStr (planner_step_id request)), (''title'', PStr (take 120 message)),
         (''description'', PStr message), (''dependencies'', PList []),
         (''priority'', PInt (priority_for task)), (''task_type'', PStr task),
         (''payload'', PDict payload)]])]"

definition planner_plan :: "pyval \<Rightarrow> string + pyval dict" where
  "planner_plan v = (case v of
       PDict m \<Rightarrow>
         ebind (ebind (require_text m ''request_id'') valid_identifier) (\<lambda>request.
         ebind (ebind (require_text m ''project_id'') valid_identifier) (\<lambda>project.
         ebind (ebind (require_text m ''conversation_id'') valid_identifier) (\<lambda>_.
         ebind (require_text m ''user_message'') (\<lambda>message.
         ebind (require_text m ''task_type'') (\<lambda>task_text.
         let task = normalize_task_type task_text in
         ebind (case dget_or m ''upload_ids'' (PList []) of
             PList us \<Rightarrow> if list_all is_str us then Inr us else Inl ''invalid_upload_ids''
           | _ \<Rightarrow> Inl ''invalid_upload_ids'') (\<lambda>uploads.
         ebind (require_text m ''repository_root'') (\<lambda>root.
         ebind (require_text m ''default_branch'') (\<lambda>branch.
         ebind (require_text m ''project_type'') (\<lambda>kind.
         ebind (require_text m ''policy_profile'') (\<lambda>policy.
           Inr (plan_of request project message task
             (planner_payload request project root branch kind policy message uploads))))))))))))
     | _ \<Rightarrow> Inl ''invalid_planner_input'')"

section \<open>The builder accepts the planner's plan\<close>

lemma strip_eq_Nil: "strip s = [] \<longleftrightarrow> (\<forall>c \<in> set s. py_space c)"
proof -
  have "strip s = [] \<longleftrightarrow> (\<forall>c \<in> set (dropWhile py_space s). py_space c)"
    by (auto simp: strip_def dropWhile_eq_Nil_conv dest: set_dropWhileD)
  also have "\<dots> \<longleftrightarrow> dropWhile py_space s = []"
    using hd_dropWhile [of py_space s] by (cases "dropWhile py_space s") (auto dest: set_dropWhileD)
  finally show ?thesis by (simp add: dropWhile_eq_Nil_conv)
qed

lemma require_text_Inr: "require_text m key = Inr t \<Longrightarrow> t \<noteq> [] \<and> (\<exists>s. dget m key = PStr s \<and> t = strip s)"
  by (auto simp: require_text_def split: pyval.splits if_splits)

lemma normalize_task_type_known: "normalize_task_type t \<in> set planner_task_types"
  by (auto simp: normalize_task_type_def Let_def planner_task_types_def)

lemma task_type_text: "t \<in> set planner_task_types \<Longrightarrow> strip t \<noteq> []"
  by (auto simp: planner_task_types_def strip_eq_Nil py_space_def Let_def)

lemma payload_harmless:
  "\<not> contains_forbidden_keys (PDict (planner_payload request project root branch kind policy message uploads))"
  if "list_all is_str uploads"
proof -
  have none: "filter is_nested uploads = []" "filter is_nested (map PStr ds) = []" for ds
    using that by (auto simp: filter_empty_conv is_nested_def is_dict_def is_list_def list_all_iff is_str_def
        split: pyval.splits)
  then show ?thesis
    by (simp add: contains_forbidden_keys_def planner_payload_def forbidden_walk.simps is_nested_def
        is_dict_def is_list_def forbidden_payload_keys_def lower_def lower_char_def)
qed

text \<open>What a plan of the planner is made of.\<close>

definition planner_parts ::
  "pyval dict \<Rightarrow> string \<Rightarrow> string \<Rightarrow> string \<Rightarrow> string \<Rightarrow> pyval dict \<Rightarrow> bool" where
  "planner_parts m request project message task payload \<longleftrightarrow>
     require_text m ''request_id'' = Inr request \<and> require_text m ''project_id'' = Inr project \<and>
     require_text m ''user_message'' = Inr message \<and> task \<in> set planner_task_types \<and>
     (\<exists>root branch kind policy uploads. list_all is_str uploads \<and>
        payload = planner_payload request project root branch kind policy message uploads)"

lemma planner_plan_parts:
  assumes "planner_plan (PDict m) = Inr p"
  obtains request project message task payload where
    "p = plan_of request project message task payload" "planner_parts m request project message task payload"
proof -
  obtain us where us: "dget_or m ''upload_ids'' (PList []) = PList us" "list_all is_str us"
    using assms unfolding planner_plan_def
    by (cases "dget_or m ''upload_ids'' (PList [])") (auto simp: err_simps Let_def split: if_splits)
  have v: "valid_identifier x = Inr y \<Longrightarrow> y = x" for x y by (auto simp: valid_identifier_def split: if_splits)
  obtain request project message t root branch kind policy where
    "require_text m ''request_id'' = Inr request" "require_text m ''project_id'' = Inr project"
    "require_text m ''user_message'' = Inr message"
    "p = plan_of request project message (normalize_task_type t)
      (planner_payload request project root branch kind policy message us)"
    using assms us unfolding planner_plan_def by (auto simp: err_simps Let_def dest!: v)
  then show ?thesis using that us(2) normalize_task_type_known unfolding planner_parts_def by blast
qed

lemma solid_prefix: "p \<noteq> [] \<Longrightarrow> \<not> py_space (hd p) \<Longrightarrow> strip (p @ s) \<noteq> []"
  by (cases p) (auto simp: strip_eq_Nil)

lemma planner_ids_text:
  "non_empty_text (PStr (planner_plan_id request message))" "non_empty_text (PStr (planner_step_id request))"
  using solid_prefix [of "''plan-''"] solid_prefix [of "''step-''"]
  by (simp_all add: non_empty_text_def planner_plan_id_def planner_step_id_def py_space_def Let_def)

lemma planner_step_valid:
  assumes "planner_parts m request project message task payload"
  defines "step \<equiv> [(''step_id'', PStr (planner_step_id request)), (''title'', PStr (take 120 message)),
         (''description'', PStr message), (''dependencies'', PList []),
         (''priority'', PInt (priority_for task)), (''task_type'', PStr task), (''payload'', PDict payload)]"
  shows "validate_plan_step None [] (PDict step) = Inr step"
proof -
  have "non_empty_text (PStr task)"
    using assms(1) task_type_text by (simp add: non_empty_text_def planner_parts_def)
  moreover have "\<not> contains_forbidden_keys (PDict payload)"
    using assms(1) payload_harmless by (auto simp: planner_parts_def)
  moreover have "unknown_keys plan_step_fields step = []" "has_fields plan_step_fields step"
    by (simp_all add: unknown_keys_def step_def plan_step_fields_def has_fields_def filter_empty_conv)
  ultimately show ?thesis
    using planner_ids_text(2) [of request]
    by (simp add: validate_plan_step_def ensure_identifier_def step_def dget_def is_str_def
        is_integer_def supported_type_def)
qed

lemma planner_plan_valid:
  assumes parts: "planner_parts m request project message task payload"
    and r: "dget r ''request_id'' = PStr request" "dget r ''project_id'' = PStr project"
  shows "validate_plan None (PDict (plan_of request project message task payload)) r =
    Inr (plan_of request project message task payload)"
proof -
  let ?p = "plan_of request project message task payload"
  obtain step where step: "dget ?p ''steps'' = PList [PDict step]" "step_deps step = []"
    "validate_plan_step None [] (PDict step) = Inr step"
    using planner_step_valid [OF parts] by (simp add: plan_of_def dget_def step_deps_def text_list_def)
  have "unknown_keys plan_fields ?p = []" "has_fields plan_fields ?p"
    by (simp_all add: unknown_keys_def plan_of_def plan_fields_def has_fields_def filter_empty_conv)
  moreover have "dget ?p ''plan_id'' = PStr (planner_plan_id request message)"
    "dget ?p ''request_id'' = PStr request" "dget ?p ''project_id'' = PStr project" "is_str (dget ?p ''summary'')"
    by (simp_all add: plan_of_def dget_def is_str_def)
  moreover have "\<not> plan_has_cycle [step]"
    by (simp add: plan_has_cycle_def adjacency_def step(2))
  moreover have "validate_plan_dependencies [step] = Inr ()"
    by (simp add: validate_plan_dependencies_def step(2))
  ultimately show ?thesis
    using planner_ids_text(1) [of request message]
    by (simp add: validate_plan_def ensure_identifier_def step(1,3) r)
qed

section \<open>The deliverables pass the queue adapter\<close>

lemma path_match_chars:
  assumes "path_match s = Some (m, rest)" and "c \<in> set m"
  shows "path_char c \<or> c = CHR ''/''"
proof -
  have more: "more_segments s = (m, rest) \<Longrightarrow> c \<in> set m \<Longrightarrow> path_char c \<or> c = CHR ''/''" for s m rest
  proof (induction s arbitrary: m rest rule: more_segments.induct)
    case (1 s)
    show ?case
    proof (cases s)
      case (Cons d r)
      show ?thesis
      proof (cases "d = CHR ''/'' \<and> takeWhile path_char r \<noteq> []")
        case True
        obtain k q where k: "more_segments (dropWhile path_char r) = (k, q)"
          by (cases "more_segments (dropWhile path_char r)")
        have "m = d # takeWhile path_char r @ k"
          using "1.prems"(1) True k unfolding Cons more_segments.simps [of "d # r"] by auto
        then show ?thesis using "1.IH" [OF Cons True k] "1.prems"(2) True set_takeWhileD by fastforce
      next
        case False
        then show ?thesis using "1.prems" by (auto simp: Cons more_segments.simps [of "d # r"])
      qed
    qed (use "1.prems" in \<open>simp add: more_segments.simps\<close>)
  qed
  obtain k q where k: "more_segments (dropWhile path_char s) = (k, q)"
    by (cases "more_segments (dropWhile path_char s)")
  then have "m = takeWhile path_char s @ k" using assms(1) by (auto simp: path_match_def split: if_splits)
  then show ?thesis using more [OF k] assms(2) set_takeWhileD by fastforce
qed

lemma find_paths_chars:
  "m \<in> set (find_paths before s) \<Longrightarrow> c \<in> set m \<Longrightarrow> path_char c \<or> c = CHR ''/''"
proof (induction before s arbitrary: m rule: find_paths.induct)
  case (1 before s)
  show ?case
  proof (cases s)
    case Nil
    then show ?thesis using "1.prems" by (simp add: find_paths.simps)
  next
    case (Cons d r)
    let ?m = "if before = None \<or> path_break (the before) then path_match s else None"
    show ?thesis
    proof (cases ?m)
      case None
      then have "m \<in> set (find_paths (Some d) r)"
        using "1.prems"(1) unfolding Cons find_paths.simps [of before "d # r"] by simp
      then show ?thesis using "1.IH"(1) [OF Cons None] "1.prems"(2) by blast
    next
      case (Some x)
      obtain k rest where x: "x = (k, rest)" by (cases x)
      have "m = k \<or> m \<in> set (find_paths (Some (last k)) rest)"
        using "1.prems"(1) Some unfolding Cons find_paths.simps [of before "d # r"] by (simp add: x)
      moreover have "path_match s = Some (k, rest)" using Some x by (simp split: if_splits)
      ultimately show ?thesis
        using path_match_chars "1.IH"(2) [OF Cons Some x [symmetric]] "1.prems"(2) by blast
    qed
  qed
qed

lemma path_char_solid: "path_char c \<or> c = CHR ''/'' \<Longrightarrow> \<not> py_space c \<and> c \<noteq> CHR 0x5C"
  by (auto simp: path_char_def py_space_def Let_def)

lemma planner_deliverable_accepted:
  assumes "d \<in> set (planner_deliverables message)"
  shows "check_deliverable (PStr d) = Inr d"
proof -
  obtain m where m: "m \<in> set (find_paths None message)" "plain_deliverable d"
    "d = rstrip_of (\<lambda>c. c \<in> set ''.,;:!?'') (strip m)"
    using assms by (auto simp: planner_deliverables_def)
  have "set d \<subseteq> set m"
    using strip_subset [of m] by (auto simp: m(3) rstrip_of_def dest!: set_dropWhileD)
  then have solid: "\<not> py_space c \<and> c \<noteq> CHR 0x5C" if "c \<in> set d" for c
    using find_paths_chars [OF m(1)] path_char_solid that by blast
  then have "strip d = d" by (intro strip_solid) blast
  moreover have "d \<noteq> []" using m(2) by (auto simp: plain_deliverable_def)
  ultimately show ?thesis
    using m(2) solid by (auto simp: check_deliverable_def plain_deliverable_def Let_def)
qed

end
