(* ===== verification/PlannerQueueFlow.thy ===== *)
theory PlannerQueueFlow
  imports PyMonad PyValue
begin

text \<open>
  \<^verbatim>\<open>agent/orchestrator/planner_queue_flow_coordinator.py\<close>: an approved request goes through planner,
  builder and queue.  The three are methods on a world \<open>'s\<close> that answer with documents or raise;
  the coordinator keeps its counters and its events.  The clock and the sink never raise here: the
  code swallows what the sink raises.
\<close>

section \<open>Data\<close>

record 's flow_env =
  fe_plan :: "pyval \<Rightarrow> ('s, unit, pyval) action"
  fe_build :: "pyval \<Rightarrow> pyval \<Rightarrow> ('s, unit, pyval) action"
  fe_enqueue :: "pyval \<Rightarrow> pyval \<Rightarrow> pyval \<Rightarrow> ('s, unit, pyval) action"
  fe_now :: "'s \<Rightarrow> pyval \<times> 's"
  fe_emit :: "string \<Rightarrow> pyval dict \<Rightarrow> 's \<Rightarrow> 's"

record 's flow =
  fl_world :: 's
  fl_processed :: nat
  fl_accepted :: nat
  fl_rejected :: nat
  fl_events :: "pyval list"

definition approved_request_fields :: "string list" where
  "approved_request_fields = [''accepted'', ''request_id'', ''project_id'', ''conversation_id'',
     ''provider_id'', ''model_id'', ''task_type'', ''user_message'', ''upload_ids'', ''created_at'',
     ''warning'', ''project_context'']"

definition context_required_fields :: "string list" where
  "context_required_fields =
     [''repository_root'', ''default_branch'', ''project_type'', ''policy_profile'', ''queue_reference'']"

section \<open>Helpers\<close>

definition nonempty_str :: "pyval \<Rightarrow> bool" where
  "nonempty_str v = (case v of PStr s \<Rightarrow> strip s \<noteq> [] | _ \<Rightarrow> False)"

definition safe_text :: "nat \<Rightarrow> pyval \<Rightarrow> string" where
  "safe_text limit v = take limit (map (\<lambda>c. if c = CHR 13 \<or> c = CHR 10 then CHR '' '' else c)
     (if v = PNone then [] else py_str v))"

definition safe_id :: "pyval \<Rightarrow> string" where
  "safe_id = safe_text 256"

definition safe_string :: "pyval \<Rightarrow> string" where
  "safe_string = safe_text 1024"

section \<open>The approved request\<close>

definition context_ok :: "pyval \<Rightarrow> pyval \<Rightarrow> bool" where
  "context_ok project ctx = (case ctx of
       PDict pc \<Rightarrow> list_all (\<lambda>k. map_of pc k \<noteq> None) context_required_fields \<and>
         list_all (\<lambda>k. nonempty_str (dget pc k)) context_required_fields \<and>
         (dget pc ''project_id'' = PNone \<or> nonempty_str (dget pc ''project_id'') \<and> dget pc ''project_id'' = project)
     | _ \<Rightarrow> False)"

definition stripped_field :: "pyval dict \<Rightarrow> string \<Rightarrow> string \<times> pyval" where
  "stripped_field d k = (k, PStr (strip (py_str (dget d k))))"

text \<open>\<open>None\<close> is the code \<open>invalid_approved_request\<close>.\<close>

definition validate_flow_request :: "pyval \<Rightarrow> pyval dict option" where
  "validate_flow_request request = (case request of
       PDict d \<Rightarrow>
         if fst ` set d = set approved_request_fields \<and> dget d ''accepted'' = PBool True \<and>
            list_all (\<lambda>k. nonempty_str (dget d k))
              [''request_id'', ''project_id'', ''conversation_id'', ''provider_id'', ''model_id'', ''task_type''] \<and>
            nonempty_str (dget d ''user_message'') \<and> is_list (dget d ''upload_ids'') \<and>
            dget d ''created_at'' \<noteq> PNone \<and>
            (dget d ''warning'' = PNone \<or> is_str (dget d ''warning'')) \<and>
            context_ok (dget d ''project_id'') (dget d ''project_context'')
         then Some ([(''accepted'', PBool True)] @
           map (stripped_field d) [''request_id'', ''project_id'', ''conversation_id'', ''provider_id'', ''model_id'', ''task_type''] @
           [(''user_message'', dget d ''user_message''), (''upload_ids'', dget d ''upload_ids''),
            (''created_at'', PStr (py_str (dget d ''created_at''))), (''warning'', dget d ''warning''),
            (''project_context'', dget d ''project_context'')])
         else None
     | _ \<Rightarrow> None)"

definition planner_input :: "pyval dict \<Rightarrow> pyval" where
  "planner_input norm =
     (let pc = (case dget norm ''project_context'' of PDict d \<Rightarrow> d | _ \<Rightarrow> []) in
      PDict ([(k, dget norm k). k \<leftarrow> [''request_id'', ''project_id'', ''conversation_id'']] @
        [(k, dget pc k). k \<leftarrow> [''repository_root'', ''default_branch'', ''project_type'', ''policy_profile'']] @
        [(k, dget norm k). k \<leftarrow> [''provider_id'', ''model_id'', ''task_type'', ''user_message'', ''upload_ids'']]))"

section \<open>Events and results\<close>

definition flow_emit :: "'s flow_env \<Rightarrow> string \<Rightarrow> pyval dict \<Rightarrow> 's flow \<Rightarrow> 's flow" where
  "flow_emit env name payload fl =
     (let safe = filter (\<lambda>(k, _). k \<notin> {''user_message'', ''upload_ids''}) payload in
      case fe_now env (fl_world fl) of (t, w) \<Rightarrow>
        fl\<lparr>fl_events := fl_events fl @ [PDict [(''time'', PStr (safe_string t)), (''event'', PStr name),
             (''payload'', PDict safe)]],
           fl_world := fe_emit env name safe w\<rparr>)"

text \<open>The payloads: with the five identifiers, and with a count.\<close>

definition named_payload :: "pyval dict \<Rightarrow> string \<Rightarrow> pyval dict" where
  "named_payload request status =
     map (\<lambda>k. (k, PStr (safe_id (dget request k))))
       [''request_id'', ''project_id'', ''provider_id'', ''model_id'', ''task_type''] @
     [(''status'', PStr status)]"

definition short_payload :: "pyval dict \<Rightarrow> pyval dict \<Rightarrow> string \<Rightarrow> pyval dict" where
  "short_payload request details status =
     map (\<lambda>k. (k, PStr (safe_id (dget request k)))) [''request_id'', ''project_id''] @ details @
     [(''status'', PStr status)]"

definition flow_result ::
  "pyval dict \<Rightarrow> bool \<Rightarrow> string \<Rightarrow> string \<Rightarrow> string \<Rightarrow> string list \<Rightarrow> pyval dict" where
  "flow_result request accepted blocked plan_id summary ids =
     [(''accepted'', PBool accepted)] @
     map (\<lambda>k. (k, PStr (safe_id (dget request k))))
       [''request_id'', ''project_id'', ''conversation_id'', ''provider_id'', ''model_id'', ''task_type''] @
     [(''plan_id'', PStr (safe_string (PStr plan_id))), (''plan_summary'', PStr (safe_string (PStr summary))),
      (''mission_ids'', PList (map PStr ids)),
      (''warning'', PStr (safe_string (dget_or request ''warning'' (PStr [])))),
      (''blocked_reason'', PStr (safe_string (PStr blocked))),
      (''created_at'', PStr (safe_string (dget_or request ''created_at'' (PStr []))))]"

definition count_rejected :: "'s flow \<Rightarrow> 's flow" where
  "count_rejected fl = fl\<lparr>fl_rejected := fl_rejected fl + 1\<rparr>"

text \<open>A stop before the queue: one more rejected, an event of its own and the closing one.\<close>

definition flow_stop ::
  "'s flow_env \<Rightarrow> pyval dict \<Rightarrow> pyval dict \<Rightarrow> string \<Rightarrow> string \<Rightarrow> 's flow \<Rightarrow> pyval dict \<times> 's flow" where
  "flow_stop env request norm event reason fl =
     (flow_result norm False reason [] [] [],
      flow_emit env ''planner_queue_flow_completed'' (named_payload request reason)
        (flow_emit env event (named_payload request reason) (count_rejected fl)))"

section \<open>Submitting\<close>

definition queue_codes :: "string list" where
  "queue_codes = [''queue_resolution_failed'', ''unsupported_queue_interface'', ''queue_failed'',
     ''partial_enqueue'', ''dependency_failed'']"

text \<open>What the coordinator makes of the queue's answer: accepted, and the failure code.\<close>

definition queue_verdict :: "pyval \<Rightarrow> bool \<times> pyval" where
  "queue_verdict answer = (case answer of
       PDict r \<Rightarrow> if map_of r ''accepted'' \<noteq> None
         then (py_truth (dget r ''accepted''), dget r ''blocked_reason'')
         else (py_truth (dget r ''ok''), dget r ''code'')
     | _ \<Rightarrow> (False, PStr ''dependency_failed''))"

definition blocked_code :: "pyval \<Rightarrow> string" where
  "blocked_code code = (case code of
       PStr c \<Rightarrow> if c \<in> set queue_codes then c else ''dependency_failed'' | _ \<Rightarrow> ''dependency_failed'')"

definition count_field :: "nat \<Rightarrow> pyval dict" where
  "count_field n = [(''count'', PInt (int n))]"

definition flow_queue_failed ::
  "'s flow_env \<Rightarrow> pyval dict \<Rightarrow> pyval dict \<Rightarrow> nat \<Rightarrow> string \<Rightarrow> string \<Rightarrow> string \<Rightarrow> 's flow \<Rightarrow> pyval dict \<times> 's flow" where
  "flow_queue_failed env request norm n plan_id summary reason fl =
     (flow_result norm False reason plan_id summary [],
      flow_emit env ''planner_queue_flow_completed'' (short_payload request [] reason)
        (flow_emit env ''queue_submission_failed'' (short_payload request (count_field n) reason)
          (count_rejected fl)))"

definition flow_submit ::
  "'s flow_env \<Rightarrow> pyval dict \<Rightarrow> pyval dict \<Rightarrow> pyval list \<Rightarrow> string list \<Rightarrow> string \<Rightarrow> string \<Rightarrow> 's flow \<Rightarrow>
   pyval dict \<times> 's flow" where
  "flow_submit env request norm missions ids plan_id summary fl =
     (let n = length missions;
          fl1 = flow_emit env ''queue_submission_started'' (short_payload request (count_field n) ''started'')
            (flow_emit env ''missions_built'' (short_payload request (count_field n) ''ok'')
              (flow_emit env ''plan_validated'' (named_payload request ''ok'') fl));
          reference = (case dget norm ''project_context'' of PDict pc \<Rightarrow> dget pc ''queue_reference'' | _ \<Rightarrow> PNone)
      in case fe_enqueue env (dget norm ''project_id'') reference (PList missions) (fl_world fl1) of
           (Inl _, w) \<Rightarrow> flow_queue_failed env request norm n plan_id summary ''dependency_failed''
             (fl1\<lparr>fl_world := w\<rparr>)
         | (Inr answer, w) \<Rightarrow> (case queue_verdict answer of (accepted, code) \<Rightarrow>
             if \<not> accepted
             then flow_queue_failed env request norm n plan_id summary (blocked_code code) (fl1\<lparr>fl_world := w\<rparr>)
             else (flow_result norm True [] plan_id summary ids,
               flow_emit env ''planner_queue_flow_completed'' (named_payload request ''ok'')
                 (fl1\<lparr>fl_world := w, fl_accepted := fl_accepted fl1 + 1\<rparr>))))"

section \<open>The flow\<close>

fun flow_mission_ids :: "pyval list \<Rightarrow> string list option" where
  "flow_mission_ids [] = Some []"
| "flow_mission_ids (v # vs) = (case v of
       PDict m \<Rightarrow> if nonempty_str (dget m ''mission_id'')
         then map_option (\<lambda>ids. py_str (dget m ''mission_id'') # ids) (flow_mission_ids vs) else None
     | _ \<Rightarrow> None)"

text \<open>A builder's answer: iterating over a true number raises, which nothing here catches.\<close>

definition flow_built ::
  "'s flow_env \<Rightarrow> pyval dict \<Rightarrow> pyval dict \<Rightarrow> pyval \<Rightarrow> 's flow \<Rightarrow> (unit + pyval dict) \<times> 's flow" where
  "flow_built env request norm answer fl =
     (let stop = (\<lambda>fl. map_prod Inr id (flow_stop env request norm ''plan_rejected'' ''invalid_plan'' fl)) in
      case answer of
        PDict r \<Rightarrow>
          if \<not> py_truth (dget r ''ok'') then stop fl
          else let plan_id = safe_string (dget_or r ''plan_id'' (PStr []));
                   summary = safe_string (dget_or r ''plan_summary'' (PStr []));
                   submit = (\<lambda>vs. case flow_mission_ids vs of
                       None \<Rightarrow> stop fl
                     | Some ids \<Rightarrow> map_prod Inr id (flow_submit env request norm vs ids plan_id summary fl))
               in if \<not> py_truth (dget r ''missions'') then submit []
                  else (case dget r ''missions'' of
                      PList vs \<Rightarrow> submit vs
                    | PStr _ \<Rightarrow> stop fl
                    | PDict _ \<Rightarrow> stop fl
                    | _ \<Rightarrow> (Inl (), fl))
      | _ \<Rightarrow> stop fl)"

definition flow_planned ::
  "'s flow_env \<Rightarrow> pyval dict \<Rightarrow> pyval dict \<Rightarrow> 's flow \<Rightarrow> (unit + pyval dict) \<times> 's flow" where
  "flow_planned env request norm fl =
     (let fl1 = flow_emit env ''planner_started'' (named_payload request ''started'') fl in
      case fe_plan env (planner_input norm) (fl_world fl1) of
        (Inl _, w) \<Rightarrow> map_prod Inr id
          (flow_stop env request norm ''planner_failed'' ''planner_failed'' (fl1\<lparr>fl_world := w\<rparr>))
      | (Inr plan, w) \<Rightarrow>
          if \<not> py_truth plan
          then map_prod Inr id (flow_stop env request norm ''plan_rejected'' ''invalid_plan'' (fl1\<lparr>fl_world := w\<rparr>))
          else (case fe_build env plan (PDict norm) w of
              (Inl _, w') \<Rightarrow> map_prod Inr id
                (flow_stop env request norm ''plan_rejected'' ''dependency_failed'' (fl1\<lparr>fl_world := w'\<rparr>))
            | (Inr answer, w') \<Rightarrow> flow_built env request norm answer (fl1\<lparr>fl_world := w'\<rparr>)))"

text \<open>\<open>process\<close>; a request that is no mapping raises after it has been counted.\<close>

definition flow_process :: "'s flow_env \<Rightarrow> pyval \<Rightarrow> 's flow \<Rightarrow> (unit + pyval dict) \<times> 's flow" where
  "flow_process env v fl =
     (let fl0 = fl\<lparr>fl_processed := fl_processed fl + 1\<rparr> in
      case v of
        PDict request \<Rightarrow>
          let fl1 = flow_emit env ''planner_flow_started'' (named_payload request ''started'') fl0 in
          (case validate_flow_request v of
             None \<Rightarrow> (Inr (flow_result request False ''invalid_approved_request'' [] [] []),
               flow_emit env ''planner_queue_flow_completed''
                 (named_payload request ''invalid_approved_request'') (count_rejected fl1))
           | Some norm \<Rightarrow> flow_planned env request norm fl1)
      | _ \<Rightarrow> (Inl (), fl0))"

definition flow_status :: "'s flow \<Rightarrow> pyval dict" where
  "flow_status fl = [(''processed'', PInt (int (fl_processed fl))),
     (''accepted'', PInt (int (fl_accepted fl))), (''rejected'', PInt (int (fl_rejected fl)))]"

text \<open>\<open>latest_events\<close>: the last \<open>limit\<close> events, of one project if it is given.\<close>

definition event_project :: "pyval \<Rightarrow> pyval" where
  "event_project e = (case e of
       PDict d \<Rightarrow> (case dget_or d ''payload'' (PDict []) of PDict p \<Rightarrow> dget p ''project_id'' | _ \<Rightarrow> PNone)
     | _ \<Rightarrow> PNone)"

definition flow_latest :: "int \<Rightarrow> pyval \<Rightarrow> 's flow \<Rightarrow> pyval list" where
  "flow_latest limit project fl =
     (if limit \<le> 0 then []
      else let es = (if project = PNone then fl_events fl
             else filter (\<lambda>e. event_project e = PStr (py_str project)) (fl_events fl))
        in drop (length es - nat limit) es)"

section \<open>Counters\<close>

lemma flow_emit_counts [simp]:
  "fl_processed (flow_emit env name payload fl) = fl_processed fl"
  "fl_accepted (flow_emit env name payload fl) = fl_accepted fl"
  "fl_rejected (flow_emit env name payload fl) = fl_rejected fl"
  by (simp_all add: flow_emit_def Let_def split: prod.split)

lemma count_rejected_counts [simp]:
  "fl_processed (count_rejected fl) = fl_processed fl"
  "fl_accepted (count_rejected fl) = fl_accepted fl"
  "fl_rejected (count_rejected fl) = fl_rejected fl + 1"
  by (simp_all add: count_rejected_def)

lemma flow_result_accepted [simp]:
  "dget (flow_result request accepted blocked plan_id summary ids) ''accepted'' = PBool accepted"
  by (simp add: flow_result_def dget_def)

text \<open>A result counts itself.\<close>

definition counts_one :: "'s flow \<Rightarrow> pyval dict \<times> 's flow \<Rightarrow> bool" where
  "counts_one fl out = (case out of (r, fl') \<Rightarrow> fl_processed fl' = fl_processed fl \<and>
     (dget r ''accepted'' = PBool True \<and> fl_accepted fl' = fl_accepted fl + 1 \<and> fl_rejected fl' = fl_rejected fl \<or>
      dget r ''accepted'' = PBool False \<and> fl_accepted fl' = fl_accepted fl \<and> fl_rejected fl' = fl_rejected fl + 1))"

lemma flow_stop_counts: "counts_one fl (flow_stop env request norm event reason fl)"
  by (simp add: counts_one_def flow_stop_def)

lemma flow_queue_failed_counts: "counts_one fl (flow_queue_failed env request norm n plan_id summary reason fl)"
  by (simp add: counts_one_def flow_queue_failed_def)

lemma flow_submit_counts: "counts_one fl (flow_submit env request norm ms ids plan_id summary fl)"
  by (simp add: flow_submit_def flow_queue_failed_def counts_one_def Let_def split: sum.split prod.split)

text \<open>Where a run of the flow can end.\<close>

lemma map_prod_Inr: "map_prod Inr id p = (Inr r, s) \<longleftrightarrow> p = (r, s)"
  by (cases p) auto

lemma flow_built_cases:
  assumes "flow_built env request norm answer fl = (Inr r, fl')"
  shows "flow_stop env request norm ''plan_rejected'' ''invalid_plan'' fl = (r, fl') \<or>
    (\<exists>d vs ids plan_id summary. answer = PDict d \<and> py_truth (dget d ''ok'') \<and>
      (dget d ''missions'' = PList vs \<or> vs = []) \<and> flow_mission_ids vs = Some ids \<and>
      flow_submit env request norm vs ids plan_id summary fl = (r, fl'))"
proof -
  note simps = flow_built_def Let_def map_prod_Inr
  show ?thesis
  proof (cases answer)
    case (PDict d)
    show ?thesis
    proof (cases "py_truth (dget d ''ok'') \<and> py_truth (dget d ''missions'')")
      case True
      then show ?thesis
        using assms
        by (cases "dget d ''missions''") (auto simp: simps PDict split: option.splits)
    next
      case False
      then show ?thesis
        using assms by (auto simp: simps PDict split: if_splits) (metis flow_mission_ids.simps(1))+
    qed
  qed (use assms in \<open>simp_all add: simps\<close>)
qed

lemma flow_planned_cases:
  assumes "flow_planned env request norm fl = (Inr r, fl')"
  defines "fl1 \<equiv> flow_emit env ''planner_started'' (named_payload request ''started'') fl"
  shows "(\<exists>event reason w plan. flow_stop env request norm event reason (fl1\<lparr>fl_world := w\<rparr>) = (r, fl') \<and>
      (\<exists>a. fe_plan env (planner_input norm) (fl_world fl1) = (a, w) \<or>
        (\<exists>w0 b. fe_plan env (planner_input norm) (fl_world fl1) = (a, w0) \<and>
          fe_build env plan (PDict norm) w0 = (b, w)))) \<or>
    (\<exists>plan w answer w'. fe_plan env (planner_input norm) (fl_world fl1) = (Inr plan, w) \<and>
      fe_build env plan (PDict norm) w = (Inr answer, w') \<and>
      flow_built env request norm answer (fl1\<lparr>fl_world := w'\<rparr>) = (Inr r, fl'))"
  using assms(1)
  by (auto simp: flow_planned_def Let_def map_prod_Inr fl1_def split: prod.splits sum.splits if_splits) blast+

lemma flow_built_counts:
  "flow_built env request norm answer fl = (Inr r, fl') \<Longrightarrow> counts_one fl (r, fl')"
  using flow_built_cases flow_stop_counts flow_submit_counts by metis

lemma counts_one_emit: "counts_one (flow_emit env name payload fl\<lparr>fl_world := w\<rparr>) out = counts_one fl out"
  by (simp add: counts_one_def split: prod.split)

lemma flow_planned_counts:
  "flow_planned env request norm fl = (Inr r, fl') \<Longrightarrow> counts_one fl (r, fl')"
  using flow_planned_cases flow_stop_counts flow_built_counts counts_one_emit by metis

text \<open>A world without components: planner and builder raise.\<close>

definition silent_env :: "unit flow_env" where
  "silent_env = \<lparr>fe_plan = (\<lambda>_. mraise ()), fe_build = (\<lambda>_ _. mraise ()), fe_enqueue = (\<lambda>_ _ _. mraise ()),
     fe_now = (\<lambda>w. (PStr ''t'', w)), fe_emit = (\<lambda>_ _ w. w)\<rparr>"

definition idle_flow :: "unit flow" where
  "idle_flow = \<lparr>fl_world = (), fl_processed = 4, fl_accepted = 1, fl_rejected = 3, fl_events = []\<rparr>"

text \<open>A request that is processed is counted once, and as its result says: accepted when the
  result is, rejected otherwise.\<close>

theorem flow_process_counts:
  assumes "flow_process env v fl = (Inr r, fl')"
  shows "fl_processed fl' = fl_processed fl + 1 \<and>
    (dget r ''accepted'' = PBool True \<and> fl_accepted fl' = fl_accepted fl + 1 \<and> fl_rejected fl' = fl_rejected fl \<or>
     dget r ''accepted'' = PBool False \<and> fl_accepted fl' = fl_accepted fl \<and> fl_rejected fl' = fl_rejected fl + 1)"
proof -
  obtain request where v: "v = PDict request" using assms by (cases v) (auto simp: flow_process_def Let_def)
  let ?fl1 = "flow_emit env ''planner_flow_started'' (named_payload request ''started'')
    (fl\<lparr>fl_processed := fl_processed fl + 1\<rparr>)"
  show ?thesis
  proof (cases "validate_flow_request v")
    case None
    then show ?thesis using assms by (auto simp: flow_process_def v Let_def)
  next
    case (Some norm)
    then have "flow_planned env request norm ?fl1 = (Inr r, fl')"
      using assms by (simp add: flow_process_def v Let_def)
    then have "counts_one ?fl1 (r, fl')" by (rule flow_planned_counts)
    then show ?thesis by (simp add: counts_one_def)
  qed
qed

theorem flow_process_counts_witness:
  "\<exists>r fl'. flow_process silent_env (PDict []) idle_flow = (Inr r, fl') \<and>
    fl_processed fl' = 5 \<and> fl_accepted fl' + fl_rejected fl' = 5"
proof -
  obtain r fl' where r: "flow_process silent_env (PDict []) idle_flow = (Inr r, fl')"
    by (simp add: flow_process_def validate_flow_request_def approved_request_fields_def)
  show ?thesis using flow_process_counts [OF r] r by (auto simp: idle_flow_def)
qed

section \<open>The shape of a result\<close>

definition one_line :: "nat \<Rightarrow> pyval \<Rightarrow> bool" where
  "one_line n v = (case v of PStr s \<Rightarrow> length s \<le> n \<and> CHR 10 \<notin> set s \<and> CHR 13 \<notin> set s | _ \<Rightarrow> False)"

definition result_text_fields :: "string list" where
  "result_text_fields = [''request_id'', ''project_id'', ''conversation_id'', ''provider_id'', ''model_id'',
     ''task_type'', ''plan_id'', ''plan_summary'', ''warning'', ''blocked_reason'', ''created_at'']"

definition flow_result_ok :: "pyval dict \<Rightarrow> bool" where
  "flow_result_ok r \<longleftrightarrow> fst ` set r = set ([''accepted'', ''mission_ids''] @ result_text_fields) \<and>
     (\<exists>b. dget r ''accepted'' = PBool b) \<and> (\<exists>ids. dget r ''mission_ids'' = PList (map PStr ids)) \<and>
     (\<forall>k \<in> set result_text_fields. one_line 1024 (dget r k))"

lemma one_line_safe:
  assumes "n \<le> m"
  shows "one_line m (PStr (safe_text n v))"
proof -
  let ?t = "map (\<lambda>c. if c = CHR 13 \<or> c = CHR 10 then CHR '' '' else c) (if v = PNone then [] else py_str v)"
  have "CHR 10 \<notin> set ?t \<and> CHR 13 \<notin> set ?t" by (auto split: if_splits)
  moreover have "set (take n ?t) \<subseteq> set ?t" by (rule set_take_subset)
  ultimately have "CHR 10 \<notin> set (take n ?t) \<and> CHR 13 \<notin> set (take n ?t)" by blast
  moreover have "length (take n ?t) \<le> m" using assms by simp
  ultimately show ?thesis unfolding one_line_def safe_text_def by simp
qed

lemma flow_result_typed: "flow_result_ok (flow_result request accepted blocked plan_id summary ids)"
proof -
  have "\<forall>k \<in> set result_text_fields.
      one_line 1024 (dget (flow_result request accepted blocked plan_id summary ids) k)"
    by (simp add: result_text_fields_def flow_result_def dget_def safe_id_def safe_string_def one_line_safe)
  moreover have "fst ` set (flow_result request accepted blocked plan_id summary ids) =
      set ([''accepted'', ''mission_ids''] @ result_text_fields)"
    unfolding flow_result_def result_text_fields_def by (simp add: insert_commute)
  moreover have "dget (flow_result request accepted blocked plan_id summary ids) ''mission_ids'' =
      PList (map PStr ids)"
    by (simp add: flow_result_def dget_def)
  ultimately show ?thesis unfolding flow_result_ok_def by (metis flow_result_accepted)
qed

lemma flow_submit_typed: "flow_result_ok (fst (flow_submit env request norm vs ids plan_id summary fl))"
  by (simp add: flow_submit_def flow_queue_failed_def flow_result_typed Let_def split: sum.split prod.split)

lemma flow_ends_with_result:
  "flow_stop env request norm event reason fl = (r, fl') \<Longrightarrow> flow_result_ok r"
  "flow_submit env request norm vs ids plan_id summary fl = (r, fl') \<Longrightarrow> flow_result_ok r"
proof -
  show "flow_stop env request norm event reason fl = (r, fl') \<Longrightarrow> flow_result_ok r"
    by (auto simp: flow_stop_def flow_result_typed)
  show "flow_submit env request norm vs ids plan_id summary fl = (r, fl') \<Longrightarrow> flow_result_ok r"
    by (drule arg_cong [where f = fst]) (use flow_submit_typed [of env request norm vs ids plan_id summary fl] in simp)
qed

text \<open>C11: A result is well typed whatever the components answer: it has exactly the documented fields,
  \<open>accepted\<close> is a boolean, \<open>mission_ids\<close> a list of strings, and every other field one line of at
  most 1024 characters.\<close>

theorem flow_process_typed:
  assumes "flow_process env v fl = (Inr r, fl')"
  shows "flow_result_ok r"
proof -
  obtain request where v: "v = PDict request" using assms by (cases v) (auto simp: flow_process_def Let_def)
  show ?thesis
  proof (cases "validate_flow_request v")
    case None
    then show ?thesis using assms by (auto simp: flow_process_def v Let_def flow_result_typed)
  next
    case (Some norm)
    then obtain fl1 where "flow_planned env request norm fl1 = (Inr r, fl')"
      using assms by (auto simp: flow_process_def v Let_def)
    then show ?thesis using flow_planned_cases flow_built_cases flow_ends_with_result by metis
  qed
qed

theorem flow_process_typed_witness:
  "\<exists>r fl'. flow_process silent_env (PDict [(''request_id'', PInt 7)]) idle_flow = (Inr r, fl') \<and> flow_result_ok r"
proof -
  obtain r fl' where r: "flow_process silent_env (PDict [(''request_id'', PInt 7)]) idle_flow = (Inr r, fl')"
    by (simp add: flow_process_def validate_flow_request_def approved_request_fields_def)
  show ?thesis using flow_process_typed [OF r] r by blast
qed

end
