(* ===== verification/RequestPipeline.thy ===== *)
theory RequestPipeline
  imports PlannerContract PlannerQueueFlow
begin

text \<open>
  The production pipeline of \<^verbatim>\<open>agent/runtime/production_request_composition.py\<close>: the flow coordinator
  over the production planner, the mission builder and the queue coordinator.  Whatever a request
  is, its missions are queued together and reported, or nothing changes.
\<close>

section \<open>Answers as documents\<close>

definition build_result_value :: "build_result \<Rightarrow> pyval" where
  "build_result_value b = PDict
     [(''ok'', PBool (br_ok b)), (''plan_id'', PStr (br_plan_id b)), (''plan_summary'', PStr (br_summary b)),
      (''missions'', PList (map PDict (br_missions b)))]"

definition enqueue_result_value :: "enqueue_result \<Rightarrow> pyval" where
  "enqueue_result_value r = PDict
     [(''accepted'', PBool (er_accepted r)), (''project_id'', PStr (er_project r)),
      (''mission_ids'', PList (map PStr (er_missions r))), (''enqueued_count'', PInt (int (er_count r))),
      (''atomic'', PBool (er_atomic r)),
      (''blocked_reason'', (case er_blocked r of None \<Rightarrow> PNone | Some b \<Rightarrow> PStr b)),
      (''created_at'', PStr (er_created r))]"

section \<open>The pipeline\<close>

text \<open>The builder's identifiers and its clock come from the world's clock.\<close>

record 'c pipeline =
  pl_setup :: "'c request_setup"
  pl_ids :: "'c \<Rightarrow> pyval \<times> 'c"
  pl_stamp :: "'c \<Rightarrow> string"

definition pipeline_plan :: "pyval \<Rightarrow> ('c request_world, unit, pyval) action" where
  "pipeline_plan v = (case planner_plan v of Inl _ \<Rightarrow> mraise () | Inr p \<Rightarrow> mret (PDict p))"

definition pipeline_build :: "'c pipeline \<Rightarrow> pyval \<Rightarrow> pyval \<Rightarrow> ('c request_world, unit, pyval) action" where
  "pipeline_build pl plan request w =
     (case validate_and_build None (pl_ids pl) (pl_stamp pl (rw_clock w)) plan request (rw_clock w) of
        (b, c) \<Rightarrow> (Inr (build_result_value b), w\<lparr>rw_clock := c\<rparr>))"

definition pipeline_enqueue ::
  "'c pipeline \<Rightarrow> pyval \<Rightarrow> pyval \<Rightarrow> pyval \<Rightarrow> ('c request_world, unit, pyval) action" where
  "pipeline_enqueue pl project reference ms w =
     (case coordinator_enqueue (production_coordinator (pl_setup pl)) project reference ms w of
        (r, w') \<Rightarrow> (Inr (enqueue_result_value r), w'))"

definition production_flow :: "'c pipeline \<Rightarrow> 'c request_world flow_env" where
  "production_flow pl = \<lparr>fe_plan = pipeline_plan, fe_build = pipeline_build pl,
     fe_enqueue = pipeline_enqueue pl,
     fe_now = (\<lambda>w. case tick_world (pl_setup pl) w of (t, w') \<Rightarrow> (PStr t, w')),
     fe_emit = sink_named\<rparr>"

section \<open>What leaves the queue alone\<close>

lemma flow_emit_queue [simp]:
  "rw_queue (fl_world (flow_emit (production_flow pl) name payload fl)) = rw_queue (fl_world fl)"
  by (simp add: flow_emit_def Let_def production_flow_def tick_world_def sink_named_def sink_event_def
      split: prod.split)

lemma count_rejected_world [simp]: "fl_world (count_rejected fl) = fl_world fl"
  by (simp add: count_rejected_def)

lemma flow_stop_queue:
  "flow_stop (production_flow pl) request norm event reason fl = (r, fl') \<Longrightarrow>
     rw_queue (fl_world fl') = rw_queue (fl_world fl) \<and> dget r ''accepted'' = PBool False \<and>
     dget r ''mission_ids'' = PList []"
  by (auto simp: flow_stop_def) (simp add: flow_result_def dget_def)

lemma pipeline_plan_queue:
  "fe_plan (production_flow pl) v w = (a, w') \<Longrightarrow> w' = w"
  by (auto simp: production_flow_def pipeline_plan_def split: sum.splits)

lemma pipeline_build_queue:
  "fe_build (production_flow pl) plan request w = (a, w') \<Longrightarrow> rw_queue w' = rw_queue w \<and>
     (\<exists>b c. validate_and_build None (pl_ids pl) (pl_stamp pl (rw_clock w)) plan request (rw_clock w) = (b, c) \<and>
       a = Inr (build_result_value b))"
  by (auto simp: production_flow_def pipeline_build_def split: prod.splits)

section \<open>Identifiers that fit the queue\<close>

definition fit_ids :: "('c \<Rightarrow> pyval \<times> 'c) \<Rightarrow> (string \<Rightarrow> mission option) \<Rightarrow> bool" where
  "fit_ids gen M \<longleftrightarrow> (\<forall>c i c'. gen c = (PStr i, c') \<longrightarrow> mission_id_ok i \<and>
     (\<forall>j m. M j = Some m \<longrightarrow> i \<notin> set (m_deps m)))"

lemma generate_ids_generated:
  "generate_ids gen seen n g = (Inr is, g') \<Longrightarrow> i \<in> set is \<Longrightarrow> \<exists>c c'. gen c = (PStr i, c')"
proof (induction n arbitrary: seen g "is")
  case (Suc n)
  obtain v g1 where v: "gen g = (v, g1)" by (cases "gen g")
  then obtain c cs js where "v = PStr (c # cs)" "generate_ids gen ((c # cs) # seen) n g1 = (Inr js, g')"
    "is = (c # cs) # js"
    using Suc.prems by (auto simp: m_simps split: pyval.splits list.splits if_splits)
  then show ?case using Suc v by auto
qed simp

lemma built_missions_take:
  assumes b: "validate_and_build supported gen now plan request g = (b, g')" "br_ok b"
    and wf: "disk_wf (rq_disk q)" and fit: "fit_ids gen (mission_at (rq_disk q))"
  shows "takes_batch (br_missions b) q"
proof -
  obtain n "is" g1 where i: "generate_ids gen [] n g = (Inr is, g1)"
    "enqueue_id ` set (br_missions b) = set is"
    using validate_and_build_ok [OF b] by (metis list.set_map)
  have ok: "mission_id_ok x \<and> (\<forall>j m. mission_at (rq_disk q) j = Some m \<longrightarrow> x \<notin> set (m_deps m))"
    if "x \<in> set is" for x
    using generate_ids_generated [OF i(1) that] fit unfolding fit_ids_def by blast
  have "mission_id_ok (enqueue_id m)" if "m \<in> set (br_missions b)" for m
    using ok i(2) that by blast
  moreover have "unclaimed (mission_at (rq_disk q)) (enqueue_id ` set (br_missions b))"
    using ok unfolding unclaimed_def i(2) by blast
  ultimately show ?thesis using wf by (simp add: takes_batch_def plain_id_def enqueue_id_def)
qed

section \<open>All or nothing\<close>

definition queued_together :: "'c pipeline \<Rightarrow> pyval dict \<Rightarrow> request_queue \<Rightarrow> request_queue \<Rightarrow> bool" where
  "queued_together pl r q q' \<longleftrightarrow> (\<exists>ms ps. prepare_missions (rs_adapter (pl_setup pl)) (rq_files q) [] (map PDict ms) = Inr ps \<and>
     (\<exists>project. submission project ms) \<and> dget r ''mission_ids'' = PList (map PStr (map pr_id ps)) \<and>
     batch_added (rs_adapter (pl_setup pl)) ps q q')"

lemma flow_mission_ids_dicts: "flow_mission_ids (map PDict ms) = Some ids \<Longrightarrow> ids = map enqueue_id ms"
  by (induction ms arbitrary: ids) (auto simp: enqueue_id_def split: if_splits)

definition one_request :: "'c pipeline \<Rightarrow> pyval dict \<Rightarrow> request_queue \<Rightarrow> request_queue \<Rightarrow> bool" where
  "one_request pl r q q' \<longleftrightarrow>
     (if dget r ''accepted'' = PBool True then queued_together pl r q q'
      else dget r ''mission_ids'' = PList [] \<and> same_content q q')"

lemma flow_queue_failed_queue:
  "flow_queue_failed (production_flow pl) request norm n plan_id summary reason fl = (r, fl') \<Longrightarrow>
     rw_queue (fl_world fl') = rw_queue (fl_world fl) \<and> dget r ''accepted'' = PBool False \<and>
     dget r ''mission_ids'' = PList []"
  by (auto simp: flow_queue_failed_def) (simp add: flow_result_def dget_def)

lemma queue_verdict_result:
  "queue_verdict (enqueue_result_value er) =
     (er_accepted er, case er_blocked er of None \<Rightarrow> PNone | Some b \<Rightarrow> PStr b)"
  by (simp add: queue_verdict_def enqueue_result_value_def dget_def py_truth_def)

lemma flow_submit_one_request:
  assumes run: "flow_submit (production_flow pl) request norm (map PDict ms) (map enqueue_id ms) plan_id summary fl = (r, fl')"
    and wf: "disk_wf (rq_disk (rw_queue (fl_world fl)))" and t: "takes_batch ms (rw_queue (fl_world fl))"
  shows "one_request pl r (rw_queue (fl_world fl)) (rw_queue (fl_world fl'))"
proof -
  let ?env = "production_flow pl" and ?n = "length (map PDict ms)"
  let ?fl1 = "flow_emit ?env ''queue_submission_started'' (short_payload request (count_field ?n) ''started'')
    (flow_emit ?env ''missions_built'' (short_payload request (count_field ?n) ''ok'')
      (flow_emit ?env ''plan_validated'' (named_payload request ''ok'') fl))"
  let ?ref = "case dget norm ''project_context'' of PDict pc \<Rightarrow> dget pc ''queue_reference'' | _ \<Rightarrow> PNone"
  let ?q = "rw_queue (fl_world fl)"
  obtain er w where e: "coordinator_enqueue (production_coordinator (pl_setup pl)) (dget norm ''project_id'') ?ref
      (PList (map PDict ms)) (fl_world ?fl1) = (er, w)"
    by (cases "coordinator_enqueue (production_coordinator (pl_setup pl)) (dget norm ''project_id'') ?ref
      (PList (map PDict ms)) (fl_world ?fl1)")
  then have en: "fe_enqueue ?env (dget norm ''project_id'') ?ref (PList (map PDict ms)) (fl_world ?fl1) =
      (Inr (enqueue_result_value er), w)"
    by (simp add: production_flow_def pipeline_enqueue_def)
  have q1: "rw_queue (fl_world ?fl1) = ?q" by simp
  have refl: "same_content (rw_queue (fl_world ?fl1)) (rw_queue (fl_world ?fl1))"
    using wf unfolding q1 by (simp add: same_content_def)
  have takes: "takes_batch ks (rw_queue (fl_world ?fl1))" if "PList (map PDict ms) = PList (map PDict ks)" for ks
  proof -
    have "ks = ms" using that by (simp add: inj_map_eq_map inj_def)
    then show ?thesis using t by simp
  qed
  note cases = production.coordinator_enqueue_cases [OF e takes refl, unfolded q1]
  show ?thesis
  proof (cases "er_accepted er")
    case True
    then obtain ks where ks: "map PDict ms = map PDict ks" "submission (dget norm ''project_id'') ks"
      "took_batch (rs_adapter (pl_setup pl)) ks ?q (rw_queue w)"
      using cases by auto
    have same: "ks = ms" using ks(1) by (simp add: inj_map_eq_map inj_def)
    obtain ps where ps: "prepare_missions (rs_adapter (pl_setup pl)) (rq_files ?q) [] (map PDict ms) = Inr ps"
      "map pr_id ps = map enqueue_id ms" "batch_added (rs_adapter (pl_setup pl)) ps ?q (rw_queue w)"
      using ks(3) unfolding took_batch_def same by blast
    have out: "r = flow_result norm True [] plan_id summary (map enqueue_id ms)" "rw_queue (fl_world fl') = rw_queue w"
      using run True by (auto simp: flow_submit_def Let_def en queue_verdict_result simp del: length_map)
    have "dget r ''mission_ids'' = PList (map PStr (map pr_id ps))"
      unfolding ps(2) by (simp add: out flow_result_def dget_def)
    then have "queued_together pl r ?q (rw_queue w)"
      using ps ks(2) unfolding queued_together_def same by blast
    then show ?thesis by (simp add: one_request_def out)
  next
    case False
    then have "same_content ?q (rw_queue w)" using cases by simp
    moreover have "flow_queue_failed ?env request norm ?n plan_id summary (blocked_code
        (case er_blocked er of None \<Rightarrow> PNone | Some b \<Rightarrow> PStr b)) (?fl1\<lparr>fl_world := w\<rparr>) = (r, fl')"
      using run False by (simp add: flow_submit_def Let_def en queue_verdict_result del: length_map)
    ultimately show ?thesis using flow_queue_failed_queue [of pl] by (fastforce simp: one_request_def)
  qed
qed


end
