(* ===== verification/RequestProgress.thy ===== *)
theory RequestProgress
  imports RequestPipeline
begin

text \<open>
  A well-formed request reaches the mission queue: the production planner's plan passes the
  builder, its mission passes the coordinator and the adapter, and only an identifier that is
  taken, or a definition that cannot be written, can stop it.
\<close>

section \<open>The normalized request\<close>

definition norm_ok :: "pyval dict \<Rightarrow> bool" where
  "norm_ok norm \<longleftrightarrow> (\<forall>k \<in> {''request_id'', ''project_id'', ''conversation_id'', ''provider_id'', ''model_id'', ''task_type''}.
     non_empty_text (dget norm k)) \<and> is_str (dget norm ''created_at'')"

lemma nonempty_strip: "nonempty_str v \<Longrightarrow> non_empty_text (PStr (strip (py_str v)))"
  by (auto simp: nonempty_str_def non_empty_text_def py_str_def split: pyval.splits)

lemma validated_norm: "validate_flow_request v = Some norm \<Longrightarrow> norm_ok norm"
  by (auto simp: validate_flow_request_def norm_ok_def stripped_field_def dget_def is_str_def
      intro!: nonempty_strip split: pyval.splits if_splits)

lemma planner_input_fields:
  assumes "planner_input norm = PDict m"
  shows "dget m ''request_id'' = dget norm ''request_id''" "dget m ''project_id'' = dget norm ''project_id''"
    "dget m ''user_message'' = dget norm ''user_message''"
  using assms by (auto simp: planner_input_def Let_def dget_def split: pyval.splits)

lemma approved_norm:
  assumes "norm_ok norm"
  shows "validate_approved_request None (PDict (map (\<lambda>k. (k, dget norm k)) approved_fields)) =
    Inr (map (\<lambda>k. (k, dget norm k)) approved_fields)"
proof -
  let ?d = "map (\<lambda>k. (k, dget norm k)) approved_fields"
  have "unknown_keys approved_fields ?d = []" "has_fields approved_fields ?d"
    by (simp_all add: unknown_keys_def has_fields_def approved_fields_def filter_empty_conv)
  moreover have "dget ?d k = dget norm k" if "k \<in> set approved_fields" for k
    using that by (rule dget_approved)
  moreover have "set approved_fields = {''request_id'', ''project_id'', ''conversation_id'', ''provider_id'',
      ''model_id'', ''task_type'', ''created_at''}"
    by (simp add: approved_fields_def)
  ultimately show ?thesis
    using assms by (simp add: validate_approved_request_def norm_ok_def ensure_identifier_def supported_type_def)
qed

section \<open>One mission is built\<close>

lemma order_single:
  assumes "mission_set [m]" "order_missions [m] = Inr ys"
  shows "ys = [m]"
  using order_missions_Inr(1) [OF assms] by (simp add: plan_arrangement_def)

lemma planner_missions:
  assumes n: "norm_ok norm" and inp: "planner_input norm = PDict m"
    and parts: "planner_parts m request project message task payload"
    and names: "dget norm ''request_id'' = PStr request" "dget norm ''project_id'' = PStr project"
    and gen: "gen c = (PStr i, c')" "i \<noteq> []"
  obtains mission where
    "validate_and_build None gen now (PDict (plan_of request project message task payload)) (PDict norm) c =
      (\<lparr>br_ok = True, br_plan_id = planner_plan_id request message,
        br_summary = text_field (PDict (plan_of request project message task payload)) ''summary'',
        br_missions = [mission]\<rparr>, c')"
    "dget mission ''mission_id'' = PStr i" "dget mission ''project_id'' = PStr project"
    "dget mission ''request_id'' = PStr request" "dget_or mission ''payload'' (PDict []) = redact_value (PDict payload)"
    "dget_or mission ''priority'' (PInt 0) = PInt (priority_for task)"
    "dget_or mission ''dependencies'' (PList []) = PList []"
proof -
  let ?p = "plan_of request project message task payload"
  let ?r = "map (\<lambda>k. (k, dget norm k)) approved_fields"
  have r: "dget ?r ''request_id'' = PStr request" "dget ?r ''project_id'' = PStr project"
    using dget_approved [of _ norm] names by (simp_all add: approved_fields_def dget_def)
  have valid: "validate_plan None (PDict ?p) ?r = Inr ?p" by (rule planner_plan_valid [OF parts r])
  obtain step where step: "steps_of ?p = [step]" "step_id_of step = planner_step_id request"
    "step_deps step = []" "dget step ''payload'' = PDict payload" "dget step ''priority'' = PInt (priority_for task)"
    by (simp add: steps_of_def plan_of_def dget_def step_id_of_def py_str_def step_deps_def text_list_def)
  let ?ref = "\<lambda>s. the (map_of (zip (map step_id_of [step]) [i]) s)"
  let ?m = "mission_of_step ?r (dget ?p ''plan_id'') now ?ref step"
  have ok: "plan_steps_ok [step]" using validate_plan_Inr [OF valid] by (simp add: step(1))
  have inj: "inj_on ?ref (step_id_of ` set [step])" by simp
  obtain ys where ys: "order_missions [?m] = Inr ys"
    using plan_missions(2) [OF ok inj, of ?r "dget ?p ''plan_id''" now] by auto
  have "mission_set [?m]" using plan_missions(1) [OF ok inj, of ?r "dget ?p ''plan_id''" now] by simp
  then have o: "order_missions [?m] = Inr [?m]" using order_single ys by blast
  obtain x xs where i: "i = x # xs" using gen(2) by (cases i) auto
  have ids: "generate_ids gen [] (Suc 0) c = (Inr [i], c')" using gen(1) by (simp add: i mbind_def)
  have build: "build_missions None gen now (PDict ?p) (PDict ?r) c = (Inr [?m], c')"
    using o by (simp add: build_missions_def approved_norm [OF n] valid step(1) mbind_Inr [of "generate_ids gen [] (Suc 0)", OF ids] Let_def
        del: generate_ids.simps)
  have "text_field (PDict ?p) ''plan_id'' = planner_plan_id request message"
    by (simp add: text_field_def plan_of_def dget_def py_truth_def py_str_def planner_plan_id_def)
  then have "validate_and_build None gen now (PDict ?p) (PDict norm) c =
      (\<lparr>br_ok = True, br_plan_id = planner_plan_id request message,
        br_summary = text_field (PDict ?p) ''summary'', br_missions = [?m]\<rparr>, c')"
    by (simp add: validate_and_build_def build)
  moreover have "dget ?m ''mission_id'' = PStr i" by (simp add: mission_of_step_def dget_def)
  moreover have "dget ?m ''project_id'' = PStr project" "dget ?m ''request_id'' = PStr request"
    using r by (simp_all add: mission_of_step_def dget_def)
  moreover have "dget_or ?m ''payload'' (PDict []) = redact_value (PDict payload)"
    "dget_or ?m ''priority'' (PInt 0) = PInt (priority_for task)" "dget_or ?m ''dependencies'' (PList []) = PList []"
    using step(3,4,5) by (simp_all add: mission_of_step_def dget_or_def)
  ultimately show ?thesis by (rule that)
qed

section \<open>The adapter prepares it\<close>

lemma redact_strings: "redact_value (PList (map PStr xs)) = PList (map PStr xs)"
  by (simp add: comp_def)

lemma strings_of: "list_all is_str us \<Longrightarrow> \<exists>xs. us = map PStr xs"
proof (induction us)
  case (Cons u us)
  then obtain x xs where "u = PStr x" "us = map PStr xs" by (cases u) (auto simp: is_str_def)
  then show ?case by (auto intro: exI [of _ "x # xs"])
qed simp

lemma redact_planner_payload:
  assumes "list_all is_str uploads"
  shows "redact_value (PDict (planner_payload request project root branch kind policy message uploads)) =
    PDict (planner_payload request project root branch kind policy message uploads)"
proof -
  obtain xs where "uploads = map PStr xs" using strings_of [OF assms] by blast
  then show ?thesis
    by (simp add: planner_payload_def sensitive_keys_def lower_def lower_char_def comp_def)
qed

lemma planner_payload_accepted:
  assumes "planner_parts m request project message task payload"
  shows "validate_payload (redact_value (PDict payload)) = Inr payload"
    "payload_deliverables payload = Inr (planner_deliverables message)"
proof -
  obtain root branch kind policy uploads where p: "list_all is_str uploads"
    "payload = planner_payload request project root branch kind policy message uploads"
    using assms by (auto simp: planner_parts_def)
  show "validate_payload (redact_value (PDict payload)) = Inr payload"
    unfolding p(2) redact_planner_payload [OF p(1)]
    using payload_harmless [OF p(1)] by (simp add: validate_payload_def contains_forbidden_keys_def)
  have "emap check_deliverable (map PStr (planner_deliverables message)) =
      Inr (map py_str (map PStr (planner_deliverables message)))"
    by (rule emap_all_ok) (use planner_deliverable_accepted in \<open>auto simp: py_str_def\<close>)
  then have "emap check_deliverable (map PStr (planner_deliverables message)) = Inr (planner_deliverables message)"
    by (simp add: py_str_def comp_def)
  moreover have "dedup (planner_deliverables message) = planner_deliverables message"
    by (intro dedup_distinct) (simp add: planner_deliverables_def)
  ultimately show "payload_deliverables payload = Inr (planner_deliverables message)"
    by (simp add: payload_deliverables_def p(2) planner_payload_def dget_or_def)
qed

lemma stripped_plain: "strip s = s \<Longrightarrow> stripped_text (PStr s) = s"
  by (simp add: stripped_text_def py_truth_def py_str_def)

lemma planner_mission_prepared:
  assumes parts: "planner_parts m request project message task payload"
    and fields: "dget mission ''mission_id'' = PStr i" "dget mission ''project_id'' = PStr project"
      "dget mission ''request_id'' = PStr request" "dget_or mission ''payload'' (PDict []) = redact_value (PDict payload)"
      "dget_or mission ''priority'' (PInt 0) = PInt priority" "dget_or mission ''dependencies'' (PList []) = PList []"
    and i: "mission_id_ok i" and cfg: "ra_project cfg = project"
    and path: "definition_path cfg i = Inr path" "map_of files path = None"
  shows "\<exists>p. prepare_missions cfg files [] [PDict mission] = Inr [p] \<and> pr_id p = i \<and> pr_path p = path"
proof -
  have stripped: "strip request = request" "request \<noteq> []" "strip project = project"
    using parts require_text_Inr unfolding planner_parts_def by (metis strip_strip)+
  have id: "valid_id (PStr i) = Inr i"
    using i by (simp add: valid_id_def stripped_plain mission_id_ok_strip Let_def)
  have "or_text (PStr request) [] = request" using stripped by (simp add: or_text_def py_str_def py_truth_def)
  then have "\<exists>content. render_definition mission = Inr content"
    using stripped(2) planner_payload_accepted [OF parts]
    by (simp add: render_definition_def fields(1,3,4) id Let_def)
  then show ?thesis
    using path stripped(3)
    by (auto simp: prepare_mission_def fields(1,2,5,6) stripped_plain cfg id)
qed

section \<open>The request is accepted\<close>

text \<open>Every identifier the generator can answer is new to the queue and has a writable place.\<close>

definition fresh_ids :: "'c pipeline \<Rightarrow> request_queue \<Rightarrow> bool" where
  "fresh_ids pl q \<longleftrightarrow> (\<forall>c. \<exists>i c' path. pl_ids pl c = (PStr i, c') \<and> mission_id_ok i \<and>
     mission_at (rq_disk q) i = None \<and> unclaimed (mission_at (rq_disk q)) {i} \<and>
     definition_path (rs_adapter (pl_setup pl)) i = Inr path \<and> map_of (rq_files q) path = None \<and>
     ra_writable (rs_adapter (pl_setup pl)) path)"

lemma fresh_fit: "fresh_ids pl q \<Longrightarrow> fit_ids (pl_ids pl) (mission_at (rq_disk q))"
  unfolding fresh_ids_def fit_ids_def unclaimed_def by (metis Int_insert_right Pair_inject insert_not_empty pyval.inject(3))

text \<open>The request names the pipeline's project and queue.\<close>

definition addressed :: "'c pipeline \<Rightarrow> pyval dict \<Rightarrow> bool" where
  "addressed pl norm \<longleftrightarrow> dget norm ''project_id'' = PStr (rs_project (pl_setup pl)) \<and>
     (\<exists>pc. dget norm ''project_context'' = PDict pc \<and>
        dget pc ''queue_reference'' = PStr (rs_reference (pl_setup pl))) \<and>
     strip (rs_reference (pl_setup pl)) \<noteq> [] \<and>
     ra_project (rs_adapter (pl_setup pl)) = rs_project (pl_setup pl)"

text \<open>What the planner wants of the normalized request, it finds there.\<close>

lemma validated_text:
  assumes "validate_flow_request v = Some norm" "k \<in> {''request_id'', ''project_id''}"
  obtains s where "dget norm k = PStr s" "strip s = s"
proof -
  obtain d where "dget norm k = PStr (strip (py_str (dget d k)))"
    using assms by (auto simp: validate_flow_request_def stripped_field_def dget_def split: pyval.splits if_splits)
  then show ?thesis using that strip_strip by blast
qed

lemma require_text_strip: "dget m k = PStr s \<Longrightarrow> require_text m k = Inr t \<Longrightarrow> t = strip s"
  by (auto simp: require_text_def py_str_def split: if_splits)

lemma planned_names:
  assumes v: "validate_flow_request v = Some norm" and inp: "planner_input norm = PDict m"
    and parts: "planner_parts m request project message task payload"
  shows "dget norm ''request_id'' = PStr request" "dget norm ''project_id'' = PStr project"
proof -
  note f = planner_input_fields [OF inp]
  show "dget norm ''request_id'' = PStr request"
    using validated_text [OF v, of "''request_id''"] require_text_strip [of m "''request_id''"] parts f(1)
    unfolding planner_parts_def by (metis insertI1)
  show "dget norm ''project_id'' = PStr project"
    using validated_text [OF v, of "''project_id''"] require_text_strip [of m "''project_id''"] parts f(2)
    unfolding planner_parts_def by (metis insertI1 insertI2)
qed

lemma flow_submit_accepted:
  fixes pl :: "'c pipeline"
  assumes norm: "norm_ok norm" "addressed pl norm" and sub: "submission (dget norm ''project_id'') ms"
    and t: "takes_batch ms (rw_queue (fl_world fl))"
    and ps: "prepare_missions (rs_adapter (pl_setup pl)) (rq_files (rw_queue (fl_world fl))) [] (map PDict ms) = Inr ps"
      "\<forall>p \<in> set ps. mission_at (rq_disk (rw_queue (fl_world fl))) (pr_id p) = None \<and>
        ra_writable (rs_adapter (pl_setup pl)) (pr_path p)"
  shows "\<exists>r fl'. flow_submit (production_flow pl) request norm (map PDict ms) ids plan_id summary fl = (r, fl') \<and>
    dget r ''accepted'' = PBool True"
proof -
  let ?env = "production_flow pl" and ?n = "length (map PDict ms)" and ?rs = "pl_setup pl"
  let ?fl1 = "flow_emit ?env ''queue_submission_started'' (short_payload request (count_field ?n) ''started'')
    (flow_emit ?env ''missions_built'' (short_payload request (count_field ?n) ''ok'')
      (flow_emit ?env ''plan_validated'' (named_payload request ''ok'') fl))"
  obtain pc where pc: "dget norm ''project_context'' = PDict pc" "dget pc ''queue_reference'' = PStr (rs_reference ?rs)"
    and ad: "dget norm ''project_id'' = PStr (rs_project ?rs)" "strip (rs_reference ?rs) \<noteq> []"
      "ra_project (rs_adapter ?rs) = rs_project ?rs"
    using norm(2) by (auto simp: addressed_def)
  have project: "strip (rs_project ?rs) \<noteq> []" using norm(1) ad(1) by (simp add: norm_ok_def non_empty_text_def)
  obtain er w where e: "coordinator_enqueue (production_coordinator ?rs) (PStr (rs_project ?rs)) (PStr (rs_reference ?rs))
      (PList (map PDict ms)) (fl_world ?fl1) = (er, w)"
    by (cases "coordinator_enqueue (production_coordinator ?rs) (PStr (rs_project ?rs)) (PStr (rs_reference ?rs))
      (PList (map PDict ms)) (fl_world ?fl1)")
  have "er_accepted er"
    using submission_accepted_iff [OF e] sub t ps project ad by (auto simp del: length_map)
  moreover have "fe_enqueue ?env (dget norm ''project_id'') (PStr (rs_reference ?rs)) (PList (map PDict ms))
      (fl_world ?fl1) = (Inr (enqueue_result_value er), w)"
    by (simp add: production_flow_def pipeline_enqueue_def ad(1)) (use e in \<open>simp add: production_flow_def\<close>)
  ultimately show ?thesis
    by (simp add: flow_submit_def Let_def pc queue_verdict_result del: length_map)
qed

lemma fresh_id:
  assumes "fresh_ids pl q" "pl_ids pl c = (PStr i, c1)"
  obtains path where "mission_id_ok i" "mission_at (rq_disk q) i = None"
    "definition_path (rs_adapter (pl_setup pl)) i = Inr path" "map_of (rq_files q) path = None"
    "ra_writable (rs_adapter (pl_setup pl)) path"
proof -
  obtain j c' path where "pl_ids pl c = (PStr j, c')" "mission_id_ok j" "mission_at (rq_disk q) j = None"
    "definition_path (rs_adapter (pl_setup pl)) j = Inr path" "map_of (rq_files q) path = None"
    "ra_writable (rs_adapter (pl_setup pl)) path"
    using assms(1) unfolding fresh_ids_def by meson
  then show ?thesis using that assms(2) by simp
qed

lemma one_mission_submitted:
  fixes pl :: "'c pipeline" and fl :: "'c request_world flow"
  assumes norm: "norm_ok norm" "addressed pl norm"
    and b: "validate_and_build None (pl_ids pl) now plan (PDict norm) c = (b, c')" "br_ok b" "br_missions b = [mission]"
    and parts: "planner_parts m request project message task payload"
    and fields: "dget mission ''mission_id'' = PStr i" "dget mission ''project_id'' = PStr project"
      "dget mission ''request_id'' = PStr request" "dget_or mission ''payload'' (PDict []) = redact_value (PDict payload)"
      "dget_or mission ''priority'' (PInt 0) = PInt priority" "dget_or mission ''dependencies'' (PList []) = PList []"
    and project: "dget norm ''project_id'' = PStr project"
    and fresh: "fresh_ids pl (rw_queue (fl_world fl))" and wf: "disk_wf (rq_disk (rw_queue (fl_world fl)))"
    and gen: "pl_ids pl c = (PStr i, c1)"
  shows "\<exists>r fl'. flow_submit (production_flow pl) req norm [PDict mission] ids plan_id summary fl = (r, fl') \<and>
    dget r ''accepted'' = PBool True"
proof -
  let ?q = "rw_queue (fl_world fl)" and ?cfg = "rs_adapter (pl_setup pl)"
  have here: "ra_project ?cfg = project" using norm(2) project by (simp add: addressed_def)
  obtain path where i: "mission_id_ok i" "mission_at (rq_disk ?q) i = None"
    and path: "definition_path ?cfg i = Inr path" "map_of (rq_files ?q) path = None" "ra_writable ?cfg path"
    by (rule fresh_id [OF fresh gen])
  obtain p where p: "prepare_missions ?cfg (rq_files ?q) [] [PDict mission] = Inr [p]" "pr_id p = i" "pr_path p = path"
    using planner_mission_prepared [OF parts fields i(1) here path(1,2)] by blast
  have t: "takes_batch [mission] ?q"
    using built_missions_take [OF b(1,2) wf fresh_fit [OF fresh]] by (simp add: b(3))
  have "submission (dget norm ''project_id'') [mission]" using validate_and_build_ok [OF b(1,2)] b(3) by auto
  from flow_submit_accepted [OF norm this t, of "[p]"] show ?thesis using p i path by simp
qed

lemma request_accepted:
  fixes pl :: "'c pipeline" and fl :: "'c request_world flow"
  assumes valid: "validate_flow_request v = Some norm" and plan: "planner_plan (planner_input norm) = Inr p"
    and here: "addressed pl norm" and fresh: "fresh_ids pl (rw_queue (fl_world fl))"
    and wf: "disk_wf (rq_disk (rw_queue (fl_world fl)))"
  shows "\<exists>r fl'. flow_process (production_flow pl) v fl = (Inr r, fl') \<and> dget r ''accepted'' = PBool True"
proof -
  let ?env = "production_flow pl"
  obtain req where v: "v = PDict req" using valid by (cases v) (auto simp: validate_flow_request_def)
  obtain m where inp: "planner_input norm = PDict m" by (simp add: planner_input_def Let_def)
  have ok: "norm_ok norm" by (rule validated_norm [OF valid])
  obtain request project message task payload where p: "p = plan_of request project message task payload"
    and parts: "planner_parts m request project message task payload"
    by (rule planner_plan_parts [OF plan [unfolded inp]])
  note names = planned_names [OF valid inp parts]
  let ?fl1 = "flow_emit ?env ''planner_flow_started'' (named_payload req ''started'')
    (fl\<lparr>fl_processed := fl_processed fl + 1\<rparr>)"
  let ?fl2 = "flow_emit ?env ''planner_started'' (named_payload req ''started'') ?fl1"
  let ?c = "rw_clock (fl_world ?fl2)"
  obtain i c1 where gen: "pl_ids pl ?c = (PStr i, c1)" and i: "mission_id_ok i"
    using fresh unfolding fresh_ids_def by blast
  have "i \<noteq> []" using i by (auto simp: mission_id_ok_def)
  note built = planner_missions [where gen = "pl_ids pl" and now = "pl_stamp pl ?c", OF ok inp parts names gen this]
  show ?thesis
  proof (rule built)
    fix mission
    let ?b = "\<lparr>br_ok = True, br_plan_id = planner_plan_id request message,
      br_summary = text_field (PDict (plan_of request project message task payload)) ''summary'', br_missions = [mission]\<rparr>"
    let ?fl3 = "?fl2\<lparr>fl_world := fl_world ?fl2\<lparr>rw_clock := c1\<rparr>\<rparr>"
    assume b: "validate_and_build None (pl_ids pl) (pl_stamp pl ?c) (PDict (plan_of request project message task payload))
        (PDict norm) ?c = (?b, c1)"
      and f: "dget mission ''mission_id'' = PStr i" "dget mission ''project_id'' = PStr project"
        "dget mission ''request_id'' = PStr request" "dget_or mission ''payload'' (PDict []) = redact_value (PDict payload)"
        "dget_or mission ''priority'' (PInt 0) = PInt (priority_for task)"
        "dget_or mission ''dependencies'' (PList []) = PList []"
    have q: "rw_queue (fl_world ?fl3) = rw_queue (fl_world fl)" by simp
    have id: "nonempty_str (PStr i)" using mission_id_ok_strip [OF i] \<open>i \<noteq> []\<close> by (simp add: nonempty_str_def)
    obtain r fl' where s: "flow_submit ?env req norm [PDict mission] [i] (safe_string (PStr (planner_plan_id request message)))
        (safe_string (PStr (br_summary ?b))) ?fl3 = (r, fl')" "dget r ''accepted'' = PBool True"
      using one_mission_submitted [OF ok here b _ _ parts f names(2) _ _ gen, of ?fl3 req "[i]"] fresh wf
      unfolding q by (metis build_result.select_convs(1,4))
    have "flow_built ?env req norm (build_result_value ?b) ?fl3 = (Inr r, fl')"
      using s by (simp add: flow_built_def Let_def build_result_value_def dget_def dget_or_def py_truth_def
          f(1) [unfolded dget_def] id py_str_def)
    moreover have "fe_plan ?env (planner_input norm) (fl_world ?fl2) = (Inr (PDict p), fl_world ?fl2)"
      by (simp add: production_flow_def pipeline_plan_def plan)
    moreover have "fe_build ?env (PDict p) (PDict norm) (fl_world ?fl2) =
        (Inr (build_result_value ?b), fl_world ?fl2\<lparr>rw_clock := c1\<rparr>)"
      using b by (simp add: production_flow_def pipeline_build_def p)
    moreover have "py_truth (PDict p)" by (simp add: p plan_of_def py_truth_def)
    ultimately have "flow_planned ?env req norm ?fl1 = (Inr r, fl')"
      by (simp add: flow_planned_def Let_def)
    then show ?thesis using valid s(2) by (simp add: flow_process_def v Let_def)
  qed
qed

text \<open>C8: A well-formed request gets through.  If the planner takes it, it names the pipeline's project
  and queue, and the generator answers identifiers that are new to the queue and can be written, then
  the request is accepted: nothing in builder, coordinator or adapter refuses what the planner plans.\<close>

theorem addressed_request_accepted:
  fixes pl :: "'c pipeline" and fl :: "'c request_world flow"
  assumes "validate_flow_request v = Some norm" and "planner_plan (planner_input norm) = Inr p"
    and "addressed pl norm" and "fresh_ids pl (rw_queue (fl_world fl))"
    and "disk_wf (rq_disk (rw_queue (fl_world fl)))"
  shows "\<exists>r fl'. flow_process (production_flow pl) v fl = (Inr r, fl') \<and> dget r ''accepted'' = PBool True"
  by (rule request_accepted [OF assms])

section \<open>A concrete request\<close>

definition demo_pipeline :: "nat pipeline" where
  "demo_pipeline = \<lparr>pl_setup = \<lparr>rs_project = ''shop'', rs_reference = ''main'',
       rs_adapter = \<lparr>ra_project = ''shop'', ra_root = [''data''], ra_resolve = (\<lambda>p. p),
         ra_writable = (\<lambda>_. True), ra_autonomous = None\<rparr>,
       rs_tick = (\<lambda>n. (''t'' @ nat_str n, Suc n))\<rparr>,
     pl_ids = (\<lambda>n. (PStr ''m1'', Suc n)), pl_stamp = (\<lambda>n. ''t'' @ nat_str n)\<rparr>"

definition demo_message :: pyval where
  "demo_message = PDict
     [(''accepted'', PBool True), (''request_id'', PStr ''r1''), (''project_id'', PStr ''shop''),
      (''conversation_id'', PStr ''c1''), (''provider_id'', PStr ''p''), (''model_id'', PStr ''m''),
      (''task_type'', PStr ''backend''), (''user_message'', PStr ''Fix src/cart.py''), (''upload_ids'', PList []),
      (''created_at'', PStr ''t0''), (''warning'', PNone),
      (''project_context'', PDict [(''repository_root'', PStr ''/srv/shop''), (''default_branch'', PStr ''main''),
         (''project_type'', PStr ''python''), (''policy_profile'', PStr ''p''), (''queue_reference'', PStr ''main'')])]"

definition demo_start :: "nat request_world flow" where
  "demo_start = \<lparr>fl_world = \<lparr>rw_queue = \<lparr>rq_disk = None, rq_files = []\<rparr>, rw_events = [], rw_clock = 0\<rparr>,
     fl_processed = 0, fl_accepted = 0, fl_rejected = 0, fl_events = []\<rparr>"

lemma demo_wf: "disk_wf (rq_disk (rw_queue (fl_world demo_start)))"
  using reachable_disk_ok [OF reachable_disk.start] by (simp add: demo_start_def disk_ok_wf)

lemma demo_empty: "mission_at (rq_disk (rw_queue (fl_world demo_start))) i = None"
  by (simp add: demo_start_def mission_at_def load_queue_def)

lemma demo_fresh: "fresh_ids demo_pipeline (rw_queue (fl_world demo_start))"
proof -
  have ok: "mission_id_ok ''m1''" by code_simp
  have p: "definition_path (rs_adapter (pl_setup demo_pipeline)) ''m1'' = Inr [''data'', ''m1.md'']"
    by (simp add: definition_path_def demo_pipeline_def)
  have "pl_ids demo_pipeline c = (PStr ''m1'', Suc c)" "ra_writable (rs_adapter (pl_setup demo_pipeline)) f" for c f
    by (simp_all add: demo_pipeline_def)
  moreover have "map_of (rq_files (rw_queue (fl_world demo_start))) f = None" for f by (simp add: demo_start_def)
  ultimately show ?thesis unfolding fresh_ids_def using ok p by (simp add: unclaimed_def demo_empty)
qed

lemma demo_planned:
  obtains norm p where "validate_flow_request demo_message = Some norm" "planner_plan (planner_input norm) = Inr p"
    "addressed demo_pipeline norm"
proof -
  let ?norm = "the (validate_flow_request demo_message)"
  have "validate_flow_request demo_message \<noteq> None" by code_simp
  then have v: "validate_flow_request demo_message = Some ?norm" by simp
  obtain m where m: "planner_input ?norm = PDict m" by (simp add: planner_input_def Let_def)
  have req: "case planner_input ?norm of PDict m \<Rightarrow>
      list_all (\<lambda>k. case ebind (require_text m k) valid_identifier of Inr _ \<Rightarrow> True | _ \<Rightarrow> False)
        [''request_id'', ''project_id'', ''conversation_id''] \<and>
      list_all (\<lambda>k. case require_text m k of Inr _ \<Rightarrow> True | _ \<Rightarrow> False)
        [''user_message'', ''task_type'', ''repository_root'', ''default_branch'', ''project_type'', ''policy_profile''] \<and>
      dget_or m ''upload_ids'' (PList []) = PList [] | _ \<Rightarrow> False"
    by code_simp
  have "\<exists>p. planner_plan (planner_input ?norm) = Inr p"
    using req by (auto simp: m planner_plan_def Let_def split: sum.splits)
  moreover have "addressed demo_pipeline ?norm"
  proof -
    have "dget ?norm ''project_id'' = PStr ''shop''" by code_simp
    moreover have "case dget ?norm ''project_context'' of PDict pc \<Rightarrow> dget pc ''queue_reference'' = PStr ''main'' | _ \<Rightarrow> False"
      by code_simp
    moreover have "strip ''main'' \<noteq> []" by code_simp
    ultimately show ?thesis by (auto simp: addressed_def demo_pipeline_def split: pyval.splits)
  qed
  ultimately show ?thesis using that v by blast
qed

theorem addressed_request_accepted_witness:
  "\<exists>r fl'. flow_process (production_flow demo_pipeline) demo_message demo_start = (Inr r, fl') \<and>
    dget r ''accepted'' = PBool True"
  by (rule demo_planned) (rule addressed_request_accepted [OF _ _ _ demo_fresh demo_wf])


end
